(* ===== verification/Prelude.thy ===== *)
theory Prelude
  imports Main "HOL-Library.Word"
begin

text \<open>
  Shared vocabulary of the development: the machine integer types of
  \<^verbatim>\<open>include/types.h\<close>, the result type of operations that may stop the emulator,
  the C \<^verbatim>\<open>switch\<close> over integer labels, C bit-fields and little-endian byte strings,
  and the lemma collections the component theories use.
\<close>

unbundle bit_operations_syntax

named_theorems bitfield \<open>reading one bit-field of a word assembled from fields\<close>
named_theorems step_defs \<open>definitions unfolded when one operation is executed symbolically\<close>

section \<open>Machine integers\<close>

type_synonym u8 = "8 word"
type_synonym u16 = "16 word"
type_synonym u32 = "32 word"
type_synonym u64 = "64 word"

section \<open>Results\<close>

text \<open>
  An operation returns a value or stops the program: \<open>Fatal\<close> is
  \<^verbatim>\<open>rvtrbk_fatal\<close> (message, then trap), \<open>Undefined\<close> is behaviour the C standard
  leaves undefined (an access outside an allocated object, \<^verbatim>\<open>__builtin_unreachable\<close>,
  a division by zero), which no theorem below may rely on.
\<close>

datatype fault = Fatal string | Undefined string

type_synonym 'a res = "fault + 'a"

definition rbind :: "'a res \<Rightarrow> ('a \<Rightarrow> 'b res) \<Rightarrow> 'b res" where
  "rbind m k = (case m of Inl e \<Rightarrow> Inl e | Inr x \<Rightarrow> k x)"

lemma rbind_simps [simp]:
  "rbind (Inl e) k = Inl e"
  "rbind (Inr x) k = k x"
  by (simp_all add: rbind_def)

lemma rbind_eq_Inr: "rbind m k = Inr y \<longleftrightarrow> (\<exists>x. m = Inr x \<and> k x = Inr y)"
  by (cases m) auto

lemma rbind_eq_Inl: "rbind m k = Inl e \<longleftrightarrow> m = Inl e \<or> (\<exists>x. m = Inr x \<and> k x = Inl e)"
  by (cases m) auto

lemma rbind_InrE:
  assumes "rbind m k = Inr y"
  obtains x where "m = Inr x" "k x = Inr y"
  using assms by (auto simp: rbind_eq_Inr)

lemma rbind_assoc: "rbind (rbind m f) g = rbind m (\<lambda>x. rbind (f x) g)"
  by (cases m) auto

section \<open>Switch\<close>

definition switch :: "'a \<Rightarrow> ('a \<times> 'b) list \<Rightarrow> 'b \<Rightarrow> 'b" where
  "switch v cs d = (case map_of cs v of Some r \<Rightarrow> r | None \<Rightarrow> d)"

lemma switch_Nil [simp]: "switch v [] d = d"
  by (simp add: switch_def)

lemma switch_Cons [simp]: "switch v ((c, r) # cs) d = (if v = c then r else switch v cs d)"
  by (auto simp: switch_def)

section \<open>Bit-fields\<close>

text \<open>\<open>bits lo n w\<close> is the C bit-field of \<open>n\<close> bits that starts at bit \<open>lo\<close>.\<close>

definition bits :: "nat \<Rightarrow> nat \<Rightarrow> 'a::len word \<Rightarrow> 'a word" where
  "bits lo n w = take_bit n (drop_bit lo w)"

lemma bit_bits [bit_simps]: "bit (bits lo n w) i \<longleftrightarrow> i < n \<and> bit w (lo + i)"
  by (auto simp: bits_def bit_simps dest: bit_imp_le_length)

lemma bits_or [bitfield]: "bits lo n (x OR y) = bits lo n x OR bits lo n y"
  by (simp add: bits_def)

lemma bits_below [bitfield]:
  fixes x :: "'b::len word"
  assumes "k + LENGTH('b) \<le> lo"
  shows "bits lo n (push_bit k (ucast x) :: 'a::len word) = 0"
  using assms by (auto simp: bit_eq_iff bit_simps dest!: bit_imp_le_length)

lemma bits_above [bitfield]:
  assumes "lo + n \<le> k"
  shows "bits lo n (push_bit k w) = 0"
  using assms by (auto simp: bit_eq_iff bit_simps)

lemma bits_slice [bitfield]:
  fixes x :: "'b::len word"
  assumes "k \<le> lo" and "lo + n \<le> k + LENGTH('b)" and "lo + n \<le> LENGTH('a)"
  shows "bits lo n (push_bit k (ucast x) :: 'a::len word) = ucast (bits (lo - k) n x)"
  using assms by (auto simp: bit_eq_iff bit_simps)

lemma bits_all [bitfield]: "n = LENGTH('b) \<Longrightarrow> bits 0 n (x :: 'b::len word) = x"
  by (simp add: bits_def take_bit_word_eq_self)

lemma unat_bits_less: "unat (bits lo n w) < 2 ^ n"
proof -
  have "unat (take_bit n (drop_bit lo w)) = take_bit n (unat (drop_bit lo w))"
    by (simp add: unsigned_take_bit_eq)
  then show ?thesis by (simp add: bits_def)
qed

section \<open>Little-endian byte strings\<close>

text \<open>The host is little-endian x86-64, and every \<^verbatim>\<open>*(u32 *)p\<close> reads its bytes so.\<close>

fun le_bytes :: "nat \<Rightarrow> 'a::len word \<Rightarrow> u8 list" where
  "le_bytes 0 w = []"
| "le_bytes (Suc n) w = ucast w # le_bytes n (drop_bit 8 w)"

fun le_word :: "u8 list \<Rightarrow> 'a::len word" where
  "le_word [] = 0"
| "le_word (b # bs) = ucast b OR push_bit 8 (le_word bs)"

lemma length_le_bytes [simp]: "length (le_bytes n w) = n"
  by (induction n arbitrary: w) auto

lemma le_word_le_bytes: "le_word (le_bytes n w) = take_bit (8 * n) w"
proof (induction n arbitrary: w)
  case 0
  then show ?case by simp
next
  case (Suc n)
  have "bit (ucast (ucast w :: u8) OR push_bit 8 (take_bit (8 * n) (drop_bit 8 w))) i
      = bit (take_bit (8 * Suc n) w) i" for i
    by (cases "i < 8") (auto simp: bit_simps dest: bit_imp_le_length)
  then have "ucast (ucast w :: u8) OR push_bit 8 (take_bit (8 * n) (drop_bit 8 w))
      = take_bit (8 * Suc n) w"
    by (simp only: bit_eq_iff) simp
  with Suc show ?case by simp
qed

lemma le_word_le_bytes_full:
  fixes w :: "'a::len word"
  shows "LENGTH('a) \<le> 8 * n \<Longrightarrow> le_word (le_bytes n w) = w"
  by (simp add: le_word_le_bytes take_bit_word_eq_self)

lemma le_bytes_le_word:
  "8 * length bs \<le> LENGTH('a) \<Longrightarrow> le_bytes (length bs) (le_word bs :: 'a::len word) = bs"
proof (induction bs)
  case Nil
  then show ?case by simp
next
  case (Cons b bs)
  let ?w = "le_word bs :: 'a word"
  have small: "take_bit (8 * length bs) ?w = ?w"
    using Cons le_word_le_bytes [of "length bs" ?w] by simp
  have "drop_bit 8 (ucast b OR push_bit 8 ?w) = ?w"
  proof (rule bit_word_eqI)
    fix i assume "i < LENGTH('a)"
    have "bit ?w i \<Longrightarrow> i < 8 * length bs"
      using small by (metis bit_take_bit_iff)
    then show "bit (drop_bit 8 (ucast b OR push_bit 8 ?w)) i = bit ?w i"
      using Cons.prems by (auto simp: bit_simps dest: bit_imp_le_length)
  qed
  moreover have "(ucast (ucast b OR push_bit 8 ?w) :: u8) = b"
    using Cons.prems by (auto simp: bit_eq_iff bit_simps dest: bit_imp_le_length)
  ultimately show ?case using Cons by simp
qed

end
