(* ===== verification/HostMem.thy ===== *)
theory HostMem
  imports Prelude
begin

text \<open>
  The host process's heap, as far as the emulator uses it: \<^verbatim>\<open>calloc\<close>, reads and
  writes through byte pointers, \<^verbatim>\<open>memcpy\<close>.  An access that leaves the allocated
  blocks is \<open>Undefined\<close>.  Two contracts are stated as locales, what an allocator promises
  and what a byte store promises, and both are discharged here for the heap.
\<close>

section \<open>The heap\<close>

text \<open>
  A pointer is a natural number and \<open>0\<close> is \<^verbatim>\<open>NULL\<close>.  A cell holds a byte when it
  belongs to an allocated block and \<open>None\<close> otherwise.  Blocks are laid out upwards from
  \<open>next_addr\<close> with 16 bytes between them (the allocator's own header), so no access of at
  most 16 bytes can slide from one block into the next; \<open>limit\<close> is where the host runs out
  of memory.
\<close>

type_synonym hptr = nat

record hheap =
  cells :: "nat \<Rightarrow> u8 option"
  next_addr :: nat
  limit :: nat

definition heap_init :: "nat \<Rightarrow> hheap" where
  "heap_init lim = \<lparr>cells = (\<lambda>_. None), next_addr = 16, limit = lim\<rparr>"

definition live :: "hheap \<Rightarrow> hptr \<Rightarrow> bool" where
  "live h a \<longleftrightarrow> cells h a \<noteq> None"

definition heap_ok :: "hheap \<Rightarrow> bool" where
  "heap_ok h \<longleftrightarrow> 0 < next_addr h \<and> (\<forall>a. live h a \<longrightarrow> a < next_addr h)"

definition calloc :: "nat \<Rightarrow> hheap \<Rightarrow> (hptr \<times> hheap) option" where
  "calloc n h =
     (if limit h < next_addr h + n then None
      else Some (next_addr h,
        h\<lparr>cells := (\<lambda>a. if next_addr h \<le> a \<and> a < next_addr h + n then Some 0 else cells h a),
          next_addr := next_addr h + n + 16\<rparr>))"

text \<open>An allocation whose failure is reported and stops the program.\<close>

definition halloc :: "string \<Rightarrow> nat \<Rightarrow> hheap \<Rightarrow> (hptr \<times> hheap) res" where
  "halloc msg n h = (case calloc n h of None \<Rightarrow> Inl (Fatal msg) | Some r \<Rightarrow> Inr r)"

fun hread :: "hheap \<Rightarrow> hptr \<Rightarrow> nat \<Rightarrow> u8 list res" where
  "hread h p 0 = Inr []"
| "hread h p (Suc n) =
     (case cells h p of
        None \<Rightarrow> Inl (Undefined ''read outside an allocation'')
      | Some b \<Rightarrow> rbind (hread h (Suc p) n) (\<lambda>bs. Inr (b # bs)))"

fun hwrite :: "hheap \<Rightarrow> hptr \<Rightarrow> u8 list \<Rightarrow> hheap res" where
  "hwrite h p [] = Inr h"
| "hwrite h p (b # bs) =
     (case cells h p of
        None \<Rightarrow> Inl (Undefined ''write outside an allocation'')
      | Some _ \<Rightarrow> hwrite (h\<lparr>cells := (cells h)(p \<mapsto> b)\<rparr>) (Suc p) bs)"

lemma halloc_eq_Inr [simp]: "halloc msg n h = Inr r \<longleftrightarrow> calloc n h = Some r"
  by (simp add: halloc_def split: option.split)

section \<open>Reads and writes as functions of the cells\<close>

lemma hread_eq_Inr:
  "hread h p n = Inr bs \<longleftrightarrow> length bs = n \<and> (\<forall>i<n. cells h (p + i) = Some (bs ! i))"
proof (induction n arbitrary: p bs)
  case 0
  then show ?case by auto
next
  case (Suc n)
  show ?case
  proof (cases bs)
    case Nil
    then show ?thesis by (auto simp: rbind_eq_Inr split: option.split)
  next
    case (Cons b bs')
    then show ?thesis
      using Suc.IH [of "Suc p" bs'] by (auto simp: rbind_eq_Inr All_less_Suc2 split: option.split)
  qed
qed

lemma hread_defined: "(\<exists>bs. hread h p n = Inr bs) \<longleftrightarrow> (\<forall>i<n. live h (p + i))"
proof
  assume "\<forall>i<n. live h (p + i)"
  then have "hread h p n = Inr (map (\<lambda>i. the (cells h (p + i))) [0..<n])"
    by (auto simp: hread_eq_Inr live_def)
  then show "\<exists>bs. hread h p n = Inr bs" by blast
qed (auto simp: hread_eq_Inr live_def)

lemma hread_cong:
  "(\<And>i. i < n \<Longrightarrow> cells h' (p + i) = cells h (p + i)) \<Longrightarrow> hread h' p n = hread h p n"
proof (induction n arbitrary: p)
  case 0
  then show ?case by simp
next
  case (Suc n)
  from Suc.prems [of 0] have "cells h' p = cells h p" by simp
  moreover have "hread h' (Suc p) n = hread h (Suc p) n"
  proof (rule Suc.IH)
    fix i assume "i < n"
    then show "cells h' (Suc p + i) = cells h (Suc p + i)" using Suc.prems [of "Suc i"] by simp
  qed
  ultimately show ?case by (simp split: option.split)
qed

lemma hread_length: "hread h p n = Inr bs \<Longrightarrow> length bs = n"
  by (simp add: hread_eq_Inr)

lemma hwrite_error: "hwrite h p bs = Inl e \<Longrightarrow> e = Undefined ''write outside an allocation''"
  by (induction h p bs rule: hwrite.induct) (auto split: option.splits)

lemma hread_error: "hread h p n = Inl e \<Longrightarrow> e = Undefined ''read outside an allocation''"
  by (induction h p n rule: hread.induct) (auto simp: rbind_eq_Inl split: option.splits)

definition put_bytes :: "hptr \<Rightarrow> u8 list \<Rightarrow> hheap \<Rightarrow> hheap" where
  "put_bytes p bs h =
     h\<lparr>cells := (\<lambda>a. if p \<le> a \<and> a < p + length bs then Some (bs ! (a - p)) else cells h a)\<rparr>"

lemma put_bytes_Nil [simp]: "put_bytes p [] h = h"
proof -
  have "(\<lambda>a. if p \<le> a \<and> a < p then Some ([] ! (a - p)) else cells h a) = cells h"
    by (rule ext) auto
  then show ?thesis by (simp add: put_bytes_def)
qed

lemma put_bytes_Cons:
  "put_bytes (Suc p) bs (h\<lparr>cells := (cells h)(p \<mapsto> b)\<rparr>) = put_bytes p (b # bs) h"
proof -
  have "(if Suc p \<le> a \<and> a < Suc p + length bs then Some (bs ! (a - Suc p))
         else ((cells h)(p \<mapsto> b)) a)
      = (if p \<le> a \<and> a < p + length (b # bs) then Some ((b # bs) ! (a - p)) else cells h a)" for a
  proof (cases "Suc p \<le> a")
    case True
    then have "a - p = Suc (a - Suc p)" by simp
    with True show ?thesis by simp
  qed auto
  then have "cells (put_bytes (Suc p) bs (h\<lparr>cells := (cells h)(p \<mapsto> b)\<rparr>)) = cells (put_bytes p (b # bs) h)"
    by (intro ext) (simp add: put_bytes_def)
  then show ?thesis by (rule hheap.equality) (simp_all add: put_bytes_def)
qed

lemma hwrite_eq_Inr:
  "hwrite h p bs = Inr h' \<longleftrightarrow> (\<forall>i<length bs. live h (p + i)) \<and> h' = put_bytes p bs h"
proof (induction bs arbitrary: h p)
  case Nil
  then show ?case by auto
next
  case (Cons b bs)
  have "live (h\<lparr>cells := (cells h)(p \<mapsto> b)\<rparr>) (Suc p + i) = live h (Suc p + i)" for i
    by (simp add: live_def)
  with Cons.IH [of "h\<lparr>cells := (cells h)(p \<mapsto> b)\<rparr>" "Suc p"] show ?case
    by (auto simp: All_less_Suc2 live_def put_bytes_Cons split: option.split)
qed

lemma put_bytes_fields [simp]:
  "next_addr (put_bytes p bs h) = next_addr h"
  "limit (put_bytes p bs h) = limit h"
  by (simp_all add: put_bytes_def)

lemma live_put_bytes:
  "\<forall>i<length bs. live h (p + i) \<Longrightarrow> live (put_bytes p bs h) a = live h a"
  by (auto simp: live_def put_bytes_def dest: spec [of _ "a - p"])

lemma hwrite_live: "hwrite h p bs = Inr h' \<Longrightarrow> live h' a = live h a"
  by (auto simp: hwrite_eq_Inr live_put_bytes)

lemma hwrite_heap_ok: "hwrite h p bs = Inr h' \<Longrightarrow> heap_ok h \<Longrightarrow> heap_ok h'"
  by (auto simp: heap_ok_def hwrite_live) (auto simp: hwrite_eq_Inr)

lemma heap_ok_init: "heap_ok (heap_init lim)"
  by (simp add: heap_ok_def heap_init_def live_def)

section \<open>The contract of an allocator\<close>

locale allocator =
  fixes alloc :: "nat \<Rightarrow> 'h \<Rightarrow> (nat \<times> 'h) option"
    and alive :: "'h \<Rightarrow> nat \<Rightarrow> bool"
    and ok :: "'h \<Rightarrow> bool"
  assumes alloc_ok: "ok h \<Longrightarrow> alloc n h = Some (p, h') \<Longrightarrow> ok h'"
    and alloc_nonnull: "ok h \<Longrightarrow> alloc n h = Some (p, h') \<Longrightarrow> 0 < p"
    and alloc_fresh: "ok h \<Longrightarrow> alloc n h = Some (p, h') \<Longrightarrow> p \<le> a \<Longrightarrow> \<not> alive h a"
    and alloc_alive: "ok h \<Longrightarrow> alloc n h = Some (p, h') \<Longrightarrow>
      alive h' a \<longleftrightarrow> alive h a \<or> p \<le> a \<and> a < p + n"
begin

text \<open>A new block lies above every block that was alive.\<close>

lemma alloc_above:
  assumes "ok h" and "alloc n h = Some (p, h')" and "\<forall>i<m. alive h (q + i)" and "0 < m"
  shows "q + m \<le> p"
proof (rule ccontr)
  assume "\<not> q + m \<le> p"
  then have "p \<le> q + (m - 1)" using assms(4) by simp
  then have "\<not> alive h (q + (m - 1))" using assms(1,2) alloc_fresh by blast
  then show False using assms(3) [rule_format, of "m - 1"] assms(4) by simp
qed

lemma alloc_block: "ok h \<Longrightarrow> alloc n h = Some (p, h') \<Longrightarrow> \<forall>i<n. alive h' (p + i)"
  by (simp add: alloc_alive)

lemma alloc_end: "ok h \<Longrightarrow> alloc n h = Some (p, h') \<Longrightarrow> \<not> alive h' (p + n)"
  by (simp add: alloc_alive alloc_fresh)

lemma alloc_mono: "ok h \<Longrightarrow> alloc n h = Some (p, h') \<Longrightarrow> alive h a \<Longrightarrow> alive h' a"
  by (simp add: alloc_alive)

end

interpretation heap: allocator calloc live heap_ok
proof
  fix h n p h'
  assume ok: "heap_ok h" and c: "calloc n h = Some (p, h')"
  have p: "p = next_addr h" and h': "next_addr h' = next_addr h + n + 16"
    and cs: "cells h' = (\<lambda>a. if next_addr h \<le> a \<and> a < next_addr h + n then Some 0 else cells h a)"
    using c by (auto simp: calloc_def split: if_splits)
  show "live h' a \<longleftrightarrow> live h a \<or> p \<le> a \<and> a < p + n" for a
    by (auto simp: live_def cs p)
  then show "heap_ok h'"
    using ok by (auto simp: heap_ok_def h' p)
  show "0 < p" using ok by (simp add: heap_ok_def p)
  show "\<not> live h a" if "p \<le> a" for a
    using ok that by (auto simp: heap_ok_def p)
qed

lemma calloc_zeroed:
  "calloc n h = Some (p, h') \<Longrightarrow> i < n \<Longrightarrow> cells h' (p + i) = Some 0"
  by (auto simp: calloc_def split: if_splits)

lemma calloc_frame:
  "calloc n h = Some (p, h') \<Longrightarrow> heap_ok h \<Longrightarrow> live h a \<Longrightarrow> cells h' a = cells h a"
  by (auto simp: calloc_def heap_ok_def split: if_splits)

section \<open>The contract of a byte store\<close>

text \<open>
  \<open>apart\<close> says of two accesses that they share no byte.  The heap meets the contract with
  host pointers here, and guest memory meets it with guest addresses in theory Machine.
\<close>

locale byte_store =
  fixes rd_bytes :: "'s \<Rightarrow> 'a \<Rightarrow> nat \<Rightarrow> u8 list res"
    and wr_bytes :: "'s \<Rightarrow> 'a \<Rightarrow> u8 list \<Rightarrow> 's res"
    and apart :: "'s \<Rightarrow> 'a \<Rightarrow> nat \<Rightarrow> 'a \<Rightarrow> nat \<Rightarrow> bool"
  assumes read_length: "rd_bytes s a n = Inr bs \<Longrightarrow> length bs = n"
    and read_written: "wr_bytes s a bs = Inr s' \<Longrightarrow> rd_bytes s' a (length bs) = Inr bs"
    and read_frame: "wr_bytes s a bs = Inr s' \<Longrightarrow> apart s a (length bs) b n \<Longrightarrow>
      rd_bytes s' b n = rd_bytes s b n"
    and write_total: "rd_bytes s a n = Inr bs \<Longrightarrow> length cs = n \<Longrightarrow> \<exists>s'. wr_bytes s a cs = Inr s'"
begin

lemma read_word_written:
  fixes w :: "'w::len word"
  assumes "wr_bytes s a (le_bytes n w) = Inr s'"
  shows "rbind (rd_bytes s' a n) (\<lambda>bs. Inr (le_word bs)) = Inr (take_bit (8 * n) w)"
proof -
  have "rd_bytes s' a n = Inr (le_bytes n w)"
    using read_written [OF assms] by simp
  then show ?thesis by (simp add: le_word_le_bytes)
qed

lemma written_twice:
  assumes "wr_bytes s a bs = Inr s1" and "length cs = length bs"
  shows "\<exists>s2. wr_bytes s1 a cs = Inr s2 \<and> rd_bytes s2 a (length bs) = Inr cs"
  using write_total [OF read_written [OF assms(1)]] read_written assms(2) by metis

end

definition ranges_apart :: "nat \<Rightarrow> nat \<Rightarrow> nat \<Rightarrow> nat \<Rightarrow> bool" where
  "ranges_apart p m q n \<longleftrightarrow> p + m \<le> q \<or> q + n \<le> p"

interpretation heap_bytes: byte_store hread hwrite "\<lambda>_. ranges_apart"
proof
  fix h p bs n q h' cs
  show "hread h p n = Inr bs \<Longrightarrow> length bs = n" by (rule hread_length)
  show "hwrite h p bs = Inr h' \<Longrightarrow> hread h' p (length bs) = Inr bs"
    by (auto simp: hread_eq_Inr hwrite_eq_Inr put_bytes_def)
  show "hread h p n = Inr bs \<Longrightarrow> length cs = n \<Longrightarrow> \<exists>h'. hwrite h p cs = Inr h'"
    by (auto simp: hread_eq_Inr hwrite_eq_Inr live_def)
  assume w: "hwrite h p bs = Inr h'" and apart: "ranges_apart p (length bs) q n"
  have same: "cells h' (q + i) = cells h (q + i)" if "i < n" for i
    using w apart that by (auto simp: hwrite_eq_Inr put_bytes_def ranges_apart_def)
  then show "hread h' q n = hread h q n" by (rule hread_cong)
qed

end
