(* ===== verification/Elf.thy ===== *)
theory Elf
  imports HostMem
begin

text \<open>
  The address space of the guest (\<^verbatim>\<open>src/elf.c\<close>, \<^verbatim>\<open>include/elf.h\<close>): the load
  regions of an \<open>elf_context\<close>, translation of guest addresses to host pointers and back, and
  lookup of a region by its tag.  Theory ElfInit models how the context is built from a file.
\<close>

section \<open>Regions and contexts\<close>

text \<open>
  \<open>load_regions\<close> is the array together with its length \<open>nr_regions\<close>: \<open>elf_init\<close> reallocates the
  array to exactly that length.
\<close>

record elf_load_region =
  vma_base :: u32
  mem_base :: hptr
  sz_alloc :: u32
  sz_reserved :: u32
  tag :: "string option"

record elf_context =
  load_regions :: "elf_load_region list"
  entry_point :: u32
  bp :: u32
  sp :: u32

text \<open>What \<^verbatim>\<open>calloc\<close> leaves in a region and in a context.\<close>

definition region_zero :: elf_load_region where
  "region_zero = \<lparr>vma_base = 0, mem_base = 0, sz_alloc = 0, sz_reserved = 0, tag = None\<rparr>"

definition context_zero :: elf_context where
  "context_zero = \<lparr>load_regions = [], entry_point = 0, bp = 0, sp = 0\<rparr>"

definition REGION_TAG_STACK :: string where
  "REGION_TAG_STACK = ''STACK''"

definition REGION_TAG_HEAP :: string where
  "REGION_TAG_HEAP = ''HEAP''"

definition nr_regions :: "elf_context \<Rightarrow> nat" where
  "nr_regions ctx = length (load_regions ctx)"

section \<open>Translation\<close>

text \<open>The test of the loop of \<open>elf_vma_to_mem\<close>; the sum of base and size wraps at 32 bits.\<close>

definition vma_outside :: "elf_load_region \<Rightarrow> u32 \<Rightarrow> bool" where
  "vma_outside r ptr \<longleftrightarrow> vma_base r > ptr \<or> ptr \<ge> vma_base r + sz_reserved r"

fun vma_to_mem_loop :: "elf_load_region list \<Rightarrow> u32 \<Rightarrow> hptr" where
  "vma_to_mem_loop [] ptr = 0"
| "vma_to_mem_loop (r # rs) ptr =
     (if vma_outside r ptr then vma_to_mem_loop rs ptr
      else mem_base r + unat (ptr - vma_base r))"

definition elf_vma_to_mem :: "elf_context \<Rightarrow> u32 \<Rightarrow> hptr" where
  "elf_vma_to_mem ctx ptr = vma_to_mem_loop (load_regions ctx) ptr"

fun mem_to_vma_loop :: "elf_load_region list \<Rightarrow> hptr \<Rightarrow> u32" where
  "mem_to_vma_loop [] ptr = 0"
| "mem_to_vma_loop (r # rs) ptr =
     (if mem_base r > ptr \<or> ptr \<ge> mem_base r + unat (sz_reserved r) then mem_to_vma_loop rs ptr
      else vma_base r + of_nat (ptr - mem_base r))"

definition elf_mem_to_vma :: "elf_context \<Rightarrow> hptr \<Rightarrow> u32" where
  "elf_mem_to_vma ctx ptr = mem_to_vma_loop (load_regions ctx) ptr"

section \<open>Regions by tag\<close>

text \<open>The lookup returns a pointer into the array; the model returns the index, or \<open>None\<close> for NULL.\<close>

fun region_by_tag_loop :: "elf_load_region list \<Rightarrow> nat \<Rightarrow> string \<Rightarrow> nat option" where
  "region_by_tag_loop [] i t = None"
| "region_by_tag_loop (r # rs) i t =
     (if tag r = None \<or> tag r \<noteq> Some t then region_by_tag_loop rs (Suc i) t else Some i)"

definition elf_get_region_by_tag :: "elf_context \<Rightarrow> string \<Rightarrow> nat option" where
  "elf_get_region_by_tag ctx t = region_by_tag_loop (load_regions ctx) 0 t"

definition elf_get_heap_region :: "elf_context \<Rightarrow> nat option" where
  "elf_get_heap_region ctx = elf_get_region_by_tag ctx REGION_TAG_HEAP"

definition elf_get_stack_region :: "elf_context \<Rightarrow> nat option" where
  "elf_get_stack_region ctx = elf_get_region_by_tag ctx REGION_TAG_STACK"

lemma region_by_tag_loop_Some:
  "region_by_tag_loop rs k t = Some j \<longleftrightarrow>
     (\<exists>i<length rs. j = k + i \<and> tag (rs ! i) = Some t \<and> (\<forall>m<i. tag (rs ! m) \<noteq> Some t))"
proof (induction rs arbitrary: k)
  case Nil
  then show ?case by simp
next
  case (Cons r rs)
  show ?case
  proof (cases "tag r = Some t")
    case True
    then show ?thesis by (auto intro!: exI [of _ 0]) (metis nth_Cons_0 gr0I)
  next
    case False
    then have "region_by_tag_loop (r # rs) k t = region_by_tag_loop rs (Suc k) t" by simp
    with False Cons.IH [of "Suc k"] show ?thesis
      by (auto simp: Ex_less_Suc2 All_less_Suc2)
  qed
qed

lemma elf_get_region_by_tag_Some:
  "elf_get_region_by_tag ctx t = Some i \<longleftrightarrow>
     i < nr_regions ctx \<and> tag (load_regions ctx ! i) = Some t
     \<and> (\<forall>j<i. tag (load_regions ctx ! j) \<noteq> Some t)"
  by (auto simp: elf_get_region_by_tag_def region_by_tag_loop_Some nr_regions_def)

section \<open>Well-formed regions\<close>

text \<open>
  \<open>region_fits\<close>: the guest range does not wrap, so its last address is addressable.
  \<open>in_region r a n\<close>: the \<open>n\<close> bytes from guest address \<open>a\<close> on lie in the region.
  \<open>blocks_apart\<close>: the host blocks of two regions share no byte.
  \<open>vmas_apart\<close>: their guest ranges share no address.
\<close>

definition region_fits :: "elf_load_region \<Rightarrow> bool" where
  "region_fits r \<longleftrightarrow> unat (vma_base r) + unat (sz_reserved r) < 2 ^ 32"

definition in_region :: "elf_load_region \<Rightarrow> u32 \<Rightarrow> nat \<Rightarrow> bool" where
  "in_region r a n \<longleftrightarrow>
     unat (vma_base r) \<le> unat a \<and> unat a + n \<le> unat (vma_base r) + unat (sz_reserved r)"

definition blocks_apart :: "elf_load_region \<Rightarrow> elf_load_region \<Rightarrow> bool" where
  "blocks_apart r s \<longleftrightarrow> sz_reserved r = 0 \<or> sz_reserved s = 0 \<or>
     ranges_apart (mem_base r) (unat (sz_reserved r)) (mem_base s) (unat (sz_reserved s))"

definition vmas_apart :: "elf_load_region \<Rightarrow> elf_load_region \<Rightarrow> bool" where
  "vmas_apart r s \<longleftrightarrow> sz_reserved r = 0 \<or> sz_reserved s = 0 \<or>
     ranges_apart (unat (vma_base r)) (unat (sz_reserved r)) (unat (vma_base s)) (unat (sz_reserved s))"

text \<open>The host bytes of a region are allocated, and allocated apart from every other region's.\<close>

definition region_backed :: "hheap \<Rightarrow> elf_load_region \<Rightarrow> bool" where
  "region_backed h r \<longleftrightarrow>
     sz_reserved r = 0 \<or> 0 < mem_base r \<and> (\<forall>i<unat (sz_reserved r). live h (mem_base r + i))"

definition regions_backed :: "hheap \<Rightarrow> elf_load_region list \<Rightarrow> bool" where
  "regions_backed h rs \<longleftrightarrow> list_all (region_backed h) rs \<and> sorted_wrt blocks_apart rs"

definition guest_layout :: "elf_load_region list \<Rightarrow> bool" where
  "guest_layout rs \<longleftrightarrow> list_all region_fits rs \<and> sorted_wrt vmas_apart rs"

lemma regions_backed_Cons:
  "regions_backed h (r # rs) \<longleftrightarrow>
     region_backed h r \<and> list_all (blocks_apart r) rs \<and> regions_backed h rs"
  by (auto simp: regions_backed_def list_all_iff)

lemma guest_layout_Cons:
  "guest_layout (r # rs) \<longleftrightarrow> region_fits r \<and> list_all (vmas_apart r) rs \<and> guest_layout rs"
  by (auto simp: guest_layout_def list_all_iff)

lemma regions_backed_live:
  "(\<And>a. live h' a = live h a) \<Longrightarrow> regions_backed h' rs = regions_backed h rs"
  by (simp add: regions_backed_def region_backed_def list_all_iff)

lemma regions_backed_set:
  "regions_backed h rs \<Longrightarrow> r \<in> set rs \<Longrightarrow> region_backed h r"
  by (simp add: regions_backed_def list_all_iff)

lemma regions_backed_calloc:
  assumes "heap_ok h" and "calloc n h = Some (p, h')" and "regions_backed h rs"
  shows "regions_backed h' rs"
  using assms(3) heap.alloc_mono [OF assms(1,2)]
  by (auto simp: regions_backed_def region_backed_def list_all_iff)

lemma sub_unat: "b \<le> (a :: u32) \<Longrightarrow> unat (a - b) = unat a - unat b"
  by (simp add: unat_sub)

lemma vma_outside_iff:
  assumes "region_fits r"
  shows "vma_outside r a \<longleftrightarrow> \<not> in_region r a 1"
proof -
  have "unat (vma_base r + sz_reserved r) = unat (vma_base r) + unat (sz_reserved r)"
    using assms by (simp add: region_fits_def unat_word_ariths)
  then show ?thesis
    by (auto simp: vma_outside_def in_region_def word_less_nat_alt word_le_nat_alt)
qed

text \<open>The address the loop finds is that of the first region that holds the guest address.\<close>

lemma vma_to_mem_loop_hit:
  "vma_to_mem_loop rs a \<noteq> 0 \<Longrightarrow> list_all region_fits rs \<Longrightarrow>
     \<exists>r\<in>set rs. in_region r a 1 \<and> vma_to_mem_loop rs a = mem_base r + (unat a - unat (vma_base r))"
proof (induction rs)
  case (Cons r rs)
  show ?case
  proof (cases "vma_outside r a")
    case False
    with Cons.prems have "in_region r a 1" by (simp add: vma_outside_iff)
    moreover from this have "unat (a - vma_base r) = unat a - unat (vma_base r)"
      by (intro sub_unat) (simp add: in_region_def word_le_nat_alt)
    ultimately show ?thesis using False by auto
  qed (use Cons in auto)
qed simp

text \<open>In a layout without overlaps every address of a region translates through that region.\<close>

lemma vma_to_mem_loop_in_region:
  assumes "guest_layout rs" and "r \<in> set rs" and "in_region r a 1"
  shows "vma_to_mem_loop rs a = mem_base r + (unat a - unat (vma_base r))"
  using assms
proof (induction rs)
  case (Cons s rs)
  have fits: "region_fits s" using Cons.prems by (simp add: guest_layout_Cons)
  show ?case
  proof (cases "r = s")
    case True
    have "unat (a - vma_base r) = unat a - unat (vma_base r)"
      using Cons.prems by (intro sub_unat) (simp add: in_region_def word_le_nat_alt)
    with True fits Cons.prems show ?thesis by (simp add: vma_outside_iff)
  next
    case False
    then have "r \<in> set rs" and "vmas_apart s r"
      using Cons.prems by (auto simp: guest_layout_Cons list_all_iff)
    then have "vma_outside s a"
      using fits Cons.prems(3)
      by (auto simp: vma_outside_iff vmas_apart_def ranges_apart_def in_region_def)
    with Cons \<open>r \<in> set rs\<close> show ?thesis by (simp add: guest_layout_Cons)
  qed
qed simp

lemma vma_to_mem_loop_miss:
  assumes "list_all region_fits rs" and "\<forall>r\<in>set rs. \<not> in_region r a 1"
  shows "vma_to_mem_loop rs a = 0"
  using assms by (induction rs) (auto simp: vma_outside_iff)

section \<open>Consecutive bytes and separate accesses\<close>

lemma in_region_offset:
  assumes "region_fits r" and "in_region r a n" and "i < n"
  shows "unat (a + of_nat i) = unat a + i" and "in_region r (a + of_nat i) 1"
proof -
  have lt: "unat a + i < 2 ^ 32"
    using assms by (auto simp: region_fits_def in_region_def)
  then show "unat (a + of_nat i) = unat a + i"
    by (simp add: unat_word_ariths unat_of_nat)
  then show "in_region r (a + of_nat i) 1"
    using assms by (auto simp: in_region_def)
qed

lemma guest_layout_fits: "guest_layout rs \<Longrightarrow> r \<in> set rs \<Longrightarrow> region_fits r"
  by (auto simp: guest_layout_def list_all_iff)

lemma vma_to_mem_loop_span:
  assumes "guest_layout rs" and "r \<in> set rs" and "in_region r a n" and "i < n"
  shows "vma_to_mem_loop rs (a + of_nat i) = vma_to_mem_loop rs a + i"
proof -
  note off = in_region_offset [OF guest_layout_fits [OF assms(1,2)] assms(3,4)]
  have "in_region r a 1" using assms(3,4) by (auto simp: in_region_def)
  then have base: "vma_to_mem_loop rs a = mem_base r + (unat a - unat (vma_base r))"
    by (rule vma_to_mem_loop_in_region [OF assms(1,2)])
  have "vma_to_mem_loop rs (a + of_nat i) = mem_base r + (unat a + i - unat (vma_base r))"
    using vma_to_mem_loop_in_region [OF assms(1,2) off(2)] off(1) by simp
  moreover have "unat (vma_base r) \<le> unat a" using assms(3) by (simp add: in_region_def)
  ultimately show ?thesis by (simp add: base)
qed

lemma sorted_wrt_two:
  assumes "sorted_wrt P xs" and "x \<in> set xs" and "y \<in> set xs"
  shows "x = y \<or> P x y \<or> P y x"
proof -
  obtain i j where "i < length xs" "j < length xs" "x = xs ! i" "y = xs ! j"
    using assms(2,3) by (metis in_set_conv_nth)
  then show ?thesis
    using sorted_wrt_nth_less [OF assms(1)] by (metis linorder_neqE_nat)
qed

lemma translated_apart:
  assumes layout: "guest_layout rs" and backed: "regions_backed h rs"
    and r: "r \<in> set rs" "in_region r a m" and s: "s \<in> set rs" "in_region s b n"
    and apart: "ranges_apart (unat a) m (unat b) n" and pos: "0 < m" "0 < n"
  shows "ranges_apart (vma_to_mem_loop rs a) m (vma_to_mem_loop rs b) n"
proof -
  have a: "vma_to_mem_loop rs a = mem_base r + (unat a - unat (vma_base r))"
    using r pos by (intro vma_to_mem_loop_in_region [OF layout]) (auto simp: in_region_def)
  have b: "vma_to_mem_loop rs b = mem_base s + (unat b - unat (vma_base s))"
    using s pos by (intro vma_to_mem_loop_in_region [OF layout]) (auto simp: in_region_def)
  have "r = s \<or> blocks_apart r s \<or> blocks_apart s r"
    using backed r(1) s(1) by (intro sorted_wrt_two) (auto simp: regions_backed_def)
  then show ?thesis
  proof
    assume "r = s"
    then show ?thesis
      using apart r(2) s(2) by (auto simp: ranges_apart_def in_region_def a b)
  next
    assume "blocks_apart r s \<or> blocks_apart s r"
    then show ?thesis
      using r(2) s(2) pos by (auto simp: ranges_apart_def blocks_apart_def in_region_def a b)
  qed
qed

text \<open>The inverse translation finds the region a host pointer came from.\<close>

lemma mem_to_vma_loop_in_block:
  assumes "regions_backed h rs" and "r \<in> set rs"
    and "mem_base r \<le> p" and "p < mem_base r + unat (sz_reserved r)"
  shows "mem_to_vma_loop rs p = vma_base r + of_nat (p - mem_base r)"
  using assms
proof (induction rs)
  case (Cons s rs)
  show ?case
  proof (cases "r = s")
    case True
    then show ?thesis using Cons.prems by simp
  next
    case False
    then have "r \<in> set rs" and "blocks_apart s r"
      using Cons.prems by (auto simp: regions_backed_Cons list_all_iff)
    then have "mem_base s > p \<or> p \<ge> mem_base s + unat (sz_reserved s)"
      using Cons.prems(3,4) by (auto simp: blocks_apart_def ranges_apart_def)
    then have "mem_to_vma_loop (s # rs) p = mem_to_vma_loop rs p" by auto
    with Cons \<open>r \<in> set rs\<close> show ?thesis by (simp add: regions_backed_Cons)
  qed
qed simp

lemma mem_to_vma_vma_to_mem:
  assumes backed: "regions_backed h (load_regions ctx)"
    and fits: "list_all region_fits (load_regions ctx)"
    and hit: "elf_vma_to_mem ctx a \<noteq> 0"
  shows "elf_mem_to_vma ctx (elf_vma_to_mem ctx a) = a"
proof -
  obtain r where r: "r \<in> set (load_regions ctx)" "in_region r a 1"
    and p: "elf_vma_to_mem ctx a = mem_base r + (unat a - unat (vma_base r))"
    using vma_to_mem_loop_hit hit fits unfolding elf_vma_to_mem_def by blast
  have le: "vma_base r \<le> a" using r(2) by (simp add: in_region_def word_le_nat_alt)
  have "unat a - unat (vma_base r) < unat (sz_reserved r)"
    using r(2) by (auto simp: in_region_def)
  then have "elf_mem_to_vma ctx (elf_vma_to_mem ctx a) = vma_base r + of_nat (unat a - unat (vma_base r))"
    unfolding elf_mem_to_vma_def p using mem_to_vma_loop_in_block [OF backed r(1)] by simp
  also have "of_nat (unat a - unat (vma_base r)) = a - vma_base r"
    by (simp flip: sub_unat [OF le])
  finally show ?thesis by simp
qed

text \<open>
  C23: translating a guest address to a host pointer and back gives the address again, wherever the
  first translation succeeds.
\<close>
theorem translation_roundtrip:
  assumes "regions_backed h (load_regions ctx)" and "list_all region_fits (load_regions ctx)"
    and "elf_vma_to_mem ctx a \<noteq> 0"
  shows "elf_mem_to_vma ctx (elf_vma_to_mem ctx a) = a"
  using assms by (rule mem_to_vma_vma_to_mem)

theorem translation_roundtrip_witness:
  "elf_mem_to_vma (context_zero\<lparr>load_regions := [region_zero\<lparr>vma_base := 0x1000, mem_base := 64, sz_reserved := 4\<rparr>]\<rparr>)
     (elf_vma_to_mem (context_zero\<lparr>load_regions := [region_zero\<lparr>vma_base := 0x1000, mem_base := 64, sz_reserved := 4\<rparr>]\<rparr>) 0x1002)
   = 0x1002"
  by (rule translation_roundtrip [where h = "(heap_init 0)\<lparr>cells := \<lambda>_. Some 0\<rparr>"])
    (simp_all add: regions_backed_def region_backed_def region_fits_def region_zero_def live_def
      elf_vma_to_mem_def vma_outside_def)

end
