(* ===== verification/Insn.thy ===== *)
theory Insn
  imports Prelude
begin

text \<open>
  Instructions as \<^verbatim>\<open>include/platform.h\<close>, \<^verbatim>\<open>include/ext/*.h\<close>,
  \<^verbatim>\<open>include/insn/formats.h\<close> and \<^verbatim>\<open>include/asm/context.h\<close> declare them: the
  instruction enumeration, the decoded instruction \<open>insn_t\<close>, the views of the bit-field union
  \<^verbatim>\<open>union insn_base\<close>, opcode classes and the argument formats of the disassembler.
  The build is the one \<^verbatim>\<open>include/feature.h\<close> configures, with every extension on.
\<close>

section \<open>Instruction names\<close>

text \<open>
  The extensions contribute their enumerators through macros; the model keeps one datatype per
  macro, and \<open>e_insn\<close> injects each.
\<close>

datatype rv32m_insn =
    RV_INSN__MUL | RV_INSN__MULH | RV_INSN__MULHSU | RV_INSN__MULHU | RV_INSN__DIV
  | RV_INSN__DIVU | RV_INSN__REM | RV_INSN__REMU

datatype rv32fd_insn =
    RV_INSN__FLx | RV_INSN__FSx | RV_INSN__FMADDx | RV_INSN__FMSUBx | RV_INSN__FNMSUBx
  | RV_INSN__FNMADDx | RV_INSN__FADDx | RV_INSN__FSUBx | RV_INSN__FMULx | RV_INSN__FDIVx
  | RV_INSN__FSQRTx | RV_INSN__FSGNJx | RV_INSN__FSGNJNx | RV_INSN__FSGNJXx | RV_INSN__FMINx
  | RV_INSN__FMAXx | RV_INSN__FEQx | RV_INSN__FLTx | RV_INSN__FCLASSx | RV_INSN__FLEx
  | RV_INSN__FCVT_x_W | RV_INSN__FCVT_x_WU | RV_INSN__FCVT_W_x | RV_INSN__FCVT_WU_x
  | RV_INSN__FMV_X_W | RV_INSN__FMV_W_X | RV_INSN__FCVT_S_D | RV_INSN__FCVT_D_S

datatype rv32c_insn =
    RV_INSN__C_NOP | RV_INSN__C_ADDI | RV_INSN__C_JAL | RV_INSN__C_LI | RV_INSN__C_ADDI16SP
  | RV_INSN__C_LUI | RV_INSN__C_SRLI | RV_INSN__C_SRAI | RV_INSN__C_ANDI | RV_INSN__C_SUB
  | RV_INSN__C_XOR | RV_INSN__C_OR | RV_INSN__C_AND | RV_INSN__C_J | RV_INSN__C_BEQZ
  | RV_INSN__C_BNEZ | RV_INSN__C_ADDI4SPN | RV_INSN__C_FLD | RV_INSN__C_LW | RV_INSN__C_FLW
  | RV_INSN__C_FSD | RV_INSN__C_SW | RV_INSN__C_FSW | RV_INSN__C_SLLI | RV_INSN__C_SLLI64
  | RV_INSN__C_FLDSP | RV_INSN__C_LWSP | RV_INSN__C_FLWSP | RV_INSN__C_JR | RV_INSN__C_MV
  | RV_INSN__C_EBREAK | RV_INSN__C_JALR | RV_INSN__C_ADD | RV_INSN__C_FSDSP | RV_INSN__C_SWSP
  | RV_INSN__C_FSWSP

datatype e_insn =
    RV_INSN__INVALID | RV_INSN__LUI | RV_INSN__AUIPC | RV_INSN__JAL | RV_INSN__JALR
  | RV_INSN__BEQ | RV_INSN__BNE | RV_INSN__BLT | RV_INSN__BGE | RV_INSN__BLTU | RV_INSN__BGEU
  | RV_INSN__LB | RV_INSN__LH | RV_INSN__LW | RV_INSN__LBU | RV_INSN__LHU | RV_INSN__SB
  | RV_INSN__SH | RV_INSN__SW | RV_INSN__ADDI | RV_INSN__SLTI | RV_INSN__SLTIU | RV_INSN__XORI
  | RV_INSN__ORI | RV_INSN__ANDI | RV_INSN__SLLI | RV_INSN__SRLI | RV_INSN__SRAI | RV_INSN__ADD
  | RV_INSN__SUB | RV_INSN__SLL | RV_INSN__SLT | RV_INSN__SLTU | RV_INSN__XOR | RV_INSN__SRL
  | RV_INSN__SRA | RV_INSN__OR | RV_INSN__AND | RV_INSN__FENCE | RV_INSN__FENCE_I
  | RV_INSN__ECALL | RV_INSN__EBREAK | RV_INSN__CSRRW | RV_INSN__CSRRS | RV_INSN__CSRRC
  | RV_INSN__CSRRWI | RV_INSN__CSRRSI | RV_INSN__CSRRCI | EXT_M rv32m_insn | EXT_FD rv32fd_insn
  | EXT_C rv32c_insn

datatype e_insn_argspec =
    RV_ARGSPEC__NONE | RV_ARGSPEC__R32_R32_R32 | RV_ARGSPEC__R32_R32_i12
  | RV_ARGSPEC__R32_R32_u12 | RV_ARGSPEC__R32_R32_u5 | RV_ARGSPEC__R32_m8_offs
  | RV_ARGSPEC__R32_m8u_offs | RV_ARGSPEC__R32_m16_offs | RV_ARGSPEC__R32_m16u_offs
  | RV_ARGSPEC__R32_m32_offs | RV_ARGSPEC__m8_offs_R32 | RV_ARGSPEC__m16_offs_R32
  | RV_ARGSPEC__m32_offs_R32 | RV_ARGSPEC__R32_R32_pcrel | RV_ARGSPEC__R32_R32_pcrelu
  | RV_ARGSPEC__R32_pcrel | RV_ARGSPEC__R32_u20 | RV_ARGSPEC__R32_csr_R32
  | RV_ARGSPEC__R32_csr_u5 | RV_ARGSPEC__Fx_Fx_Fx | RV_ARGSPEC__Fx_Fx_Fx_Fx | RV_ARGSPEC__Fx_Fx
  | RV_ARGSPEC__Fx_mX_offs | RV_ARGSPEC__mX_offs_Fx | RV_ARGSPEC__R32_Fx_Fx | RV_ARGSPEC__R32_Fx
  | RV_ARGSPEC__Fx_R32 | RV_ARGSPEC__Fx_Fx_cvt

text \<open>
  The first enumerator is 0, which is what C's zero-initialisation of the rest of a struct
  (\<^verbatim>\<open>{ .insn = { ... } }\<close>) and \<^verbatim>\<open>calloc\<close> produce.
\<close>

instantiation e_insn :: zero
begin

definition zero_e_insn :: e_insn where
  "zero_e_insn = RV_INSN__INVALID"

instance ..

end

instantiation e_insn_argspec :: zero
begin

definition zero_e_insn_argspec :: e_insn_argspec where
  "zero_e_insn_argspec = RV_ARGSPEC__NONE"

instance ..

end

section \<open>The decoded instruction\<close>

record insn_t =
  insn_ty :: e_insn
  rd :: u8
  rs1 :: u8
  rs2 :: u8
  rs3 :: u8
  funct :: u16
  imm :: u32

definition insn_zero :: insn_t where
  "insn_zero = \<lparr>insn_ty = 0, rd = 0, rs1 = 0, rs2 = 0, rs3 = 0, funct = 0, imm = 0\<rparr>"

section \<open>The bit-field union\<close>

text \<open>
  \<^verbatim>\<open>union insn_base\<close> on the little-endian System V ABI: fields are allocated from the least
  significant bit.  The views \<open>r\<close>, \<open>x\<close>, \<open>r4\<close>, \<open>i\<close>, \<open>s\<close>, \<open>b\<close>, \<open>u\<close>, \<open>j\<close> share opcode and register
  positions, so a shared field has one definition.  The views of compressed instructions are
  declared in the source and read by no code.
\<close>

definition f_opcode :: "u32 \<Rightarrow> u32" where
  "f_opcode w = bits 0 7 w"

definition f_rd :: "u32 \<Rightarrow> u32" where
  "f_rd w = bits 7 5 w"

definition f_funct3 :: "u32 \<Rightarrow> u32" where
  "f_funct3 w = bits 12 3 w"

definition f_rs1 :: "u32 \<Rightarrow> u32" where
  "f_rs1 w = bits 15 5 w"

definition f_rs2 :: "u32 \<Rightarrow> u32" where
  "f_rs2 w = bits 20 5 w"

definition f_funct7 :: "u32 \<Rightarrow> u32" where
  "f_funct7 w = bits 25 7 w"

definition f_rs3 :: "u32 \<Rightarrow> u32" where
  "f_rs3 w = bits 27 5 w"

definition i_imm__11_0 :: "u32 \<Rightarrow> u32" where
  "i_imm__11_0 w = bits 20 12 w"

definition s_imm__4_0 :: "u32 \<Rightarrow> u32" where
  "s_imm__4_0 w = bits 7 5 w"

definition s_imm__11_5 :: "u32 \<Rightarrow> u32" where
  "s_imm__11_5 w = bits 25 7 w"

definition b_imm__11 :: "u32 \<Rightarrow> u32" where
  "b_imm__11 w = bits 7 1 w"

definition b_imm__4_1 :: "u32 \<Rightarrow> u32" where
  "b_imm__4_1 w = bits 8 4 w"

definition b_imm__10_5 :: "u32 \<Rightarrow> u32" where
  "b_imm__10_5 w = bits 25 6 w"

definition b_imm__12 :: "u32 \<Rightarrow> u32" where
  "b_imm__12 w = bits 31 1 w"

definition u_imm__31_12 :: "u32 \<Rightarrow> u32" where
  "u_imm__31_12 w = bits 12 20 w"

definition j_imm__19_12 :: "u32 \<Rightarrow> u32" where
  "j_imm__19_12 w = bits 12 8 w"

definition j_imm__11 :: "u32 \<Rightarrow> u32" where
  "j_imm__11 w = bits 20 1 w"

definition j_imm__10_1 :: "u32 \<Rightarrow> u32" where
  "j_imm__10_1 w = bits 21 10 w"

definition j_imm__20 :: "u32 \<Rightarrow> u32" where
  "j_imm__20 w = bits 31 1 w"

lemmas field_defs = f_opcode_def f_rd_def f_funct3_def f_rs1_def f_rs2_def f_funct7_def f_rs3_def
  i_imm__11_0_def s_imm__4_0_def s_imm__11_5_def b_imm__11_def b_imm__4_1_def b_imm__10_5_def
  b_imm__12_def u_imm__31_12_def j_imm__19_12_def j_imm__11_def j_imm__10_1_def j_imm__20_def

text \<open>\<^verbatim>\<open>SIGNEXT(word, sign_bit)\<close>\<close>

definition SIGNEXT :: "u32 \<Rightarrow> u32 \<Rightarrow> u32" where
  "SIGNEXT word sign_bit = (if word AND sign_bit \<noteq> 0 then word OR NOT (sign_bit - 1) else word)"

section \<open>Opcode classes\<close>

definition OPCOND__I :: "u32 \<Rightarrow> bool" where
  "OPCOND__I n \<longleftrightarrow> n = 0b1100111 \<or> n = 0b0000011 \<or> n = 0b0010011 \<or> n = 0b0001111
     \<or> n = 0b1110011 \<or> n = 0b0000111"

definition OPCOND__R :: "u32 \<Rightarrow> bool" where
  "OPCOND__R n \<longleftrightarrow> n = 0b0110011 \<or> n = 0b1010011"

definition OPCOND__S :: "u32 \<Rightarrow> bool" where
  "OPCOND__S n \<longleftrightarrow> n = 0b0100011 \<or> n = 0b0100111"

definition OPCOND__U :: "u32 \<Rightarrow> bool" where
  "OPCOND__U n \<longleftrightarrow> n = 0b0010111 \<or> n = 0b0110111"

definition OPCOND__J :: "u32 \<Rightarrow> bool" where
  "OPCOND__J n \<longleftrightarrow> n = 0b1101111"

definition OPCOND__B :: "u32 \<Rightarrow> bool" where
  "OPCOND__B n \<longleftrightarrow> n = 0b1100011"

definition OPCOND__R4 :: "u32 \<Rightarrow> bool" where
  "OPCOND__R4 n \<longleftrightarrow> n = 0b1000011 \<or> n = 0b1000111 \<or> n = 0b1001011 \<or> n = 0b1001111"

lemmas opcond_defs = OPCOND__I_def OPCOND__R_def OPCOND__S_def OPCOND__U_def OPCOND__J_def
  OPCOND__B_def OPCOND__R4_def

text \<open>Every register selector a decoder can produce is a 5-bit field.\<close>

definition regs_in_range :: "insn_t \<Rightarrow> bool" where
  "regs_in_range i \<longleftrightarrow> unat (rd i) < 32 \<and> unat (rs1 i) < 32 \<and> unat (rs2 i) < 32 \<and> unat (rs3 i) < 32"

lemma unat_ucast_bits5:
  "unat (ucast (bits lo 5 w :: u32) :: u8) < 32"
proof -
  have "unat (bits lo 5 w) < 32" using unat_bits_less [of lo 5 w] by simp
  moreover have "unat (ucast (bits lo 5 w) :: u8) \<le> unat (bits lo 5 w)"
    by (simp add: unsigned_ucast_eq)
  ultimately show ?thesis by linarith
qed

end
