(* ===== verification/Machine.thy ===== *)
theory Machine
  imports Elf Insn
begin

text \<open>
  The emulator's state (\<^verbatim>\<open>struct rvstate\<close> of \<^verbatim>\<open>include/emu.h\<close>), its
  creation and accessors (\<^verbatim>\<open>src/emu.c\<close>), the diagnostics of
  \<^verbatim>\<open>src/traceback.c\<close> and the typed loads and stores the instructions perform through
  \<^verbatim>\<open>rvmem_at\<close>.
\<close>

section \<open>Breakpoint records\<close>

text \<open>\<^verbatim>\<open>include/bkpt.h\<close>; the union of \<open>val\<close> and \<open>sval\<close> is one 32-bit word.\<close>

datatype rvbkpt_comparator = BKPTCOMP_NONE | BKPTCOMP_GT | BKPTCOMP_LT | BKPTCOMP_EQ

record rvbkpt_regcond =
  rc_val :: u32
  rc_comp :: rvbkpt_comparator
  rc_sign :: bool

record rvbkpt_insncond =
  insn_mask :: insn_t
  insn_comp :: insn_t

record rvbkpt_ev =
  pc_cond :: rvbkpt_regcond
  insn_cond :: rvbkpt_insncond
  one_shot :: bool
  active :: bool
  triggered :: bool

definition MAX_BKPT :: nat where
  "MAX_BKPT = 16"

definition bkpt_zero :: rvbkpt_ev where
  "bkpt_zero = \<lparr>pc_cond = \<lparr>rc_val = 0, rc_comp = BKPTCOMP_NONE, rc_sign = False\<rparr>,
     insn_cond = \<lparr>insn_mask = insn_zero, insn_comp = insn_zero\<rparr>,
     one_shot = False, active = False, triggered = False\<rparr>"

section \<open>What the emulator does to the outside\<close>

text \<open>
  Output is a trace, oldest first: a line on standard error, a disassembly line (printed by a
  \<^verbatim>\<open>-DVERBOSE\<close> build, in which every decoded instruction is printed; other builds print
  none and behave the same otherwise), the \<^verbatim>\<open>read\<close> notice, the host
  \<^verbatim>\<open>write\<close>, the exit notice, and other text on standard output.
\<close>

datatype event =
    Stderr string
  | Disasm string
  | ReadNotice u32 hptr u32
  | HostWrite u32 "u8 list"
  | ExitNotice u32
  | Stdout string

text \<open>
  What the emulator asks of its host and cannot know, as functions of what happened so far:
  the result of \<^verbatim>\<open>write\<close> and of \<^verbatim>\<open>fstat\<close> (with the bytes of
  \<^verbatim>\<open>struct stat\<close> it stores on success), and the choices IEEE 754 and C leave open: the
  NaN a floating-point operation returns, and which of two zeros
  \<^verbatim>\<open>fmin\<close> and \<^verbatim>\<open>fmax\<close> prefer.
\<close>

record host_env =
  he_write :: "event list \<Rightarrow> u32 \<Rightarrow> u8 list \<Rightarrow> u32"
  he_fstat :: "event list \<Rightarrow> u32 \<Rightarrow> u32 \<times> u8 list"
  he_nan32 :: "u32 list \<Rightarrow> u32"
  he_nan64 :: "u64 list \<Rightarrow> u64"
  he_first_zero :: bool

section \<open>State\<close>

text \<open>
  \<open>disasm\<close> is \<^verbatim>\<open>gen_ctx.disasm\<close>, the output path or \<open>None\<close> for NULL.  The last two
  fields are not in the C struct: the host heap and the output trace of the process.
\<close>

record rvstate =
  disasm :: "string option"
  fregs :: "u64 list"
  regs :: "u32 list"
  bkpt_ev_arr :: "rvbkpt_ev list"
  mem :: elf_context
  pc :: u32
  suspended :: bool
  host :: hheap
  trace :: "event list"

definition RISCV_REGCOUNT :: nat where
  "RISCV_REGCOUNT = 32"

text \<open>\<^verbatim>\<open>rvstate_init\<close> zero-allocates the struct (1176 bytes) and sets three fields.\<close>

definition rvstate_init :: "elf_context \<Rightarrow> hheap \<Rightarrow> rvstate res" where
  "rvstate_init ctx h =
     rbind (halloc ''failed to allocate emulation context'' 1176 h) (\<lambda>(_, h').
       Inr \<lparr>disasm = None, fregs = replicate 32 0, regs = (replicate RISCV_REGCOUNT 0)[2 := sp ctx],
         bkpt_ev_arr = replicate MAX_BKPT bkpt_zero, mem = ctx, pc = entry_point ctx,
         suspended = False, host = h', trace = []\<rparr>)"

text \<open>The state before any program is loaded, for examples.\<close>

definition blank_state :: rvstate where
  "blank_state = \<lparr>disasm = None, fregs = replicate 32 0, regs = replicate 32 0,
     bkpt_ev_arr = replicate MAX_BKPT bkpt_zero, mem = context_zero, pc = 0, suspended = False,
     host = heap_init 0, trace = []\<rparr>"

section \<open>Diagnostics\<close>

definition emit :: "event \<Rightarrow> rvstate \<Rightarrow> rvstate" where
  "emit e st = st\<lparr>trace := trace st @ [e]\<rparr>"

definition rvtrbk_error :: "string \<Rightarrow> rvstate \<Rightarrow> rvstate" where
  "rvtrbk_error msg st = emit (Stderr msg) st"

definition rvtrbk_diagn :: "string \<Rightarrow> rvstate \<Rightarrow> rvstate" where
  "rvtrbk_diagn msg st = rvtrbk_error msg (st\<lparr>suspended := True\<rparr>)"

section \<open>Registers\<close>

definition rvmem_reg :: "rvstate \<Rightarrow> u8 \<Rightarrow> u32" where
  "rvmem_reg st sel = regs st ! unat sel"

text \<open>An assignment through \<^verbatim>\<open>*rvmem_regp (state, sel)\<close>, and the same for float registers.\<close>

definition set_reg :: "u8 \<Rightarrow> u32 \<Rightarrow> rvstate \<Rightarrow> rvstate" where
  "set_reg sel v st = st\<lparr>regs := (regs st)[unat sel := v]\<rparr>"

definition rvmem_freg :: "rvstate \<Rightarrow> u8 \<Rightarrow> u64" where
  "rvmem_freg st sel = fregs st ! unat sel"

definition set_freg :: "u8 \<Rightarrow> u64 \<Rightarrow> rvstate \<Rightarrow> rvstate" where
  "set_freg sel v st = st\<lparr>fregs := (fregs st)[unat sel := v]\<rparr>"

section \<open>Memory\<close>

definition rvmem_at :: "rvstate \<Rightarrow> u32 \<Rightarrow> hptr res" where
  "rvmem_at st addr =
     (let p = elf_vma_to_mem (mem st) addr
      in if p = 0 then Inl (Fatal ''tried to access out of bounds'') else Inr p)"

definition rvmem_at_pc :: "rvstate \<Rightarrow> u32 \<Rightarrow> hptr res" where
  "rvmem_at_pc st offs = rvmem_at st (pc st + offs)"

definition rvstate_fetch :: "rvstate \<Rightarrow> u32 res" where
  "rvstate_fetch st =
     (let p = elf_vma_to_mem (mem st) (pc st)
      in if p = 0 then Inl (Fatal ''PC-fetch out of bounds'')
         else rbind (hread (host st) p 4) (\<lambda>bs. Inr (le_word bs)))"

text \<open>
  \<open>guest_read st a n\<close> reads \<open>n\<close> bytes through the pointer \<^verbatim>\<open>rvmem_at (state, a)\<close>, and
  \<open>guest_write\<close> stores them; the loads and stores of an integer type go through its bytes.
\<close>

definition guest_read :: "rvstate \<Rightarrow> u32 \<Rightarrow> nat \<Rightarrow> u8 list res" where
  "guest_read st a n = rbind (rvmem_at st a) (\<lambda>p. hread (host st) p n)"

definition guest_write :: "rvstate \<Rightarrow> u32 \<Rightarrow> u8 list \<Rightarrow> rvstate res" where
  "guest_write st a bs =
     rbind (rvmem_at st a) (\<lambda>p. rbind (hwrite (host st) p bs) (\<lambda>h. Inr (st\<lparr>host := h\<rparr>)))"

definition load_u8 :: "rvstate \<Rightarrow> u32 \<Rightarrow> u8 res" where
  "load_u8 st a = rbind (guest_read st a 1) (\<lambda>bs. Inr (le_word bs))"

definition load_u16 :: "rvstate \<Rightarrow> u32 \<Rightarrow> u16 res" where
  "load_u16 st a = rbind (guest_read st a 2) (\<lambda>bs. Inr (le_word bs))"

definition load_u32 :: "rvstate \<Rightarrow> u32 \<Rightarrow> u32 res" where
  "load_u32 st a = rbind (guest_read st a 4) (\<lambda>bs. Inr (le_word bs))"

definition load_u64 :: "rvstate \<Rightarrow> u32 \<Rightarrow> u64 res" where
  "load_u64 st a = rbind (guest_read st a 8) (\<lambda>bs. Inr (le_word bs))"

definition store_u8 :: "u32 \<Rightarrow> u8 \<Rightarrow> rvstate \<Rightarrow> rvstate res" where
  "store_u8 a v st = guest_write st a (le_bytes 1 v)"

definition store_u16 :: "u32 \<Rightarrow> u16 \<Rightarrow> rvstate \<Rightarrow> rvstate res" where
  "store_u16 a v st = guest_write st a (le_bytes 2 v)"

definition store_u32 :: "u32 \<Rightarrow> u32 \<Rightarrow> rvstate \<Rightarrow> rvstate res" where
  "store_u32 a v st = guest_write st a (le_bytes 4 v)"

definition store_u64 :: "u32 \<Rightarrow> u64 \<Rightarrow> rvstate \<Rightarrow> rvstate res" where
  "store_u64 a v st = guest_write st a (le_bytes 8 v)"

lemmas load_defs = load_u8_def load_u16_def load_u32_def load_u64_def
lemmas store_defs = store_u8_def store_u16_def store_u32_def store_u64_def

section \<open>Register files\<close>

text \<open>The contract of an array of 32 registers, met by the integer and the float registers.\<close>

locale register_file =
  fixes get_r :: "'s \<Rightarrow> u8 \<Rightarrow> 'v"
    and set_r :: "u8 \<Rightarrow> 'v \<Rightarrow> 's \<Rightarrow> 's"
    and wf_r :: "'s \<Rightarrow> bool"
  assumes get_set: "wf_r s \<Longrightarrow> unat i < 32 \<Longrightarrow> get_r (set_r i v s) j = (if i = j then v else get_r s j)"
    and wf_set: "wf_r s \<Longrightarrow> wf_r (set_r i v s)"
begin

lemma get_set_same: "wf_r s \<Longrightarrow> unat i < 32 \<Longrightarrow> get_r (set_r i v s) i = v"
  by (simp add: get_set)

lemma get_set_other: "wf_r s \<Longrightarrow> unat i < 32 \<Longrightarrow> i \<noteq> j \<Longrightarrow> get_r (set_r i v s) j = get_r s j"
  by (simp add: get_set)

text \<open>After a sequence of writes, the last write to a register decides its value.\<close>

lemma get_fold_set:
  assumes "wf_r s" and "\<forall>(i, v)\<in>set ws. unat i < 32"
  shows "get_r (fold (\<lambda>(i, v). set_r i v) ws s) j
    = (case map_of (rev ws) j of Some v \<Rightarrow> v | None \<Rightarrow> get_r s j)"
  using assms
proof (induction ws arbitrary: s)
  case Nil
  then show ?case by simp
next
  case (Cons w ws)
  obtain i v where w: "w = (i, v)" by fastforce
  with Cons have "get_r (fold (\<lambda>(i, v). set_r i v) ws (set_r i v s)) j
      = (case map_of (rev ws) j of Some v \<Rightarrow> v | None \<Rightarrow> get_r (set_r i v s) j)"
    by (intro Cons.IH) (auto simp: wf_set)
  with Cons.prems show ?case
    by (auto simp: w get_set map_add_def split: option.splits)
qed

end

definition regs_wf :: "rvstate \<Rightarrow> bool" where
  "regs_wf st \<longleftrightarrow> length (regs st) = RISCV_REGCOUNT"

definition fregs_wf :: "rvstate \<Rightarrow> bool" where
  "fregs_wf st \<longleftrightarrow> length (fregs st) = 32"

interpretation int_regs: register_file rvmem_reg set_reg regs_wf
  by unfold_locales (auto simp: rvmem_reg_def set_reg_def regs_wf_def RISCV_REGCOUNT_def nth_list_update
      word_unat_eq_iff)

interpretation float_regs: register_file rvmem_freg set_freg fregs_wf
  by unfold_locales (auto simp: rvmem_freg_def set_freg_def fregs_wf_def nth_list_update word_unat_eq_iff)

section \<open>The state invariant\<close>

text \<open>
  \<open>state_ok\<close>: the arrays have their declared lengths and every region of the guest is backed by
  host memory of its own.  \<open>layout_ok\<close>: the guest's regions neither wrap nor overlap.
\<close>

definition state_ok :: "rvstate \<Rightarrow> bool" where
  "state_ok st \<longleftrightarrow> regs_wf st \<and> fregs_wf st \<and> length (bkpt_ev_arr st) = MAX_BKPT
     \<and> heap_ok (host st) \<and> regions_backed (host st) (load_regions (mem st))"

definition layout_ok :: "rvstate \<Rightarrow> bool" where
  "layout_ok st \<longleftrightarrow> guest_layout (load_regions (mem st))"

lemma state_ok_set_reg [simp]: "state_ok (set_reg sel v st) = state_ok st"
  by (simp add: state_ok_def set_reg_def regs_wf_def fregs_wf_def)

lemma state_ok_set_freg [simp]: "state_ok (set_freg sel v st) = state_ok st"
  by (simp add: state_ok_def set_freg_def regs_wf_def fregs_wf_def)

lemma state_ok_emit [simp]: "state_ok (emit e st) = state_ok st"
  by (simp add: state_ok_def emit_def regs_wf_def fregs_wf_def)

lemma state_ok_pc [simp]: "state_ok (st\<lparr>pc := a\<rparr>) = state_ok st"
  by (simp add: state_ok_def regs_wf_def fregs_wf_def)

lemma state_ok_suspended [simp]: "state_ok (st\<lparr>suspended := b\<rparr>) = state_ok st"
  by (simp add: state_ok_def regs_wf_def fregs_wf_def)

lemma state_ok_diagn [simp]:
  "state_ok (rvtrbk_diagn msg st) = state_ok st" "state_ok (rvtrbk_error msg st) = state_ok st"
  by (simp_all add: rvtrbk_diagn_def rvtrbk_error_def)

lemma guest_write_eq_Inr:
  "guest_write st a bs = Inr st' \<longleftrightarrow>
     (\<exists>h. elf_vma_to_mem (mem st) a \<noteq> 0 \<and> hwrite (host st) (elf_vma_to_mem (mem st) a) bs = Inr h
        \<and> st' = st\<lparr>host := h\<rparr>)"
  by (auto simp: guest_write_def rvmem_at_def Let_def rbind_eq_Inr)

lemma guest_read_eq_Inr:
  "guest_read st a n = Inr bs \<longleftrightarrow>
     elf_vma_to_mem (mem st) a \<noteq> 0 \<and> hread (host st) (elf_vma_to_mem (mem st) a) n = Inr bs"
  by (auto simp: guest_read_def rvmem_at_def Let_def rbind_eq_Inr)

lemma state_ok_guest_write:
  assumes "guest_write st a bs = Inr st'" and "state_ok st"
  shows "state_ok st'"
proof -
  obtain h where h: "hwrite (host st) (elf_vma_to_mem (mem st) a) bs = Inr h" and st': "st' = st\<lparr>host := h\<rparr>"
    using assms(1) by (auto simp: guest_write_eq_Inr)
  have "regions_backed h (load_regions (mem st)) = regions_backed (host st) (load_regions (mem st))"
    using hwrite_live [OF h] by (rule regions_backed_live)
  with assms(2) hwrite_heap_ok [OF h] show ?thesis
    by (simp add: state_ok_def st' regs_wf_def fregs_wf_def)
qed

lemma rvstate_init_ok:
  assumes "rvstate_init ctx h = Inr st" and "heap_ok h" and "regions_backed h (load_regions ctx)"
  shows "state_ok st"
  using assms heap.alloc_ok regions_backed_calloc
  by (auto simp: rvstate_init_def rbind_eq_Inr state_ok_def regs_wf_def fregs_wf_def RISCV_REGCOUNT_def)

section \<open>Guest memory is a byte store\<close>

text \<open>
  Two accesses are apart when each lies inside one region and their guest ranges share no address.
\<close>

definition access_ok :: "rvstate \<Rightarrow> u32 \<Rightarrow> nat \<Rightarrow> bool" where
  "access_ok st a n \<longleftrightarrow> 0 < n \<and> list_ex (\<lambda>r. in_region r a n) (load_regions (mem st))"

definition guest_apart :: "rvstate \<Rightarrow> u32 \<Rightarrow> nat \<Rightarrow> u32 \<Rightarrow> nat \<Rightarrow> bool" where
  "guest_apart st a m b n \<longleftrightarrow> state_ok st \<and> layout_ok st \<and> access_ok st a m \<and> access_ok st b n
     \<and> ranges_apart (unat a) m (unat b) n"

lemma guest_apart_host:
  "guest_apart st a m b n \<Longrightarrow>
     ranges_apart (elf_vma_to_mem (mem st) a) m (elf_vma_to_mem (mem st) b) n"
  unfolding guest_apart_def state_ok_def layout_ok_def access_ok_def elf_vma_to_mem_def list_ex_iff
  by (blast intro: translated_apart)

interpretation guest_bytes: byte_store guest_read guest_write guest_apart
proof
  fix st st' :: rvstate and a b :: u32 and n :: nat and bs cs :: "u8 list"
  show "guest_read st a n = Inr bs \<Longrightarrow> length bs = n"
    by (auto simp: guest_read_eq_Inr dest: hread_length)
  show "guest_write st a bs = Inr st' \<Longrightarrow> guest_read st' a (length bs) = Inr bs"
    by (auto simp: guest_write_eq_Inr guest_read_eq_Inr dest: heap_bytes.read_written)
  show "guest_read st a n = Inr bs \<Longrightarrow> length cs = n \<Longrightarrow> \<exists>st'. guest_write st a cs = Inr st'"
    using heap_bytes.write_total by (fastforce simp: guest_read_eq_Inr guest_write_eq_Inr)
  assume w: "guest_write st a bs = Inr st'" and apart: "guest_apart st a (length bs) b n"
  from w heap_bytes.read_frame guest_apart_host [OF apart] show "guest_read st' b n = guest_read st b n"
    by (auto simp: guest_write_eq_Inr guest_read_def rvmem_at_def Let_def)
qed

text \<open>An access inside a region does not fail.\<close>

lemma access_ok_read:
  assumes "state_ok st" and "layout_ok st" and "access_ok st a n"
  shows "\<exists>bs. guest_read st a n = Inr bs"
proof -
  obtain r where r: "r \<in> set (load_regions (mem st))" "in_region r a n" and n: "0 < n"
    using assms(3) by (auto simp: access_ok_def list_ex_iff)
  have "region_backed (host st) r"
    using assms(1) r(1) by (auto simp: state_ok_def intro: regions_backed_set)
  moreover have "sz_reserved r \<noteq> 0" using r(2) n by (auto simp: in_region_def)
  ultimately have pos: "0 < mem_base r" and liv: "\<forall>i<unat (sz_reserved r). live (host st) (mem_base r + i)"
    by (auto simp: region_backed_def)
  have p: "elf_vma_to_mem (mem st) a = mem_base r + (unat a - unat (vma_base r))"
    unfolding elf_vma_to_mem_def using assms(2) r n
    by (intro vma_to_mem_loop_in_region) (auto simp: layout_ok_def in_region_def)
  have "live (host st) (elf_vma_to_mem (mem st) a + i)" if "i < n" for i
  proof -
    have "unat a - unat (vma_base r) + i < unat (sz_reserved r)"
      using r(2) that by (auto simp: in_region_def)
    then show ?thesis using liv by (simp only: p add.assoc)
  qed
  then show ?thesis using pos p hread_defined by (auto simp: guest_read_eq_Inr)
qed

section \<open>A small machine for examples\<close>

text \<open>One region of 64 zero bytes at guest address 0x1000, and a host that answers simply.\<close>

definition small_state :: rvstate where
  "small_state = blank_state\<lparr>
     mem := context_zero\<lparr>load_regions := [\<lparr>vma_base = 0x1000, mem_base = 16, sz_alloc = 0,
       sz_reserved = 64, tag = Some ''LOAD''\<rparr>]\<rparr>,
     pc := 0x1000,
     host := \<lparr>cells = (\<lambda>a. if 16 \<le> a \<and> a < 80 then Some 0 else None), next_addr = 96, limit = 4096\<rparr>\<rparr>"

definition demo_env :: host_env where
  "demo_env = \<lparr>he_write = (\<lambda>_ _ bs. of_nat (length bs)), he_fstat = (\<lambda>_ _. (0xFFFFFFFF, [])),
     he_nan32 = (\<lambda>_. 0x7FC00000), he_nan64 = (\<lambda>_. 0x7FF8000000000000), he_first_zero = True\<rparr>"

lemma small_state_ok: "state_ok small_state" "layout_ok small_state"
  by (simp_all add: small_state_def blank_state_def state_ok_def layout_ok_def regs_wf_def fregs_wf_def
      RISCV_REGCOUNT_def context_zero_def heap_ok_def live_def regions_backed_def region_backed_def
      guest_layout_def region_fits_def)

end
