(* ===== verification/Repr.thy ===== *)
theory Repr
  imports Insn
begin

text \<open>
  The name tables of \<^verbatim>\<open>src/repr.c\<close> and the enumeration of system calls of
  \<^verbatim>\<open>include/syscall.h\<close>.
\<close>

section \<open>Register names\<close>

definition repr_reg_abi_map :: "string list" where
  "repr_reg_abi_map = [
    ''zero'', ''ra'', ''sp'', ''gp'', ''tp'', ''t0'', ''t1'', ''t2'', ''s0'', ''s1'', ''a0'',
    ''a1'', ''a2'', ''a3'', ''a4'', ''a5'', ''a6'', ''a7'', ''s2'', ''s3'', ''s4'', ''s5'',
    ''s6'', ''s7'', ''s8'', ''s9'', ''s10'', ''s11'', ''t3'', ''t4'', ''t5'', ''t6'']"

definition repr_freg_abi_map :: "string list" where
  "repr_freg_abi_map = [
    ''ft0'', ''ft1'', ''ft2'', ''ft3'', ''ft4'', ''ft5'', ''ft6'', ''ft7'', ''fs0'', ''fs1'',
    ''fa0'', ''fa1'', ''fa2'', ''fa3'', ''fa4'', ''fa5'', ''fa6'', ''fa7'', ''fs2'', ''fs3'',
    ''fs4'', ''fs5'', ''fs6'', ''fs7'', ''fs8'', ''fs9'', ''fs10'', ''fs11'', ''ft8'', ''ft9'',
    ''ft10'', ''ft11'']"

section \<open>Instruction names\<close>

text \<open>
  The C table is an array with one designated initialiser per enumerator, so it is a function of the
  enumerator; each extension has its block.
\<close>

definition repr_rv32m_map :: "rv32m_insn \<Rightarrow> string" where
  "repr_rv32m_map i = (case i of
       RV_INSN__MUL \<Rightarrow> ''MUL''
     | RV_INSN__MULH \<Rightarrow> ''MULH''
     | RV_INSN__MULHSU \<Rightarrow> ''MULHSU''
     | RV_INSN__MULHU \<Rightarrow> ''MULHU''
     | RV_INSN__DIV \<Rightarrow> ''DIV''
     | RV_INSN__DIVU \<Rightarrow> ''DIVU''
     | RV_INSN__REM \<Rightarrow> ''REM''
     | RV_INSN__REMU \<Rightarrow> ''REMU'')"

definition repr_rv32fd_map :: "rv32fd_insn \<Rightarrow> string" where
  "repr_rv32fd_map i = (case i of
       RV_INSN__FLx \<Rightarrow> ''FL.x''
     | RV_INSN__FSx \<Rightarrow> ''FS.x''
     | RV_INSN__FMADDx \<Rightarrow> ''FMADD.x''
     | RV_INSN__FMSUBx \<Rightarrow> ''FMSUB.x''
     | RV_INSN__FNMSUBx \<Rightarrow> ''FNMSUB.x''
     | RV_INSN__FNMADDx \<Rightarrow> ''FNMADD.x''
     | RV_INSN__FADDx \<Rightarrow> ''FADD.x''
     | RV_INSN__FSUBx \<Rightarrow> ''FSUB.x''
     | RV_INSN__FMULx \<Rightarrow> ''FMUL.x''
     | RV_INSN__FDIVx \<Rightarrow> ''FDIV.x''
     | RV_INSN__FSQRTx \<Rightarrow> ''FSQRT.x''
     | RV_INSN__FSGNJx \<Rightarrow> ''FSGNJ.x''
     | RV_INSN__FSGNJNx \<Rightarrow> ''FSGNJN.x''
     | RV_INSN__FSGNJXx \<Rightarrow> ''FSGNJX.x''
     | RV_INSN__FMINx \<Rightarrow> ''FMIN.x''
     | RV_INSN__FMAXx \<Rightarrow> ''FMAX.x''
     | RV_INSN__FEQx \<Rightarrow> ''FEQ.x''
     | RV_INSN__FLTx \<Rightarrow> ''FLT.x''
     | RV_INSN__FCLASSx \<Rightarrow> ''FCLASS.x''
     | RV_INSN__FLEx \<Rightarrow> ''FLE.x''
     | RV_INSN__FCVT_x_W \<Rightarrow> ''FCVT.x.W''
     | RV_INSN__FCVT_x_WU \<Rightarrow> ''FCVT.x.WU''
     | RV_INSN__FCVT_W_x \<Rightarrow> ''FCVT.W.x''
     | RV_INSN__FCVT_WU_x \<Rightarrow> ''FCVT.WU.x''
     | RV_INSN__FMV_X_W \<Rightarrow> ''FMV.X.W''
     | RV_INSN__FMV_W_X \<Rightarrow> ''FMV.W.X''
     | RV_INSN__FCVT_S_D \<Rightarrow> ''FCVT.S.D''
     | RV_INSN__FCVT_D_S \<Rightarrow> ''FCVT.D.S'')"

definition repr_rv32c_map :: "rv32c_insn \<Rightarrow> string" where
  "repr_rv32c_map i = (case i of
       RV_INSN__C_NOP \<Rightarrow> ''c.nop''
     | RV_INSN__C_ADDI \<Rightarrow> ''c.addi''
     | RV_INSN__C_JAL \<Rightarrow> ''c.jal''
     | RV_INSN__C_LI \<Rightarrow> ''c.li''
     | RV_INSN__C_ADDI16SP \<Rightarrow> ''c.addi16sp''
     | RV_INSN__C_LUI \<Rightarrow> ''c.lui''
     | RV_INSN__C_SRLI \<Rightarrow> ''c.srli''
     | RV_INSN__C_SRAI \<Rightarrow> ''c.srai''
     | RV_INSN__C_ANDI \<Rightarrow> ''c.andi''
     | RV_INSN__C_SUB \<Rightarrow> ''c.sub''
     | RV_INSN__C_XOR \<Rightarrow> ''c.xor''
     | RV_INSN__C_OR \<Rightarrow> ''c.or''
     | RV_INSN__C_AND \<Rightarrow> ''c.and''
     | RV_INSN__C_J \<Rightarrow> ''c.j''
     | RV_INSN__C_BEQZ \<Rightarrow> ''c.beqz''
     | RV_INSN__C_BNEZ \<Rightarrow> ''c.bnez''
     | RV_INSN__C_ADDI4SPN \<Rightarrow> ''c.addi4spn''
     | RV_INSN__C_FLD \<Rightarrow> ''c.fld''
     | RV_INSN__C_LW \<Rightarrow> ''c.lw''
     | RV_INSN__C_FLW \<Rightarrow> ''c.flw''
     | RV_INSN__C_FSD \<Rightarrow> ''c.fsd''
     | RV_INSN__C_SW \<Rightarrow> ''c.sw''
     | RV_INSN__C_FSW \<Rightarrow> ''c.fsw''
     | RV_INSN__C_SLLI \<Rightarrow> ''c.slli''
     | RV_INSN__C_SLLI64 \<Rightarrow> ''c.slli64''
     | RV_INSN__C_FLDSP \<Rightarrow> ''c.fldsp''
     | RV_INSN__C_LWSP \<Rightarrow> ''c.lwsp''
     | RV_INSN__C_FLWSP \<Rightarrow> ''c.flwsp''
     | RV_INSN__C_JR \<Rightarrow> ''c.jr''
     | RV_INSN__C_MV \<Rightarrow> ''c.mv''
     | RV_INSN__C_EBREAK \<Rightarrow> ''c.ebreak''
     | RV_INSN__C_JALR \<Rightarrow> ''c.jalr''
     | RV_INSN__C_ADD \<Rightarrow> ''c.add''
     | RV_INSN__C_FSDSP \<Rightarrow> ''c.fsdsp''
     | RV_INSN__C_SWSP \<Rightarrow> ''c.swsp''
     | RV_INSN__C_FSWSP \<Rightarrow> ''c.fswsp'')"

definition repr_insn_map :: "e_insn \<Rightarrow> string" where
  "repr_insn_map i = (case i of
       RV_INSN__INVALID \<Rightarrow> ''INVALID''
     | RV_INSN__LUI \<Rightarrow> ''LUI''
     | RV_INSN__AUIPC \<Rightarrow> ''AUIPC''
     | RV_INSN__JAL \<Rightarrow> ''JAL''
     | RV_INSN__JALR \<Rightarrow> ''JALR''
     | RV_INSN__BEQ \<Rightarrow> ''BEQ''
     | RV_INSN__BNE \<Rightarrow> ''BNE''
     | RV_INSN__BLT \<Rightarrow> ''BLT''
     | RV_INSN__BGE \<Rightarrow> ''BGE''
     | RV_INSN__BLTU \<Rightarrow> ''BLTU''
     | RV_INSN__BGEU \<Rightarrow> ''BGEU''
     | RV_INSN__LB \<Rightarrow> ''LB''
     | RV_INSN__LH \<Rightarrow> ''LH''
     | RV_INSN__LW \<Rightarrow> ''LW''
     | RV_INSN__LBU \<Rightarrow> ''LBU''
     | RV_INSN__LHU \<Rightarrow> ''LHU''
     | RV_INSN__SB \<Rightarrow> ''SB''
     | RV_INSN__SH \<Rightarrow> ''SH''
     | RV_INSN__SW \<Rightarrow> ''SW''
     | RV_INSN__ADDI \<Rightarrow> ''ADDI''
     | RV_INSN__SLTI \<Rightarrow> ''SLTI''
     | RV_INSN__SLTIU \<Rightarrow> ''SLTIU''
     | RV_INSN__XORI \<Rightarrow> ''XORI''
     | RV_INSN__ORI \<Rightarrow> ''ORI''
     | RV_INSN__ANDI \<Rightarrow> ''ANDI''
     | RV_INSN__SLLI \<Rightarrow> ''SLLI''
     | RV_INSN__SRLI \<Rightarrow> ''SRLI''
     | RV_INSN__SRAI \<Rightarrow> ''SRAI''
     | RV_INSN__ADD \<Rightarrow> ''ADD''
     | RV_INSN__SUB \<Rightarrow> ''SUB''
     | RV_INSN__SLL \<Rightarrow> ''SLL''
     | RV_INSN__SLT \<Rightarrow> ''SLT''
     | RV_INSN__SLTU \<Rightarrow> ''SLTU''
     | RV_INSN__XOR \<Rightarrow> ''XOR''
     | RV_INSN__SRL \<Rightarrow> ''SRL''
     | RV_INSN__SRA \<Rightarrow> ''SRA''
     | RV_INSN__OR \<Rightarrow> ''OR''
     | RV_INSN__AND \<Rightarrow> ''AND''
     | RV_INSN__FENCE \<Rightarrow> ''FENCE''
     | RV_INSN__FENCE_I \<Rightarrow> ''FENCE_I''
     | RV_INSN__ECALL \<Rightarrow> ''ECALL''
     | RV_INSN__EBREAK \<Rightarrow> ''EBREAK''
     | RV_INSN__CSRRW \<Rightarrow> ''CSRRW''
     | RV_INSN__CSRRS \<Rightarrow> ''CSRRS''
     | RV_INSN__CSRRC \<Rightarrow> ''CSRRC''
     | RV_INSN__CSRRWI \<Rightarrow> ''CSRRWI''
     | RV_INSN__CSRRSI \<Rightarrow> ''CSRRSI''
     | RV_INSN__CSRRCI \<Rightarrow> ''CSRRCI''
     | EXT_M m \<Rightarrow> repr_rv32m_map m
     | EXT_FD f \<Rightarrow> repr_rv32fd_map f
     | EXT_C c \<Rightarrow> repr_rv32c_map c)"

section \<open>System calls\<close>

text \<open>The enumerators with their values, and the entries of the name table in the order of the source.\<close>

definition e_syscall_low :: "(string \<times> nat) list" where
  "e_syscall_low = [
    (''IO_SETUP'', 0), (''IO_DESTROY'', 1), (''IO_SUBMIT'', 2), (''IO_CANCEL'', 3),
    (''IO_GETEVENTS'', 4), (''SETXATTR'', 5), (''LSETXATTR'', 6), (''FSETXATTR'', 7),
    (''GETXATTR'', 8), (''LGETXATTR'', 9), (''FGETXATTR'', 10), (''LISTXATTR'', 11),
    (''LLISTXATTR'', 12), (''FLISTXATTR'', 13), (''REMOVEXATTR'', 14), (''LREMOVEXATTR'', 15),
    (''FREMOVEXATTR'', 16), (''GETCWD'', 17), (''LOOKUP_DCOOKIE'', 18), (''EVENTFD2'', 19),
    (''EPOLL_CREATE1'', 20), (''EPOLL_CTL'', 21), (''EPOLL_PWAIT'', 22), (''DUP'', 23),
    (''DUP3'', 24), (''FCNTL'', 25), (''INOTIFY_INIT1'', 26), (''INOTIFY_ADD_WATCH'', 27),
    (''INOTIFY_RM_WATCH'', 28), (''IOCTL'', 29), (''IOPRIO_SET'', 30), (''IOPRIO_GET'', 31),
    (''FLOCK'', 32), (''MKNODAT'', 33), (''MKDIRAT'', 34), (''UNLINKAT'', 35),
    (''SYMLINKAT'', 36), (''LINKAT'', 37), (''RENAMEAT'', 38), (''UMOUNT2'', 39),
    (''MOUNT'', 40), (''PIVOT_ROOT'', 41), (''NFSSERVCTL'', 42), (''STATFS'', 43),
    (''FSTATFS'', 44), (''TRUNCATE'', 45), (''FTRUNCATE'', 46), (''FALLOCATE'', 47),
    (''FACCESSAT'', 48), (''CHDIR'', 49), (''FCHDIR'', 50), (''CHROOT'', 51), (''FCHMOD'', 52),
    (''FCHMODAT'', 53), (''FCHOWNAT'', 54), (''FCHOWN'', 55), (''OPENAT'', 56), (''CLOSE'', 57),
    (''VHANGUP'', 58), (''PIPE2'', 59), (''QUOTACTL'', 60), (''GETDENTS64'', 61),
    (''LSEEK'', 62), (''READ'', 63), (''WRITE'', 64), (''READV'', 65), (''WRITEV'', 66),
    (''PREAD64'', 67), (''PWRITE64'', 68), (''PREADV'', 69), (''PWRITEV'', 70),
    (''SENDFILE'', 71), (''PSELECT6'', 72), (''PPOLL'', 73), (''SIGNALFD4'', 74),
    (''VMSPLICE'', 75), (''SPLICE'', 76), (''TEE'', 77), (''READLINKAT'', 78), (''FSTATAT'', 79),
    (''FSTAT'', 80), (''SYNC'', 81), (''FSYNC'', 82), (''FDATASYNC'', 83),
    (''SYNC_FILE_RANGE'', 84), (''TIMERFD_CREATE'', 85), (''TIMERFD_SETTIME'', 86),
    (''TIMERFD_GETTIME'', 87), (''UTIMENSAT'', 88), (''ACCT'', 89), (''CAPGET'', 90),
    (''CAPSET'', 91), (''PERSONALITY'', 92), (''EXIT'', 93), (''EXIT_GROUP'', 94),
    (''WAITID'', 95), (''SET_TID_ADDRESS'', 96), (''UNSHARE'', 97), (''FUTEX'', 98),
    (''SET_ROBUST_LIST'', 99), (''GET_ROBUST_LIST'', 100), (''NANOSLEEP'', 101),
    (''GETITIMER'', 102), (''SETITIMER'', 103), (''KEXEC_LOAD'', 104), (''INIT_MODULE'', 105),
    (''DELETE_MODULE'', 106), (''TIMER_CREATE'', 107), (''TIMER_GETTIME'', 108),
    (''TIMER_GETOVERRUN'', 109), (''TIMER_SETTIME'', 110), (''TIMER_DELETE'', 111),
    (''CLOCK_SETTIME'', 112), (''CLOCK_GETTIME'', 113), (''CLOCK_GETRES'', 114),
    (''CLOCK_NANOSLEEP'', 115), (''SYSLOG'', 116), (''PTRACE'', 117), (''SCHED_SETPARAM'', 118),
    (''SCHED_SETSCHEDULER'', 119), (''SCHED_GETSCHEDULER'', 120)]"

definition e_syscall_high :: "(string \<times> nat) list" where
  "e_syscall_high = [
    (''SCHED_GETPARAM'', 121), (''SCHED_SETAFFINITY'', 122), (''SCHED_GETAFFINITY'', 123),
    (''SCHED_YIELD'', 124), (''SCHED_GET_PRIORITY_MAX'', 125), (''SCHED_GET_PRIORITY_MIN'', 126),
    (''SCHED_RR_GET_INTERVAL'', 127), (''RESTART_SYSCALL'', 128), (''KILL'', 129),
    (''TKILL'', 130), (''TGKILL'', 131), (''SIGALTSTACK'', 132), (''RT_SIGSUSPEND'', 133),
    (''RT_SIGACTION'', 134), (''RT_SIGPROCMASK'', 135), (''RT_SIGPENDING'', 136),
    (''RT_SIGTIMEDWAIT'', 137), (''RT_SIGQUEUEINFO'', 138), (''RT_SIGRETURN'', 139),
    (''SETPRIORITY'', 140), (''GETPRIORITY'', 141), (''REBOOT'', 142), (''SETREGID'', 143),
    (''SETGID'', 144), (''SETREUID'', 145), (''SETUID'', 146), (''SETRESUID'', 147),
    (''GETRESUID'', 148), (''SETRESGID'', 149), (''GETRESGID'', 150), (''SETFSUID'', 151),
    (''SETFSGID'', 152), (''TIMES'', 153), (''SETPGID'', 154), (''GETPGID'', 155),
    (''GETSID'', 156), (''SETSID'', 157), (''GETGROUPS'', 158), (''SETGROUPS'', 159),
    (''UNAME'', 160), (''SETHOSTNAME'', 161), (''SETDOMAINNAME'', 162), (''GETRLIMIT'', 163),
    (''SETRLIMIT'', 164), (''GETRUSAGE'', 165), (''UMASK'', 166), (''PRCTL'', 167),
    (''GETCPU'', 168), (''GETTIMEOFDAY'', 169), (''SETTIMEOFDAY'', 170), (''ADJTIMEX'', 171),
    (''GETPID'', 172), (''GETPPID'', 173), (''GETUID'', 174), (''GETEUID'', 175),
    (''GETGID'', 176), (''GETEGID'', 177), (''GETTID'', 178), (''SYSINFO'', 179),
    (''MQ_OPEN'', 180), (''MQ_UNLINK'', 181), (''MQ_TIMEDSEND'', 182),
    (''MQ_TIMEDRECEIVE'', 183), (''MQ_NOTIFY'', 184), (''MQ_GETSETATTR'', 185),
    (''MSGGET'', 186), (''MSGCTL'', 187), (''MSGRCV'', 188), (''MSGSND'', 189),
    (''SEMGET'', 190), (''SEMCTL'', 191), (''SEMTIMEDOP'', 192), (''SEMOP'', 193),
    (''SHMGET'', 194), (''SHMCTL'', 195), (''SHMAT'', 196), (''SHMDT'', 197), (''SOCKET'', 198),
    (''SOCKETPAIR'', 199), (''BIND'', 200), (''LISTEN'', 201), (''ACCEPT'', 202),
    (''CONNECT'', 203), (''GETSOCKNAME'', 204), (''GETPEERNAME'', 205), (''SENDTO'', 206),
    (''RECVFROM'', 207), (''SETSOCKOPT'', 208), (''GETSOCKOPT'', 209), (''SHUTDOWN'', 210),
    (''SENDMSG'', 211), (''RECVMSG'', 212), (''READAHEAD'', 213), (''BRK'', 214),
    (''MUNMAP'', 215), (''MREMAP'', 216), (''ADD_KEY'', 217), (''REQUEST_KEY'', 218),
    (''KEYCTL'', 219), (''CLONE'', 220), (''EXECVE'', 221), (''MMAP'', 222),
    (''FADVISE64'', 223), (''SWAPON'', 224), (''SWAPOFF'', 225), (''MPROTECT'', 226),
    (''MSYNC'', 227), (''MLOCK'', 228), (''MUNLOCK'', 229), (''MLOCKALL'', 230),
    (''MUNLOCKALL'', 231), (''MINCORE'', 232), (''MADVISE'', 233), (''REMAP_FILE_PAGES'', 234),
    (''MBIND'', 235), (''GET_MEMPOLICY'', 236), (''SET_MEMPOLICY'', 237),
    (''MIGRATE_PAGES'', 238), (''MOVE_PAGES'', 239), (''RT_TGSIGQUEUEINFO'', 240),
    (''PERF_EVENT_OPEN'', 241)]"

definition e_syscall :: "(string \<times> nat) list" where
  "e_syscall = e_syscall_low @ e_syscall_high"

definition syscall_entries_low :: "string list" where
  "syscall_entries_low = [
    ''IO_SETUP'', ''IO_DESTROY'', ''IO_SUBMIT'', ''IO_CANCEL'', ''IO_GETEVENTS'', ''SETXATTR'',
    ''LSETXATTR'', ''FSETXATTR'', ''GETXATTR'', ''LGETXATTR'', ''FGETXATTR'', ''LISTXATTR'',
    ''LLISTXATTR'', ''FLISTXATTR'', ''REMOVEXATTR'', ''LREMOVEXATTR'', ''FREMOVEXATTR'',
    ''GETCWD'', ''LOOKUP_DCOOKIE'', ''EVENTFD2'', ''EPOLL_CREATE1'', ''EPOLL_CTL'',
    ''EPOLL_PWAIT'', ''DUP'', ''DUP3'', ''FCNTL'', ''INOTIFY_INIT1'', ''INOTIFY_ADD_WATCH'',
    ''INOTIFY_RM_WATCH'', ''IOCTL'', ''IOPRIO_SET'', ''IOPRIO_GET'', ''FLOCK'', ''MKNODAT'',
    ''MKDIRAT'', ''UNLINKAT'', ''SYMLINKAT'', ''LINKAT'', ''RENAMEAT'', ''UMOUNT2'', ''MOUNT'',
    ''PIVOT_ROOT'', ''NFSSERVCTL'', ''STATFS'', ''FSTATFS'', ''TRUNCATE'', ''FTRUNCATE'',
    ''FALLOCATE'', ''FACCESSAT'', ''CHDIR'', ''FCHDIR'', ''CHROOT'', ''FCHMOD'', ''FCHMODAT'',
    ''FCHOWNAT'', ''FCHOWN'', ''OPENAT'', ''CLOSE'', ''VHANGUP'', ''PIPE2'', ''QUOTACTL'',
    ''GETDENTS64'', ''LSEEK'', ''READ'', ''WRITE'', ''READV'', ''WRITEV'', ''PREAD64'',
    ''PWRITE64'', ''PREADV'', ''PWRITEV'', ''SENDFILE'', ''PSELECT6'', ''PPOLL'', ''SIGNALFD4'',
    ''VMSPLICE'', ''SPLICE'', ''TEE'', ''READLINKAT'', ''FSTATAT'', ''FSTAT'', ''SYNC'',
    ''FSYNC'', ''FDATASYNC'', ''SYNC_FILE_RANGE'', ''TIMERFD_CREATE'', ''TIMERFD_SETTIME'',
    ''TIMERFD_GETTIME'', ''UTIMENSAT'', ''ACCT'', ''CAPGET'', ''CAPSET'', ''PERSONALITY'',
    ''EXIT'', ''EXIT_GROUP'', ''WAITID'', ''SET_TID_ADDRESS'', ''UNSHARE'', ''FUTEX'',
    ''SET_ROBUST_LIST'', ''GET_ROBUST_LIST'', ''NANOSLEEP'', ''GETITIMER'', ''SETITIMER'',
    ''KEXEC_LOAD'', ''INIT_MODULE'', ''DELETE_MODULE'', ''TIMER_CREATE'', ''TIMER_GETTIME'',
    ''TIMER_GETOVERRUN'', ''TIMER_SETTIME'', ''TIMER_DELETE'', ''CLOCK_SETTIME'',
    ''CLOCK_GETTIME'', ''CLOCK_GETRES'', ''CLOCK_NANOSLEEP'', ''SYSLOG'', ''PTRACE'',
    ''SCHED_SETPARAM'', ''SCHED_SETSCHEDULER'', ''SCHED_GETSCHEDULER'']"

definition syscall_entries_high :: "string list" where
  "syscall_entries_high = [
    ''SCHED_GETPARAM'', ''SCHED_SETAFFINITY'', ''SCHED_GETAFFINITY'', ''SCHED_YIELD'',
    ''SCHED_GET_PRIORITY_MAX'', ''SCHED_GET_PRIORITY_MIN'', ''SCHED_RR_GET_INTERVAL'',
    ''RESTART_SYSCALL'', ''KILL'', ''TKILL'', ''TGKILL'', ''SIGALTSTACK'', ''RT_SIGSUSPEND'',
    ''RT_SIGACTION'', ''RT_SIGPROCMASK'', ''RT_SIGPENDING'', ''RT_SIGTIMEDWAIT'',
    ''RT_SIGQUEUEINFO'', ''RT_SIGRETURN'', ''SETPRIORITY'', ''GETPRIORITY'', ''REBOOT'',
    ''SETREGID'', ''SETGID'', ''SETREUID'', ''SETUID'', ''SETRESUID'', ''GETRESUID'',
    ''SETRESGID'', ''GETRESGID'', ''SETFSUID'', ''SETFSGID'', ''TIMES'', ''SETPGID'',
    ''GETPGID'', ''GETSID'', ''SETSID'', ''GETGROUPS'', ''SETGROUPS'', ''UNAME'',
    ''SETHOSTNAME'', ''SETDOMAINNAME'', ''GETRLIMIT'', ''SETRLIMIT'', ''GETRUSAGE'', ''UMASK'',
    ''PRCTL'', ''GETCPU'', ''GETTIMEOFDAY'', ''SETTIMEOFDAY'', ''ADJTIMEX'', ''GETPID'',
    ''GETPPID'', ''GETUID'', ''GETEUID'', ''GETGID'', ''GETEGID'', ''GETTID'', ''SYSINFO'',
    ''MQ_OPEN'', ''MQ_UNLINK'', ''MQ_TIMEDSEND'', ''MQ_TIMEDRECEIVE'', ''MQ_NOTIFY'',
    ''MQ_GETSETATTR'', ''MSGGET'', ''MSGCTL'', ''MSGRCV'', ''MSGSND'', ''SEMGET'', ''SEMCTL'',
    ''SEMTIMEDOP'', ''SEMOP'', ''SHMGET'', ''SHMCTL'', ''SHMAT'', ''SHMDT'', ''SOCKET'',
    ''SOCKETPAIR'', ''BIND'', ''LISTEN'', ''ACCEPT'', ''CONNECT'', ''GETSOCKNAME'',
    ''GETPEERNAME'', ''SENDTO'', ''RECVFROM'', ''SETSOCKOPT'', ''GETSOCKOPT'', ''SHUTDOWN'',
    ''SENDMSG'', ''RECVMSG'', ''READAHEAD'', ''BRK'', ''MUNMAP'', ''MREMAP'', ''ADD_KEY'',
    ''REQUEST_KEY'', ''KEYCTL'', ''CLONE'', ''EXECVE'', ''MMAP'', ''FADVISE64'', ''SWAPON'',
    ''SWAPOFF'', ''MPROTECT'', ''MSYNC'', ''MLOCK'', ''MUNLOCK'', ''MLOCKALL'', ''MUNLOCKALL'',
    ''MINCORE'', ''MADVISE'', ''REMAP_FILE_PAGES'', ''MBIND'', ''GET_MEMPOLICY'',
    ''SET_MEMPOLICY'', ''MIGRATE_PAGES'', ''MOVE_PAGES'', ''RT_TGSIGQUEUEINFO'',
    ''PERF_EVENT_OPEN'']"

text \<open>
  \<^verbatim>\<open>[RV_SYSCALL__x] = "x"\<close>: the entry of the enumerator \<open>x\<close> stands at its value; an index
  beyond the last enumerator is outside the array (\<open>None\<close>).
\<close>

definition repr_syscall_map :: "nat \<Rightarrow> string option" where
  "repr_syscall_map n =
     find (\<lambda>nm. (nm, n) \<in> set e_syscall) (syscall_entries_low @ syscall_entries_high)"

text \<open>The table lists the enumerators in order and the enumerators are numbered from zero on.\<close>

lemma syscall_entries: "map fst e_syscall = syscall_entries_low @ syscall_entries_high"
  by (simp add: e_syscall_def e_syscall_low_def e_syscall_high_def syscall_entries_low_def
      syscall_entries_high_def)

lemma syscall_values: "map snd e_syscall = [0..<242]"
  by code_simp

lemma find_equal: "find (\<lambda>x. x = y) xs = (if y \<in> set xs then Some y else None)"
  by (induction xs) auto

text \<open>
  C24: the name table of the system calls agrees with the enumeration: at an index it holds the name of
  the enumerator with that value, every index below 242 has one, and beyond it the table ends.
\<close>
theorem repr_syscall_table:
  "repr_syscall_map n = map_of (map prod.swap e_syscall) n
    \<and> (repr_syscall_map n = None \<longleftrightarrow> 242 \<le> n)"
proof -
  let ?names = "syscall_entries_low @ syscall_entries_high"
  have len: "length ?names = 242"
    using arg_cong [OF syscall_entries, of length] arg_cong [OF syscall_values, of length] by simp
  have zip: "e_syscall = zip ?names [0..<242]"
    using zip_map_fst_snd [of e_syscall] by (simp only: syscall_entries syscall_values)
  have mem: "(nm, n) \<in> set e_syscall \<longleftrightarrow> n < 242 \<and> nm = ?names ! n" for nm
    unfolding zip set_zip by (auto simp: len simp del: length_append nth_append)
  have swap: "map prod.swap e_syscall = zip [0..<242] ?names"
    unfolding zip by (simp add: zip_commute [of ?names] comp_def case_prod_beta)
  show ?thesis
  proof (cases "n < 242")
    case True
    then have "repr_syscall_map n = find (\<lambda>nm. nm = ?names ! n) ?names"
      unfolding repr_syscall_map_def mem by simp
    also have "\<dots> = Some (?names ! n)"
      using True len nth_mem [of n ?names] by (simp only: find_equal) simp
    finally have "repr_syscall_map n = Some (?names ! n)" .
    moreover have "map_of (zip [0..<242] ?names) ([0..<242] ! n) = Some (?names ! n)"
      using True len by (intro map_of_zip_nth) simp_all
    then have "map_of (zip [0..<242] ?names) n = Some (?names ! n)" using True by simp
    ultimately show ?thesis using True by (simp only: swap) simp
  next
    case False
    then have "repr_syscall_map n = None"
      unfolding repr_syscall_map_def mem by (simp add: find_None_iff)
    moreover have "map_of (zip [0..<242] ?names) n = None"
      using False len by (subst map_of_zip_is_None) simp_all
    ultimately show ?thesis using False by (simp add: swap)
  qed
qed

end
