(* ===== verification/AsmEmit.thy ===== *)
theory AsmEmit
  imports Machine Repr
begin

text \<open>
  The disassembler of \<^verbatim>\<open>src/asm/context.c\<close>: \<^verbatim>\<open>rvasm_emit\<close> prints one line per
  decoded instruction, in the shape its argument format selects.
\<close>

section \<open>Decimal numbers\<close>

text \<open>\<^verbatim>\<open>PRIu32\<close> and \<^verbatim>\<open>PRIi32\<close> of \<^verbatim>\<open>printf\<close>.\<close>

definition digit_char :: "nat \<Rightarrow> char" where
  "digit_char d = ''0123456789'' ! d"

fun dec_nat :: "nat \<Rightarrow> string" where
  "dec_nat n = (if n < 10 then [digit_char n] else dec_nat (n div 10) @ [digit_char (n mod 10)])"

declare dec_nat.simps [simp del]

definition dec_u32 :: "u32 \<Rightarrow> string" where
  "dec_u32 w = dec_nat (unat w)"

definition dec_i32 :: "u32 \<Rightarrow> string" where
  "dec_i32 w = (if sint w < 0 then ''-'' @ dec_nat (nat (- sint w)) else dec_nat (nat (sint w)))"

definition digit_val :: "char \<Rightarrow> nat" where
  "digit_val c = of_char c - 48"

definition parse_nat :: "string \<Rightarrow> nat" where
  "parse_nat s = fold (\<lambda>c n. 10 * n + digit_val c) s 0"

lemma less_10_cases: "(d :: nat) < 10 \<Longrightarrow> d \<in> {0, 1, 2, 3, 4, 5, 6, 7, 8, 9}"
  by auto

lemma digit_val_char: "d < 10 \<Longrightarrow> digit_val (digit_char d) = d"
  by (drule less_10_cases) (auto simp: digit_val_def digit_char_def)

lemma parse_dec_nat: "parse_nat (dec_nat n) = n"
proof (induction n rule: dec_nat.induct)
  case (1 n)
  show ?case
  proof (cases "n < 10")
    case True
    then show ?thesis by (subst dec_nat.simps) (simp add: parse_nat_def digit_val_char)
  next
    case False
    have "parse_nat (dec_nat n) = 10 * parse_nat (dec_nat (n div 10)) + digit_val (digit_char (n mod 10))"
      using False by (subst dec_nat.simps) (simp add: parse_nat_def)
    with 1 False show ?thesis by (simp add: digit_val_char)
  qed
qed

definition parse_i32 :: "string \<Rightarrow> u32" where
  "parse_i32 s = (case s of
      [] \<Rightarrow> 0
    | c # cs \<Rightarrow> if c = CHR ''-'' then - of_nat (parse_nat cs) else of_nat (parse_nat s))"

lemma digit_char_not_minus: "d < 10 \<Longrightarrow> digit_char d \<noteq> CHR ''-''"
  by (drule less_10_cases) (auto simp: digit_char_def)

lemma dec_nat_digits: "c \<in> set (dec_nat n) \<Longrightarrow> \<exists>d<10. c = digit_char d"
proof (induction n rule: dec_nat.induct)
  case (1 n)
  from 1(2) have "c \<in> set (if n < 10 then [digit_char n] else dec_nat (n div 10) @ [digit_char (n mod 10)])"
    by (subst (asm) dec_nat.simps)
  with 1(1) show ?case by (auto split: if_splits intro: exI [of _ "n mod 10"])
qed

lemma dec_nat_Cons: "\<exists>c cs. dec_nat n = c # cs \<and> c \<noteq> CHR ''-''"
proof -
  have "dec_nat n \<noteq> []" by (subst dec_nat.simps) simp
  then obtain c cs where "dec_nat n = c # cs" by (cases "dec_nat n") auto
  with dec_nat_digits [of c n] digit_char_not_minus show ?thesis by auto
qed

lemma parse_dec_i32: "parse_i32 (dec_i32 w) = w"
proof (cases "sint w < 0")
  case True
  then have "parse_i32 (dec_i32 w) = - of_nat (nat (- sint w))"
    by (simp add: parse_i32_def dec_i32_def parse_dec_nat)
  also have "\<dots> = of_int (sint w)" using True by simp
  finally show ?thesis by simp
next
  case False
  obtain c cs where c: "dec_nat (nat (sint w)) = c # cs" "c \<noteq> CHR ''-''"
    using dec_nat_Cons by blast
  then have "parse_i32 (dec_i32 w) = of_nat (nat (sint w))"
    using False parse_dec_nat [of "nat (sint w)"] by (simp add: parse_i32_def dec_i32_def)
  with False show ?thesis by simp
qed

text \<open>\<^verbatim>\<open>PRIx32\<close>\<close>

definition hex_digit :: "nat \<Rightarrow> char" where
  "hex_digit d = ''0123456789abcdef'' ! d"

fun hex_nat :: "nat \<Rightarrow> string" where
  "hex_nat n = (if n < 16 then [hex_digit n] else hex_nat (n div 16) @ [hex_digit (n mod 16)])"

declare hex_nat.simps [simp del]

definition hex_u32 :: "u32 \<Rightarrow> string" where
  "hex_u32 w = hex_nat (unat w)"

section \<open>One line\<close>

definition REG :: "u8 \<Rightarrow> string" where
  "REG r = repr_reg_abi_map ! unat r"

definition FREG :: "u8 \<Rightarrow> string" where
  "FREG r = repr_freg_abi_map ! unat r"

definition INSN :: "insn_t \<Rightarrow> string" where
  "INSN i = repr_insn_map (insn_ty i)"

text \<open>
  The text after the \<^verbatim>\<open>v: \<close> prefix, without the newline; the two CSR formats end in
  \<^verbatim>\<open>rvtrbk_fatal\<close>.  No format reaches the C default branch, because the enumeration is closed.
\<close>

definition rvasm_line :: "insn_t \<Rightarrow> e_insn_argspec \<Rightarrow> string res" where
  "rvasm_line i argspec = (case argspec of
       RV_ARGSPEC__NONE \<Rightarrow> Inr (INSN i)
     | RV_ARGSPEC__R32_R32_R32 \<Rightarrow>
         Inr (INSN i @ '' '' @ REG (rd i) @ '', '' @ REG (rs1 i) @ '', '' @ REG (rs2 i))
     | RV_ARGSPEC__R32_R32_i12 \<Rightarrow>
         Inr (INSN i @ '' '' @ REG (rd i) @ '', '' @ REG (rs1 i) @ '', '' @ dec_i32 (imm i))
     | RV_ARGSPEC__R32_R32_u12 \<Rightarrow>
         Inr (INSN i @ '' '' @ REG (rd i) @ '', '' @ REG (rs1 i) @ '', '' @ dec_u32 (imm i))
     | RV_ARGSPEC__R32_R32_u5 \<Rightarrow>
         Inr (INSN i @ '' '' @ REG (rd i) @ '', '' @ REG (rs1 i) @ '', '' @ dec_u32 (imm i))
     | RV_ARGSPEC__R32_m8_offs \<Rightarrow>
         Inr (INSN i @ '' '' @ REG (rd i) @ '', '' @ dec_i32 (imm i) @ ''('' @ REG (rs1 i) @ '').b'')
     | RV_ARGSPEC__R32_m8u_offs \<Rightarrow>
         Inr (INSN i @ '' '' @ REG (rd i) @ '', '' @ dec_i32 (imm i) @ ''('' @ REG (rs1 i) @ '').bu'')
     | RV_ARGSPEC__R32_m16_offs \<Rightarrow>
         Inr (INSN i @ '' '' @ REG (rd i) @ '', '' @ dec_i32 (imm i) @ ''('' @ REG (rs1 i) @ '').hw'')
     | RV_ARGSPEC__R32_m16u_offs \<Rightarrow>
         Inr (INSN i @ '' '' @ REG (rd i) @ '', '' @ dec_i32 (imm i) @ ''('' @ REG (rs1 i) @ '').hwu'')
     | RV_ARGSPEC__R32_m32_offs \<Rightarrow>
         Inr (INSN i @ '' '' @ REG (rd i) @ '', '' @ dec_i32 (imm i) @ ''('' @ REG (rs1 i) @ '')'')
     | RV_ARGSPEC__m8_offs_R32 \<Rightarrow>
         Inr (INSN i @ '' '' @ dec_i32 (imm i) @ ''('' @ REG (rs1 i) @ '').b, '' @ REG (rd i))
     | RV_ARGSPEC__m16_offs_R32 \<Rightarrow>
         Inr (INSN i @ '' '' @ dec_i32 (imm i) @ ''('' @ REG (rs1 i) @ '').hw, '' @ REG (rd i))
     | RV_ARGSPEC__m32_offs_R32 \<Rightarrow>
         Inr (INSN i @ '' '' @ dec_i32 (imm i) @ ''('' @ REG (rs1 i) @ ''), '' @ REG (rd i))
     | RV_ARGSPEC__R32_R32_pcrel \<Rightarrow>
         Inr (INSN i @ '' '' @ REG (rs1 i) @ '', '' @ REG (rs2 i) @ '', '' @ dec_i32 (imm i))
     | RV_ARGSPEC__R32_R32_pcrelu \<Rightarrow>
         Inr (INSN i @ '' '' @ REG (rs1 i) @ '', '' @ REG (rs2 i) @ '', '' @ dec_i32 (imm i))
     | RV_ARGSPEC__R32_pcrel \<Rightarrow> Inr (INSN i @ '' '' @ REG (rd i) @ '', '' @ dec_i32 (imm i))
     | RV_ARGSPEC__R32_u20 \<Rightarrow> Inr (INSN i @ '' '' @ REG (rd i) @ '', '' @ dec_i32 (imm i))
     | RV_ARGSPEC__R32_csr_R32 \<Rightarrow> Inl (Fatal ''unsupported CSR representation'')
     | RV_ARGSPEC__R32_csr_u5 \<Rightarrow> Inl (Fatal ''unsupported CSR representation'')
     | RV_ARGSPEC__Fx_Fx_Fx \<Rightarrow>
         Inr (INSN i @ '' '' @ FREG (rd i) @ '', '' @ FREG (rs1 i) @ '', '' @ FREG (rs2 i))
     | RV_ARGSPEC__Fx_Fx_Fx_Fx \<Rightarrow>
         Inr (INSN i @ '' '' @ FREG (rd i) @ '', '' @ FREG (rs1 i) @ '', '' @ FREG (rs2 i) @ '', ''
           @ FREG (rs3 i))
     | RV_ARGSPEC__Fx_Fx \<Rightarrow> Inr (INSN i @ '' '' @ FREG (rd i) @ '', '' @ FREG (rs1 i))
     | RV_ARGSPEC__Fx_mX_offs \<Rightarrow>
         Inr (INSN i @ '' '' @ FREG (rd i) @ '', '' @ dec_i32 (imm i) @ ''('' @ FREG (rs1 i) @ '')'')
     | RV_ARGSPEC__mX_offs_Fx \<Rightarrow>
         Inr (INSN i @ '' '' @ dec_i32 (imm i) @ ''('' @ REG (rs1 i) @ ''), '' @ FREG (rs2 i))
     | RV_ARGSPEC__R32_Fx_Fx \<Rightarrow>
         Inr (INSN i @ '' '' @ REG (rd i) @ '', '' @ FREG (rs1 i) @ '', '' @ FREG (rs2 i))
     | RV_ARGSPEC__R32_Fx \<Rightarrow> Inr (INSN i @ '' '' @ REG (rd i) @ '', '' @ FREG (rs1 i))
     | RV_ARGSPEC__Fx_R32 \<Rightarrow> Inr (INSN i @ '' '' @ FREG (rd i) @ '', '' @ REG (rs1 i))
     | RV_ARGSPEC__Fx_Fx_cvt \<Rightarrow> Inr (INSN i @ '' '' @ FREG (rd i) @ '', '' @ FREG (rs1 i)))"

definition rvasm_emit :: "insn_t \<Rightarrow> e_insn_argspec \<Rightarrow> rvstate \<Rightarrow> rvstate res" where
  "rvasm_emit i argspec st = rbind (rvasm_line i argspec) (\<lambda>line. Inr (emit (Disasm line) st))"

section \<open>What the disassembler can do to the emulator\<close>

definition csr_argspec :: "e_insn_argspec \<Rightarrow> bool" where
  "csr_argspec a \<longleftrightarrow> a = RV_ARGSPEC__R32_csr_R32 \<or> a = RV_ARGSPEC__R32_csr_u5"

lemma rvasm_line_total: "\<not> csr_argspec a \<Longrightarrow> \<exists>line. rvasm_line i a = Inr line"
  by (cases a) (simp_all add: csr_argspec_def rvasm_line_def)

lemma rvasm_line_csr: "csr_argspec a \<Longrightarrow> rvasm_line i a = Inl (Fatal ''unsupported CSR representation'')"
  by (auto simp: csr_argspec_def rvasm_line_def)

lemma rvasm_emit_csr:
  "csr_argspec a \<Longrightarrow> rvasm_emit i a st = Inl (Fatal ''unsupported CSR representation'')"
  by (simp add: rvasm_emit_def rvasm_line_csr)

lemma rvasm_emit_ok:
  assumes "\<not> csr_argspec a"
  shows "\<exists>line. rvasm_emit i a st = Inr (emit (Disasm line) st)"
proof -
  obtain line where "rvasm_line i a = Inr line" using rvasm_line_total [OF assms] by blast
  then show ?thesis by (auto simp: rvasm_emit_def)
qed

end
