(* ===== verification/Decoder.thy ===== *)
theory Decoder
  imports AsmEmit
begin

text \<open>
  The decoders of \<^verbatim>\<open>src/insn/*.c\<close> and the selection of
  \<^verbatim>\<open>src/decoder.c\<close>.  A group function returns the instruction name and its argument format
  (\<^verbatim>\<open>struct insn_ty_argspec_pair\<close>) with the state its diagnostics changed.
\<close>

type_synonym insn_ty_argspec_pair = "e_insn \<times> e_insn_argspec"

definition INVALID_INSN :: insn_ty_argspec_pair where
  "INVALID_INSN = (RV_INSN__INVALID, RV_ARGSPEC__NONE)"

text \<open>The body of a case: return a pair, or a diagnostic and then \<open>INVALID_INSN\<close>.\<close>

definition make_insn :: "e_insn \<Rightarrow> e_insn_argspec \<Rightarrow> rvstate \<Rightarrow> (insn_ty_argspec_pair \<times> rvstate) res" where
  "make_insn i a st = Inr ((i, a), st)"

definition diagn_invalid :: "string \<Rightarrow> rvstate \<Rightarrow> (insn_ty_argspec_pair \<times> rvstate) res" where
  "diagn_invalid msg st = Inr (INVALID_INSN, rvtrbk_diagn msg st)"

definition unreachable :: "'a res" where
  "unreachable = Inl (Undefined ''__builtin_unreachable'')"

section \<open>I format\<close>

definition rvdec_Ity__1 :: "rvstate \<Rightarrow> u32 \<Rightarrow> (insn_ty_argspec_pair \<times> rvstate) res" where
  "rvdec_Ity__1 st insn = make_insn RV_INSN__JALR RV_ARGSPEC__R32_R32_pcrel st"

definition rvdec_Ity__2 :: "rvstate \<Rightarrow> u32 \<Rightarrow> (insn_ty_argspec_pair \<times> rvstate) res" where
  "rvdec_Ity__2 st insn = switch (f_funct3 insn)
     [(0b000, make_insn RV_INSN__LB RV_ARGSPEC__R32_m8_offs st),
      (0b001, make_insn RV_INSN__LH RV_ARGSPEC__R32_m16_offs st),
      (0b010, make_insn RV_INSN__LW RV_ARGSPEC__R32_m32_offs st),
      (0b100, make_insn RV_INSN__LBU RV_ARGSPEC__R32_m8u_offs st),
      (0b101, make_insn RV_INSN__LHU RV_ARGSPEC__R32_m16u_offs st)]
     (diagn_invalid ''unrecognised LOAD insn. function bits'' st)"

definition rvdec_Ity__3 :: "rvstate \<Rightarrow> u32 \<Rightarrow> (insn_ty_argspec_pair \<times> rvstate) res" where
  "rvdec_Ity__3 st insn = switch (f_funct3 insn)
     [(0b000, make_insn RV_INSN__ADDI RV_ARGSPEC__R32_R32_i12 st),
      (0b010, make_insn RV_INSN__SLTI RV_ARGSPEC__R32_R32_i12 st),
      (0b011, make_insn RV_INSN__SLTIU RV_ARGSPEC__R32_R32_u12 st),
      (0b100, make_insn RV_INSN__XORI RV_ARGSPEC__R32_R32_u12 st),
      (0b110, make_insn RV_INSN__ORI RV_ARGSPEC__R32_R32_u12 st),
      (0b111, make_insn RV_INSN__ANDI RV_ARGSPEC__R32_R32_u12 st),
      (0b001,
        if f_funct7 insn = 0 then make_insn RV_INSN__SLLI RV_ARGSPEC__R32_R32_u5 st else unreachable),
      (0b101,
        if f_funct7 insn = 0 then make_insn RV_INSN__SRLI RV_ARGSPEC__R32_R32_u5 st
        else if f_funct7 insn = 0b0100000 then make_insn RV_INSN__SRAI RV_ARGSPEC__R32_R32_u5 st
        else diagn_invalid ''unrecognised shift insn. function bits'' st)]
     unreachable"

definition rvdec_Ity__4 :: "rvstate \<Rightarrow> u32 \<Rightarrow> (insn_ty_argspec_pair \<times> rvstate) res" where
  "rvdec_Ity__4 st insn =
     (if f_rd insn = 0 \<and> f_funct3 insn = 0 \<and> f_rs1 insn = 0 \<and> i_imm__11_0 insn = 0b000011111111
      then make_insn RV_INSN__FENCE RV_ARGSPEC__NONE st
      else if f_rd insn = 0 \<and> f_funct3 insn = 0b001 \<and> f_rs1 insn = 0 \<and> i_imm__11_0 insn = 0
      then make_insn RV_INSN__FENCE_I RV_ARGSPEC__NONE st
      else diagn_invalid ''unrecognised synch. instruction'' st)"

definition rvdec_Ity__5 :: "rvstate \<Rightarrow> u32 \<Rightarrow> (insn_ty_argspec_pair \<times> rvstate) res" where
  "rvdec_Ity__5 st insn =
     (if f_funct3 insn = 0 \<and> f_rd insn = 0 \<and> f_rs1 insn = 0
      then
        if i_imm__11_0 insn = 0 then make_insn RV_INSN__ECALL RV_ARGSPEC__NONE st
        else if i_imm__11_0 insn = 0b000000000001 then make_insn RV_INSN__EBREAK RV_ARGSPEC__NONE st
        else diagn_invalid ''unrecognised environment insn. immediate specifier'' st
      else switch (f_funct3 insn)
       [(0b001, make_insn RV_INSN__CSRRW RV_ARGSPEC__R32_csr_R32 st),
        (0b010, make_insn RV_INSN__CSRRS RV_ARGSPEC__R32_csr_R32 st),
        (0b011, make_insn RV_INSN__CSRRC RV_ARGSPEC__R32_csr_R32 st),
        (0b101, make_insn RV_INSN__CSRRWI RV_ARGSPEC__R32_csr_u5 st),
        (0b110, make_insn RV_INSN__CSRRSI RV_ARGSPEC__R32_csr_u5 st),
        (0b111, make_insn RV_INSN__CSRRCI RV_ARGSPEC__R32_csr_u5 st)]
       (diagn_invalid ''unrecognised environment insn. function bits'' st))"

definition RISCV_FLTFUNC_SINGLE :: u32 where
  "RISCV_FLTFUNC_SINGLE = 0b010"

definition RISCV_FLTFUNC_DOUBLE :: u32 where
  "RISCV_FLTFUNC_DOUBLE = 0b011"

definition rvdec_Ity__6 :: "rvstate \<Rightarrow> u32 \<Rightarrow> (insn_ty_argspec_pair \<times> rvstate) res" where
  "rvdec_Ity__6 st insn = switch (f_funct3 insn)
     [(RISCV_FLTFUNC_SINGLE, make_insn (EXT_FD RV_INSN__FLx) RV_ARGSPEC__Fx_mX_offs st),
      (RISCV_FLTFUNC_DOUBLE, make_insn (EXT_FD RV_INSN__FLx) RV_ARGSPEC__Fx_mX_offs st)]
     (diagn_invalid ''unrecognised float-load function bits'' st)"

text \<open>
  A format decoder fills the operand fields, takes the name from its group, prints the line and
  returns the instruction; a switch without a matching label leaves the zero-initialised pair.
\<close>

definition rvdec_finish ::
    "insn_t \<Rightarrow> (insn_ty_argspec_pair \<times> rvstate) res \<Rightarrow> (insn_t \<times> rvstate) res" where
  "rvdec_finish ops grp = rbind grp (\<lambda>((ty, argspec), st).
     let insn = ops\<lparr>insn_ty := ty\<rparr>
     in rbind (rvasm_emit insn argspec st) (\<lambda>st. Inr (insn, st)))"

definition no_case :: "rvstate \<Rightarrow> (insn_ty_argspec_pair \<times> rvstate) res" where
  "no_case st = Inr ((0, 0), st)"

definition rvdec_Ity :: "rvstate \<Rightarrow> u32 \<Rightarrow> (insn_t \<times> rvstate) res" where
  "rvdec_Ity st insn = rvdec_finish
     (insn_zero\<lparr>rd := ucast (f_rd insn), rs1 := ucast (f_rs1 insn), funct := ucast (f_funct3 insn),
        imm := SIGNEXT (i_imm__11_0 insn) (push_bit 11 1)\<rparr>)
     (switch (f_opcode insn)
       [(0b1100111, rvdec_Ity__1 st insn), (0b0000011, rvdec_Ity__2 st insn),
        (0b0010011, rvdec_Ity__3 st insn), (0b0001111, rvdec_Ity__4 st insn),
        (0b1110011, rvdec_Ity__5 st insn), (0b0000111, rvdec_Ity__6 st insn)]
       (no_case st))"

section \<open>R format\<close>

definition rvdec_Rty__1 :: "rvstate \<Rightarrow> u32 \<Rightarrow> (insn_ty_argspec_pair \<times> rvstate) res" where
  "rvdec_Rty__1 st insn = switch (push_bit 3 (f_funct7 insn) OR f_funct3 insn)
     [(0b0000000000, make_insn RV_INSN__ADD RV_ARGSPEC__R32_R32_R32 st),
      (0b0100000000, make_insn RV_INSN__SUB RV_ARGSPEC__R32_R32_R32 st),
      (0b0000000001, make_insn RV_INSN__SLL RV_ARGSPEC__R32_R32_R32 st),
      (0b0000000010, make_insn RV_INSN__SLT RV_ARGSPEC__R32_R32_R32 st),
      (0b0000000011, make_insn RV_INSN__SLTU RV_ARGSPEC__R32_R32_R32 st),
      (0b0000000100, make_insn RV_INSN__XOR RV_ARGSPEC__R32_R32_R32 st),
      (0b0000000101, make_insn RV_INSN__SRL RV_ARGSPEC__R32_R32_R32 st),
      (0b0100000101, make_insn RV_INSN__SRA RV_ARGSPEC__R32_R32_R32 st),
      (0b0000000110, make_insn RV_INSN__OR RV_ARGSPEC__R32_R32_R32 st),
      (0b0000000111, make_insn RV_INSN__AND RV_ARGSPEC__R32_R32_R32 st),
      (0b0000001000, make_insn (EXT_M RV_INSN__MUL) RV_ARGSPEC__R32_R32_R32 st),
      (0b0000001001, make_insn (EXT_M RV_INSN__MULH) RV_ARGSPEC__R32_R32_R32 st),
      (0b0000001010, make_insn (EXT_M RV_INSN__MULHSU) RV_ARGSPEC__R32_R32_R32 st),
      (0b0000001011, make_insn (EXT_M RV_INSN__MULHU) RV_ARGSPEC__R32_R32_R32 st),
      (0b0000001100, make_insn (EXT_M RV_INSN__DIV) RV_ARGSPEC__R32_R32_R32 st),
      (0b0000001101, make_insn (EXT_M RV_INSN__DIVU) RV_ARGSPEC__R32_R32_R32 st),
      (0b0000001110, make_insn (EXT_M RV_INSN__REM) RV_ARGSPEC__R32_R32_R32 st),
      (0b0000001111, make_insn (EXT_M RV_INSN__REMU) RV_ARGSPEC__R32_R32_R32 st)]
     (Inr (INVALID_INSN, st))"

text \<open>
  Three switches in sequence: each is left through a return or falls to the next, and the last
  falls to the diagnostic.
\<close>

definition rvdec_Rty__2 :: "rvstate \<Rightarrow> u32 \<Rightarrow> (insn_ty_argspec_pair \<times> rvstate) res" where
  "rvdec_Rty__2 st insn =
     (let f12 = push_bit 5 (f_funct7 insn) OR f_rs2 insn;
          invalid = diagn_invalid ''invalid floating point encoding '' st
      in switch f12
       [(0b0010000000001, make_insn (EXT_FD RV_INSN__FCVT_S_D) RV_ARGSPEC__Fx_Fx_cvt st),
        (0b010000100000, make_insn (EXT_FD RV_INSN__FCVT_D_S) RV_ARGSPEC__Fx_Fx_cvt st)]
      (switch (f12 AND NOT 0b000000100000)
       [(0b110000000000, make_insn (EXT_FD RV_INSN__FCVT_W_x) RV_ARGSPEC__R32_Fx st),
        (0b110000000001, make_insn (EXT_FD RV_INSN__FCVT_WU_x) RV_ARGSPEC__R32_Fx st),
        (0b110100000000, make_insn (EXT_FD RV_INSN__FCVT_x_W) RV_ARGSPEC__Fx_R32 st),
        (0b110100000001, make_insn (EXT_FD RV_INSN__FCVT_x_W) RV_ARGSPEC__Fx_R32 st),
        (0b111000000000, switch (f_funct3 insn)
          [(0b000, make_insn (EXT_FD RV_INSN__FMV_X_W) RV_ARGSPEC__R32_Fx st),
           (0b001, make_insn (EXT_FD RV_INSN__FCLASSx) RV_ARGSPEC__Fx_Fx st)]
          (diagn_invalid (''invalid fmv/fclass funct3 bit specifier'' @ [CHR 0x0A]) st)),
        (0b111100000000, make_insn (EXT_FD RV_INSN__FMV_W_X) RV_ARGSPEC__Fx_R32 st),
        (0b010110000000, make_insn (EXT_FD RV_INSN__FSQRTx) RV_ARGSPEC__Fx_Fx st)]
      (switch (f_funct7 insn AND NOT 0b1)
       [(0b0000000, make_insn (EXT_FD RV_INSN__FADDx) RV_ARGSPEC__Fx_Fx_Fx st),
        (0b0000100, make_insn (EXT_FD RV_INSN__FSUBx) RV_ARGSPEC__Fx_Fx_Fx st),
        (0b0001000, make_insn (EXT_FD RV_INSN__FMULx) RV_ARGSPEC__Fx_Fx_Fx st),
        (0b0001100, make_insn (EXT_FD RV_INSN__FDIVx) RV_ARGSPEC__Fx_Fx_Fx st),
        (0b0010000, switch (f_funct3 insn)
          [(0b000, make_insn (EXT_FD RV_INSN__FSGNJx) RV_ARGSPEC__Fx_Fx_Fx st),
           (0b001, make_insn (EXT_FD RV_INSN__FSGNJNx) RV_ARGSPEC__Fx_Fx_Fx st),
           (0b010, make_insn (EXT_FD RV_INSN__FSGNJXx) RV_ARGSPEC__Fx_Fx_Fx st)]
          invalid),
        (0b0010100, switch (f_funct3 insn)
          [(0b000, make_insn (EXT_FD RV_INSN__FMINx) RV_ARGSPEC__Fx_Fx_Fx st),
           (0b001, make_insn (EXT_FD RV_INSN__FMAXx) RV_ARGSPEC__Fx_Fx_Fx st)]
          (diagn_invalid (''invalid min/max funct3 bit specifier'' @ [CHR 0x0A]) st)),
        (0b1010000, switch (f_funct3 insn)
          [(0b010, make_insn (EXT_FD RV_INSN__FEQx) RV_ARGSPEC__Fx_Fx_Fx st),
           (0b001, make_insn (EXT_FD RV_INSN__FLTx) RV_ARGSPEC__Fx_Fx_Fx st),
           (0b000, make_insn (EXT_FD RV_INSN__FLEx) RV_ARGSPEC__Fx_Fx_Fx st)]
          invalid)]
       invalid)))"

definition rvdec_Rty :: "rvstate \<Rightarrow> u32 \<Rightarrow> (insn_t \<times> rvstate) res" where
  "rvdec_Rty st insn = rvdec_finish
     (insn_zero\<lparr>rd := ucast (f_rd insn), rs1 := ucast (f_rs1 insn), rs2 := ucast (f_rs2 insn),
        funct := ucast (push_bit 3 (f_funct7 insn) OR f_funct3 insn)\<rparr>)
     (switch (f_opcode insn)
       [(0b0110011, rvdec_Rty__1 st insn), (0b1010011, rvdec_Rty__2 st insn)]
       (no_case st))"

text \<open>The R4 decoder sets the pair itself and, unlike the others, prints no line.\<close>

definition rvdec_R4ty :: "rvstate \<Rightarrow> u32 \<Rightarrow> (insn_t \<times> rvstate) res" where
  "rvdec_R4ty st insn =
     (let ops = insn_zero\<lparr>rd := ucast (f_rd insn), rs1 := ucast (f_rs1 insn),
        rs2 := ucast (f_rs2 insn), rs3 := ucast (f_rs3 insn), funct := ucast (f_funct3 insn)\<rparr>
      in Inr (ops\<lparr>insn_ty := switch (drop_bit 2 (f_opcode insn AND 0b1100))
       [(0b00, EXT_FD RV_INSN__FMADDx), (0b01, EXT_FD RV_INSN__FMSUBx),
        (0b10, EXT_FD RV_INSN__FNMSUBx), (0b11, EXT_FD RV_INSN__FNMADDx)] 0\<rparr>, st))"

section \<open>S, B, U and J formats\<close>

definition rvdec_Sty__1 :: "rvstate \<Rightarrow> u32 \<Rightarrow> (insn_ty_argspec_pair \<times> rvstate) res" where
  "rvdec_Sty__1 st insn = switch (f_funct3 insn)
     [(0b000, make_insn RV_INSN__SB RV_ARGSPEC__m8_offs_R32 st),
      (0b001, make_insn RV_INSN__SH RV_ARGSPEC__m16_offs_R32 st),
      (0b010, make_insn RV_INSN__SW RV_ARGSPEC__m32_offs_R32 st)]
     (diagn_invalid ''unrecognised store insn. function bits'' st)"

definition rvdec_Sty__2 :: "rvstate \<Rightarrow> u32 \<Rightarrow> (insn_ty_argspec_pair \<times> rvstate) res" where
  "rvdec_Sty__2 st insn = switch (f_funct3 insn)
     [(RISCV_FLTFUNC_SINGLE, make_insn (EXT_FD RV_INSN__FSx) RV_ARGSPEC__mX_offs_Fx st),
      (RISCV_FLTFUNC_DOUBLE, make_insn (EXT_FD RV_INSN__FSx) RV_ARGSPEC__mX_offs_Fx st)]
     (diagn_invalid ''unrecognised float store insn. function bits'' st)"

definition rvdec_Sty :: "rvstate \<Rightarrow> u32 \<Rightarrow> (insn_t \<times> rvstate) res" where
  "rvdec_Sty st insn = rvdec_finish
     (insn_zero\<lparr>rs1 := ucast (f_rs1 insn), rs2 := ucast (f_rs2 insn), funct := ucast (f_funct3 insn),
        imm := SIGNEXT (push_bit 5 (s_imm__11_5 insn) OR s_imm__4_0 insn) (push_bit 11 1)\<rparr>)
     (switch (f_opcode insn)
       [(0b0100011, rvdec_Sty__1 st insn), (0b0100111, rvdec_Sty__2 st insn)]
       (no_case st))"

definition rvdec_Bty :: "rvstate \<Rightarrow> u32 \<Rightarrow> (insn_t \<times> rvstate) res" where
  "rvdec_Bty st insn = rvdec_finish
     (insn_zero\<lparr>rs1 := ucast (f_rs1 insn), rs2 := ucast (f_rs2 insn), funct := ucast (f_funct3 insn),
        imm := SIGNEXT (push_bit 12 (b_imm__12 insn) OR push_bit 11 (b_imm__11 insn)
          OR push_bit 5 (b_imm__10_5 insn) OR push_bit 1 (b_imm__4_1 insn)) (push_bit 12 1)\<rparr>)
     (switch (f_funct3 insn)
       [(0b000, make_insn RV_INSN__BEQ RV_ARGSPEC__R32_R32_pcrel st),
        (0b001, make_insn RV_INSN__BNE RV_ARGSPEC__R32_R32_pcrel st),
        (0b100, make_insn RV_INSN__BLT RV_ARGSPEC__R32_R32_pcrel st),
        (0b101, make_insn RV_INSN__BGE RV_ARGSPEC__R32_R32_pcrel st),
        (0b110, make_insn RV_INSN__BLTU RV_ARGSPEC__R32_R32_pcrelu st),
        (0b111, make_insn RV_INSN__BGEU RV_ARGSPEC__R32_R32_pcrelu st)]
       (no_case (rvtrbk_diagn (''invalid branch function bit'' @ [CHR 0x0A]) st)))"

definition rvdec_Uty :: "rvstate \<Rightarrow> u32 \<Rightarrow> (insn_t \<times> rvstate) res" where
  "rvdec_Uty st insn = rvdec_finish
     (insn_zero\<lparr>rd := ucast (f_rd insn), imm := u_imm__31_12 insn\<rparr>)
     (switch (f_opcode insn)
       [(0b0110111, make_insn RV_INSN__LUI RV_ARGSPEC__R32_u20 st),
        (0b0010111, make_insn RV_INSN__AUIPC RV_ARGSPEC__R32_u20 st)]
       (no_case st))"

definition rvdec_Jty :: "rvstate \<Rightarrow> u32 \<Rightarrow> (insn_t \<times> rvstate) res" where
  "rvdec_Jty st insn = rvdec_finish
     (insn_zero\<lparr>rd := ucast (f_rd insn),
        imm := SIGNEXT (push_bit 20 (j_imm__20 insn) OR push_bit 12 (j_imm__19_12 insn)
          OR push_bit 11 (j_imm__11 insn) OR push_bit 1 (j_imm__10_1 insn)) (push_bit 20 1)\<rparr>)
     (make_insn RV_INSN__JAL RV_ARGSPEC__R32_pcrel st)"

section \<open>Format selection\<close>

definition rvdec_insn :: "rvstate \<Rightarrow> u32 \<Rightarrow> (insn_t \<times> rvstate) res" where
  "rvdec_insn st bytes =
     (let opc = f_opcode bytes in
      if OPCOND__R opc then rvdec_Rty st bytes
      else if OPCOND__I opc then rvdec_Ity st bytes
      else if OPCOND__S opc then rvdec_Sty st bytes
      else if OPCOND__U opc then rvdec_Uty st bytes
      else if OPCOND__J opc then rvdec_Jty st bytes
      else if OPCOND__B opc then rvdec_Bty st bytes
      else if OPCOND__R4 opc then rvdec_R4ty st bytes
      else Inr (insn_zero\<lparr>insn_ty := RV_INSN__INVALID\<rparr>,
        rvtrbk_diagn ''unrecognised instruction format''
          (rvtrbk_error (''failed to parse insn.: '' @ hex_u32 bytes) st)))"

section \<open>What decoding can change\<close>

text \<open>Decoding extends the trace and may set the suspended flag; it touches nothing else.\<close>

definition diag_ext :: "rvstate \<Rightarrow> rvstate \<Rightarrow> bool" where
  "diag_ext st st' \<longleftrightarrow>
     (\<exists>b es. st' = st\<lparr>suspended := suspended st \<or> b, trace := trace st @ es\<rparr>)"

lemma diag_ext_refl [simp, intro]: "diag_ext st st"
  unfolding diag_ext_def by (rule exI [of _ False], rule exI [of _ "[]"]) simp

lemma diag_ext_emit [simp, intro]: "diag_ext st (emit e st)"
  unfolding diag_ext_def emit_def by (rule exI [of _ False], rule exI [of _ "[e]"]) simp

lemma diag_ext_error [simp, intro]: "diag_ext st (rvtrbk_error m st)"
  by (simp add: rvtrbk_error_def)

lemma diag_ext_diagn [simp, intro]: "diag_ext st (rvtrbk_diagn m st)"
  unfolding diag_ext_def rvtrbk_diagn_def rvtrbk_error_def emit_def
  by (rule exI [of _ True], rule exI [of _ "[Stderr m]"]) simp

lemma diag_ext_trans: "diag_ext s t \<Longrightarrow> diag_ext t u \<Longrightarrow> diag_ext s u"
proof -
  assume "diag_ext s t" and "diag_ext t u"
  then obtain b es c fs where "t = s\<lparr>suspended := suspended s \<or> b, trace := trace s @ es\<rparr>"
    "u = t\<lparr>suspended := suspended t \<or> c, trace := trace t @ fs\<rparr>"
    unfolding diag_ext_def by blast
  then show ?thesis
    unfolding diag_ext_def by (intro exI [of _ "b \<or> c"] exI [of _ "es @ fs"]) simp
qed

lemma diag_ext_state_ok: "diag_ext st st' \<Longrightarrow> state_ok st' = state_ok st"
  by (auto simp: diag_ext_def state_ok_def regs_wf_def fregs_wf_def)

lemma diag_ext_fields:
  "diag_ext st st' \<Longrightarrow> pc st' = pc st \<and> regs st' = regs st \<and> fregs st' = fregs st
     \<and> mem st' = mem st \<and> host st' = host st \<and> bkpt_ev_arr st' = bkpt_ev_arr st
     \<and> disasm st' = disasm st"
  by (auto simp: diag_ext_def)

lemma switch_property:
  assumes "\<And>c r. (c, r) \<in> set cs \<Longrightarrow> P r" and "P d"
  shows "P (switch v cs d)"
  using assms by (auto simp: switch_def dest: map_of_SomeD split: option.splits)

text \<open>
  What a group function returns: on success only diagnostics were added, and an invalid result
  comes with a suspended emulator.
\<close>

definition group_ok :: "rvstate \<Rightarrow> (insn_ty_argspec_pair \<times> rvstate) res \<Rightarrow> bool" where
  "group_ok st r \<longleftrightarrow> (\<forall>p st'. r = Inr (p, st') \<longrightarrow> diag_ext st st')"

definition group_strict :: "(insn_ty_argspec_pair \<times> rvstate) res \<Rightarrow> bool" where
  "group_strict r \<longleftrightarrow> (\<forall>a st'. r = Inr ((RV_INSN__INVALID, a), st') \<longrightarrow> suspended st')"

lemma group_ok_basic [simp]:
  "group_ok st (make_insn i a st)" "group_ok st (diagn_invalid m st)" "group_ok st unreachable"
  "group_ok st (no_case st)" "group_ok st (no_case (rvtrbk_diagn m st))"
  "group_ok st (Inr (INVALID_INSN, st))"
  by (auto simp: group_ok_def make_insn_def diagn_invalid_def unreachable_def no_case_def)

lemma group_strict_basic [simp]:
  "i \<noteq> RV_INSN__INVALID \<Longrightarrow> group_strict (make_insn i a st)" "group_strict (diagn_invalid m st)"
  "group_strict unreachable" "group_strict (no_case (rvtrbk_diagn m st))"
  by (auto simp: group_strict_def make_insn_def diagn_invalid_def unreachable_def no_case_def
      rvtrbk_diagn_def rvtrbk_error_def emit_def)

lemmas group_defs = rvdec_Ity__1_def rvdec_Ity__2_def rvdec_Ity__3_def rvdec_Ity__4_def
  rvdec_Ity__5_def rvdec_Ity__6_def rvdec_Rty__1_def rvdec_Rty__2_def rvdec_Sty__1_def
  rvdec_Sty__2_def

lemma group_ok_switch:
  "list_all (\<lambda>(c, r). group_ok st r) cs \<Longrightarrow> group_ok st d \<Longrightarrow> group_ok st (switch v cs d)"
  by (rule switch_property) (auto simp: list_all_iff)

lemma group_strict_switch:
  "list_all (\<lambda>(c, r). group_strict r) cs \<Longrightarrow> group_strict d \<Longrightarrow> group_strict (switch v cs d)"
  by (rule switch_property) (auto simp: list_all_iff)

lemma groups_ok [simp]:
  "group_ok st (rvdec_Ity__1 st w)" "group_ok st (rvdec_Ity__2 st w)"
  "group_ok st (rvdec_Ity__3 st w)" "group_ok st (rvdec_Ity__4 st w)"
  "group_ok st (rvdec_Ity__5 st w)" "group_ok st (rvdec_Ity__6 st w)"
  "group_ok st (rvdec_Rty__1 st w)" "group_ok st (rvdec_Rty__2 st w)"
  "group_ok st (rvdec_Sty__1 st w)" "group_ok st (rvdec_Sty__2 st w)"
  by (simp_all del: switch_Cons add: group_defs Let_def group_ok_switch)

lemma groups_strict [simp]:
  "group_strict (rvdec_Ity__1 st w)" "group_strict (rvdec_Ity__2 st w)"
  "group_strict (rvdec_Ity__3 st w)" "group_strict (rvdec_Ity__4 st w)"
  "group_strict (rvdec_Ity__5 st w)" "group_strict (rvdec_Ity__6 st w)"
  "group_strict (rvdec_Rty__2 st w)"
  "group_strict (rvdec_Sty__1 st w)" "group_strict (rvdec_Sty__2 st w)"
  by (simp_all del: switch_Cons add: group_defs Let_def group_strict_switch)

lemma rvdec_finish_Inr:
  assumes "rvdec_finish ops grp = Inr (i, st')"
  obtains ty a st1 line where "grp = Inr ((ty, a), st1)" "i = ops\<lparr>insn_ty := ty\<rparr>"
    "st' = emit (Disasm line) st1"
  using assms by (auto simp: rvdec_finish_def rvasm_emit_def rbind_eq_Inr Let_def)

lemma rvdec_finish_diag:
  assumes "group_ok st grp" and "rvdec_finish ops grp = Inr (i, st')"
  shows "diag_ext st st'"
  using assms(2)
  by (rule rvdec_finish_Inr) (use assms(1) in \<open>auto simp: group_ok_def intro: diag_ext_trans\<close>)

lemma rvdec_finish_suspended:
  assumes "group_strict grp" and "rvdec_finish ops grp = Inr (i, st')" and "insn_ty i = RV_INSN__INVALID"
  shows "suspended st'"
  using assms(2)
  by (rule rvdec_finish_Inr) (use assms(1,3) in \<open>auto simp: group_strict_def emit_def\<close>)

lemmas format_defs = rvdec_Ity_def rvdec_Rty_def rvdec_R4ty_def rvdec_Sty_def rvdec_Bty_def
  rvdec_Uty_def rvdec_Jty_def

lemma formats_diag:
  "rvdec_Ity st w = Inr (i, st') \<Longrightarrow> diag_ext st st'"
  "rvdec_Rty st w = Inr (i, st') \<Longrightarrow> diag_ext st st'"
  "rvdec_Sty st w = Inr (i, st') \<Longrightarrow> diag_ext st st'"
  "rvdec_Bty st w = Inr (i, st') \<Longrightarrow> diag_ext st st'"
  "rvdec_Uty st w = Inr (i, st') \<Longrightarrow> diag_ext st st'"
  "rvdec_Jty st w = Inr (i, st') \<Longrightarrow> diag_ext st st'"
  "rvdec_R4ty st w = Inr (i, st') \<Longrightarrow> diag_ext st st'"
  unfolding format_defs Let_def
  by (erule rvdec_finish_diag [rotated], simp del: switch_Cons add: group_ok_switch)+ simp

lemma rvdec_finish_regs:
  "rvdec_finish ops grp = Inr (i, st') \<Longrightarrow> regs_in_range ops \<Longrightarrow> regs_in_range i"
  by (erule rvdec_finish_Inr) (simp add: regs_in_range_def)

lemma formats_regs:
  "rvdec_Ity st w = Inr (i, st') \<Longrightarrow> regs_in_range i"
  "rvdec_Rty st w = Inr (i, st') \<Longrightarrow> regs_in_range i"
  "rvdec_Sty st w = Inr (i, st') \<Longrightarrow> regs_in_range i"
  "rvdec_Bty st w = Inr (i, st') \<Longrightarrow> regs_in_range i"
  "rvdec_Uty st w = Inr (i, st') \<Longrightarrow> regs_in_range i"
  "rvdec_Jty st w = Inr (i, st') \<Longrightarrow> regs_in_range i"
  "rvdec_R4ty st w = Inr (i, st') \<Longrightarrow> regs_in_range i"
  unfolding format_defs Let_def
  by (erule rvdec_finish_regs,
      simp add: regs_in_range_def insn_zero_def field_defs unat_ucast_bits5)+
    (auto simp: regs_in_range_def insn_zero_def field_defs unat_ucast_bits5)

lemma regs_in_range_zero [simp]: "regs_in_range (insn_zero\<lparr>insn_ty := t\<rparr>)"
  by (simp add: regs_in_range_def insn_zero_def)

lemma rvdec_insn_diag: "rvdec_insn st w = Inr (i, st') \<Longrightarrow> diag_ext st st'"
  unfolding rvdec_insn_def Let_def
  by (auto split: if_splits intro: formats_diag diag_ext_trans)

lemma rvdec_insn_regs: "rvdec_insn st w = Inr (i, st') \<Longrightarrow> regs_in_range i"
  unfolding rvdec_insn_def Let_def
  by (auto split: if_splits intro: formats_regs)

lemma funct3_cases:
  "f_funct3 w = 0 \<or> f_funct3 w = 1 \<or> f_funct3 w = 2 \<or> f_funct3 w = 3
     \<or> f_funct3 w = 4 \<or> f_funct3 w = 5 \<or> f_funct3 w = 6 \<or> f_funct3 w = 7"
proof -
  have "unat (f_funct3 w) < 8"
    using unat_bits_less [of 12 3 w] by (simp add: f_funct3_def)
  then have "unat (f_funct3 w) \<in> {0, 1, 2, 3, 4, 5, 6, 7}" by auto
  then show ?thesis by (auto simp: word_unat_eq_iff)
qed

section \<open>Which words the decoder does not survive\<close>

definition csr_word :: "u32 \<Rightarrow> bool" where
  "csr_word w \<longleftrightarrow> f_opcode w = 0b1110011 \<and> f_funct3 w \<noteq> 0 \<and> f_funct3 w \<noteq> 4"

definition slli_reserved_word :: "u32 \<Rightarrow> bool" where
  "slli_reserved_word w \<longleftrightarrow> f_opcode w = 0b0010011 \<and> f_funct3 w = 1 \<and> f_funct7 w \<noteq> 0"

lemma rvdec_finish_make [simp]:
  "rvdec_finish ops (make_insn i a st) =
     rbind (rvasm_emit (ops\<lparr>insn_ty := i\<rparr>) a st) (\<lambda>st. Inr (ops\<lparr>insn_ty := i\<rparr>, st))"
  by (simp add: rvdec_finish_def make_insn_def Let_def)

lemma rvdec_finish_unreachable [simp]: "rvdec_finish ops unreachable = unreachable"
  by (simp add: rvdec_finish_def unreachable_def)

text \<open>A group result whose format is not a CSR one makes the format decoder succeed.\<close>

definition group_total :: "(insn_ty_argspec_pair \<times> rvstate) res \<Rightarrow> bool" where
  "group_total r \<longleftrightarrow> (\<exists>ty a st'. r = Inr ((ty, a), st') \<and> \<not> csr_argspec a)"

lemma rvdec_finish_total:
  assumes "group_total grp"
  shows "\<exists>i st'. rvdec_finish ops grp = Inr (i, st')"
proof -
  obtain ty a st1 where g: "grp = Inr ((ty, a), st1)" "\<not> csr_argspec a"
    using assms by (auto simp: group_total_def)
  then obtain line where "rvasm_emit (ops\<lparr>insn_ty := ty\<rparr>) a st1 = Inr (emit (Disasm line) st1)"
    using rvasm_emit_ok by blast
  with g show ?thesis by (auto simp: rvdec_finish_def)
qed

lemma group_total_basic [simp]:
  "\<not> csr_argspec a \<Longrightarrow> group_total (make_insn i a st)" "group_total (diagn_invalid m st)"
  "group_total (no_case st)" "group_total (Inr (INVALID_INSN, st))"
  by (auto simp: group_total_def make_insn_def diagn_invalid_def no_case_def INVALID_INSN_def
      csr_argspec_def zero_e_insn_argspec_def)

lemma group_total_switch:
  "list_all (\<lambda>(c, r). group_total r) cs \<Longrightarrow> group_total d \<Longrightarrow> group_total (switch v cs d)"
  by (rule switch_property) (auto simp: list_all_iff)

lemma groups_total [simp]:
  "group_total (rvdec_Ity__1 st w)" "group_total (rvdec_Ity__2 st w)"
  "group_total (rvdec_Ity__4 st w)" "group_total (rvdec_Ity__6 st w)"
  "group_total (rvdec_Rty__1 st w)" "group_total (rvdec_Rty__2 st w)"
  "group_total (rvdec_Sty__1 st w)" "group_total (rvdec_Sty__2 st w)"
  by (simp_all del: switch_Cons add: group_defs Let_def group_total_switch csr_argspec_def)

lemma rvdec_Ity__3_total:
  "\<not> (f_funct3 w = 1 \<and> f_funct7 w \<noteq> 0) \<Longrightarrow> group_total (rvdec_Ity__3 st w)"
  using funct3_cases [of w] by (auto simp: rvdec_Ity__3_def csr_argspec_def)

lemma rvdec_Ity__5_total:
  "f_funct3 w = 0 \<or> f_funct3 w = 4 \<Longrightarrow> group_total (rvdec_Ity__5 st w)"
  by (auto simp: rvdec_Ity__5_def csr_argspec_def)

lemma rvdec_Ity__5_csr:
  assumes "f_funct3 w \<noteq> 0" and "f_funct3 w \<noteq> 4"
  shows "\<exists>ty a. rvdec_Ity__5 st w = Inr ((ty, a), st) \<and> csr_argspec a"
  using funct3_cases [of w] assms
  by (elim disjE) (simp_all add: rvdec_Ity__5_def make_insn_def csr_argspec_def)

lemma rvdec_Ity_faults:
  "rvdec_Ity st w =
     (if csr_word w then Inl (Fatal ''unsupported CSR representation'')
      else if slli_reserved_word w then unreachable
      else Inr (projr (rvdec_Ity st w)))" if opc: "OPCOND__I (f_opcode w)"
proof -
  have fin: "rvdec_finish ops grp = Inr (projr (rvdec_finish ops grp))" if "group_total grp" for ops grp
    using rvdec_finish_total [OF that] by (metis sum.sel(2))
  have csr: "rvdec_finish ops (rvdec_Ity__5 st w) = Inl (Fatal ''unsupported CSR representation'')"
    if "f_funct3 w \<noteq> 0" "f_funct3 w \<noteq> 4" for ops
    using rvdec_Ity__5_csr [OF that, of st] by (auto simp: rvdec_finish_def rvasm_emit_csr Let_def)
  have slli: "rvdec_finish ops (rvdec_Ity__3 st w) = unreachable"
    if "f_funct3 w = 1" "f_funct7 w \<noteq> 0" for ops
    using that by (simp add: rvdec_Ity__3_def)
  from opc show ?thesis
    unfolding OPCOND__I_def
    by (elim disjE)
      (auto simp: rvdec_Ity_def csr_word_def slli_reserved_word_def csr slli rvdec_Ity__3_total
        rvdec_Ity__5_total intro!: fin)
qed

lemma formats_total:
  "\<exists>i st'. rvdec_Rty st w = Inr (i, st')" "\<exists>i st'. rvdec_Sty st w = Inr (i, st')"
  "\<exists>i st'. rvdec_Bty st w = Inr (i, st')" "\<exists>i st'. rvdec_Uty st w = Inr (i, st')"
  "\<exists>i st'. rvdec_Jty st w = Inr (i, st')" "\<exists>i st'. rvdec_R4ty st w = Inr (i, st')"
proof -
  show "\<exists>i st'. rvdec_R4ty st w = Inr (i, st')" by (simp add: rvdec_R4ty_def Let_def)
qed (unfold format_defs,
    (rule rvdec_finish_total, simp del: switch_Cons add: group_total_switch csr_argspec_def)+)

lemma rvdec_insn_total:
  assumes "\<not> csr_word w" and "\<not> slli_reserved_word w"
  shows "\<exists>i st'. rvdec_insn st w = Inr (i, st')"
proof (cases "OPCOND__I (f_opcode w)")
  case True
  then have "\<not> OPCOND__R (f_opcode w)" by (auto simp: opcond_defs)
  with True have "rvdec_insn st w = rvdec_Ity st w" by (simp add: rvdec_insn_def)
  with rvdec_Ity_faults [OF True, of st] assms show ?thesis
    by (metis surj_pair)
next
  case False
  then show ?thesis using formats_total by (simp add: rvdec_insn_def Let_def)
qed

lemma rvdec_R4ty_valid: "OPCOND__R4 (f_opcode w) \<Longrightarrow> rvdec_R4ty st w = Inr (i, st') \<Longrightarrow> insn_ty i \<noteq> RV_INSN__INVALID"
  by (auto simp: rvdec_R4ty_def Let_def OPCOND__R4_def)

lemma formats_reject:
  assumes "insn_ty i = RV_INSN__INVALID"
  shows "OPCOND__I (f_opcode w) \<Longrightarrow> rvdec_Ity st w = Inr (i, st') \<Longrightarrow> suspended st'"
    and "OPCOND__R (f_opcode w) \<Longrightarrow> rvdec_Rty st w = Inr (i, st') \<Longrightarrow> suspended st' \<or> f_opcode w = 0b0110011"
    and "OPCOND__S (f_opcode w) \<Longrightarrow> rvdec_Sty st w = Inr (i, st') \<Longrightarrow> suspended st'"
    and "OPCOND__U (f_opcode w) \<Longrightarrow> rvdec_Uty st w = Inr (i, st') \<Longrightarrow> suspended st'"
    and "rvdec_Jty st w = Inr (i, st') \<Longrightarrow> suspended st'"
    and "rvdec_Bty st w = Inr (i, st') \<Longrightarrow> suspended st'"
    and "OPCOND__R4 (f_opcode w) \<Longrightarrow> rvdec_R4ty st w = Inr (i, st') \<Longrightarrow> suspended st'"
proof -
  note fin = rvdec_finish_suspended [OF _ _ assms]
  show "OPCOND__I (f_opcode w) \<Longrightarrow> rvdec_Ity st w = Inr (i, st') \<Longrightarrow> suspended st'"
    unfolding rvdec_Ity_def by (erule fin [rotated]) (auto simp: OPCOND__I_def)
  show "OPCOND__R (f_opcode w) \<Longrightarrow> rvdec_Rty st w = Inr (i, st') \<Longrightarrow> suspended st' \<or> f_opcode w = 0b0110011"
    unfolding rvdec_Rty_def by (rule disjCI, erule fin [rotated]) (auto simp: OPCOND__R_def)
  show "OPCOND__S (f_opcode w) \<Longrightarrow> rvdec_Sty st w = Inr (i, st') \<Longrightarrow> suspended st'"
    unfolding rvdec_Sty_def by (erule fin [rotated]) (auto simp: OPCOND__S_def)
  show "OPCOND__U (f_opcode w) \<Longrightarrow> rvdec_Uty st w = Inr (i, st') \<Longrightarrow> suspended st'"
    unfolding rvdec_Uty_def by (erule fin [rotated]) (auto simp: OPCOND__U_def)
  show "rvdec_Jty st w = Inr (i, st') \<Longrightarrow> suspended st'"
    unfolding rvdec_Jty_def by (erule fin [rotated]) simp
  show "rvdec_Bty st w = Inr (i, st') \<Longrightarrow> suspended st'"
    unfolding rvdec_Bty_def by (erule fin [rotated]) (simp del: switch_Cons add: group_strict_switch)
  show "OPCOND__R4 (f_opcode w) \<Longrightarrow> rvdec_R4ty st w = Inr (i, st') \<Longrightarrow> suspended st'"
    using rvdec_R4ty_valid assms by blast
qed

text \<open>
  C15: decoding is safe for the rest of the emulator.  Whatever word is decoded, a successful
  \<^verbatim>\<open>rvdec_insn\<close> selects only registers that exist, so no later register access can leave
  its array, and it changes nothing of the state but the trace and, when it rejects the word, the
  suspended flag.
\<close>
theorem rvdec_insn_safe:
  assumes "rvdec_insn st w = Inr (i, st')"
  shows "regs_in_range i \<and> diag_ext st st'"
  using assms rvdec_insn_regs rvdec_insn_diag by blast

text \<open>The word of \<open>ADDI a7, zero, 93\<close>.\<close>

lemma decode_example:
  "rvdec_insn blank_state 0x05D00893 =
     Inr (insn_zero\<lparr>insn_ty := RV_INSN__ADDI, rd := 17, imm := 93\<rparr>,
       blank_state\<lparr>trace := [Disasm ''ADDI a7, zero, 93'']\<rparr>)"
  by (simp add: rvdec_insn_def field_defs bits_def opcond_defs rvdec_Ity_def rvdec_Ity__3_def
      rvasm_emit_def rvasm_line_def INSN_def REG_def repr_insn_map_def repr_reg_abi_map_def dec_i32_def
      dec_nat.simps digit_char_def SIGNEXT_def insn_zero_def emit_def blank_state_def)

theorem rvdec_insn_safe_witness:
  "regs_in_range (insn_zero\<lparr>insn_ty := RV_INSN__ADDI, rd := 17, imm := 93\<rparr>)
     \<and> diag_ext blank_state (blank_state\<lparr>trace := [Disasm ''ADDI a7, zero, 93'']\<rparr>)"
  by (rule rvdec_insn_safe [OF decode_example])

text \<open>
  C14: the exact set of words that stop the process inside the decoder.  Every CSR instruction
  dies in the disassembler, so the CSR cases of the dispatcher are never executed, and an
  \<^verbatim>\<open>SLLI\<close> whose upper immediate bits are not zero reaches
  \<^verbatim>\<open>__builtin_unreachable\<close>; every other word decodes.
\<close>
theorem rvdec_insn_faults:
  "rvdec_insn st w = Inl e \<longleftrightarrow>
     csr_word w \<and> e = Fatal ''unsupported CSR representation''
     \<or> slli_reserved_word w \<and> e = Undefined ''__builtin_unreachable''"
proof (cases "csr_word w \<or> slli_reserved_word w")
  case True
  then have i: "OPCOND__I (f_opcode w)" and "\<not> OPCOND__R (f_opcode w)"
    by (auto simp: csr_word_def slli_reserved_word_def opcond_defs)
  then have "rvdec_insn st w = rvdec_Ity st w" by (simp add: rvdec_insn_def)
  moreover have "\<not> (csr_word w \<and> slli_reserved_word w)"
    by (simp add: csr_word_def slli_reserved_word_def)
  ultimately show ?thesis
    using True rvdec_Ity_faults [OF i, of st] by (auto simp: unreachable_def)
next
  case False
  with rvdec_insn_total [of w st] show ?thesis by auto
qed

text \<open>
  C25: a word the decoder rejects suspends the emulator, with one gap: an integer register
  instruction with unknown function bits is returned as invalid without a diagnostic, and the
  emulator is left running.
\<close>
theorem rvdec_insn_rejects:
  assumes "rvdec_insn st w = Inr (i, st')" and "insn_ty i = RV_INSN__INVALID"
  shows "suspended st' \<or> f_opcode w = 0b0110011"
  using assms formats_reject
  by (auto simp: rvdec_insn_def Let_def rvtrbk_diagn_def rvtrbk_error_def emit_def split: if_splits)

theorem rvdec_insn_rejects_witness:
  "suspended (rvtrbk_diagn ''unrecognised instruction format''
      (rvtrbk_error ''failed to parse insn.: ffffffff'' blank_state))
     \<or> f_opcode 0xFFFFFFFF = 0b0110011"
proof (rule rvdec_insn_rejects)
  show "rvdec_insn blank_state 0xFFFFFFFF =
      Inr (insn_zero\<lparr>insn_ty := RV_INSN__INVALID\<rparr>, rvtrbk_diagn ''unrecognised instruction format''
        (rvtrbk_error ''failed to parse insn.: ffffffff'' blank_state))"
    by (simp add: rvdec_insn_def field_defs bits_def opcond_defs hex_u32_def hex_nat.simps hex_digit_def)
  show "insn_ty (insn_zero\<lparr>insn_ty := RV_INSN__INVALID\<rparr>) = RV_INSN__INVALID" by simp
qed

end
