(* ===== verification/Ieee.thy ===== *)
theory Ieee
  imports Prelude
begin

text \<open>
  The floating-point arithmetic the C code performs on \<^verbatim>\<open>float\<close> and
  \<^verbatim>\<open>double\<close>: IEEE 754 binary formats with rounding to nearest, ties to even, over bit
  patterns.  A value is computed exactly, as a fraction of naturals, and rounded once.  C leaves
  open which NaN an operation returns, so that choice is a parameter of the operations.
\<close>

section \<open>Formats and values\<close>

text \<open>A format is its number of exponent bits and of fraction bits.\<close>

record fformat =
  expbits :: nat
  fracbits :: nat

definition binary32 :: fformat where
  "binary32 = \<lparr>expbits = 8, fracbits = 23\<rparr>"

definition binary64 :: fformat where
  "binary64 = \<lparr>expbits = 11, fracbits = 52\<rparr>"

text \<open>
  \<open>FFin s m k\<close> is the value \<open>m * 2 ^ k / 2 ^ (scale F)\<close> with sign \<open>s\<close>, where
  \<open>2 ^ - scale\<close> is the format's smallest positive value.
\<close>

datatype fval = FNaN | FInf bool | FFin bool nat nat

definition scale :: "fformat \<Rightarrow> nat" where
  "scale F = 2 ^ (expbits F - 1) - 2 + fracbits F"

definition inf_bits :: "fformat \<Rightarrow> nat" where
  "inf_bits F = (2 ^ expbits F - 1) * 2 ^ fracbits F"

definition sign_weight :: "fformat \<Rightarrow> nat" where
  "sign_weight F = 2 ^ (expbits F + fracbits F)"

definition fdecode :: "fformat \<Rightarrow> nat \<Rightarrow> fval" where
  "fdecode F b =
     (let s = (b div sign_weight F = 1); mag = b mod sign_weight F;
          E = mag div 2 ^ fracbits F; f = mag mod 2 ^ fracbits F
      in if inf_bits F < mag then FNaN
         else if mag = inf_bits F then FInf s
         else if E = 0 then FFin s f 0
         else FFin s (2 ^ fracbits F + f) (E - 1))"

definition with_sign :: "fformat \<Rightarrow> bool \<Rightarrow> nat \<Rightarrow> nat" where
  "with_sign F s mag = (if s then sign_weight F + mag else mag)"

section \<open>Rounding\<close>

fun bitlen :: "nat \<Rightarrow> nat" where
  "bitlen n = (if n = 0 then 0 else Suc (bitlen (n div 2)))"

declare bitlen.simps [simp del]

lemma bitlen_0 [simp]: "bitlen 0 = 0"
  by (simp add: bitlen.simps)

text \<open>The quotient of two naturals, rounded to the nearest natural, ties to even.\<close>

definition div_even :: "nat \<Rightarrow> nat \<Rightarrow> nat" where
  "div_even n d =
     (let q = n div d; r = n mod d
      in if d < 2 * r \<or> 2 * r = d \<and> odd q then Suc q else q)"

text \<open>
  \<open>fround F n d\<close> is the magnitude pattern of \<open>n / d\<close> units of \<open>2 ^ - scale\<close>.  The integer part
  decides the binade \<open>k\<close>; in it the significand is \<open>n / (d * 2 ^ k)\<close> rounded.  A significand that
  rounds up to the next power of two carries into the exponent field by the same sum, and a sum
  at or beyond the pattern of infinity is infinity.
\<close>

definition fround :: "fformat \<Rightarrow> nat \<Rightarrow> nat \<Rightarrow> nat" where
  "fround F n d =
     (let k = bitlen (n div d) - Suc (fracbits F)
      in min (inf_bits F) (k * 2 ^ fracbits F + div_even n (d * 2 ^ k)))"

section \<open>Arithmetic\<close>

text \<open>\<open>nan xs\<close> is the NaN produced for the operands \<open>xs\<close>.\<close>

type_synonym nan_choice = "nat list \<Rightarrow> nat"

definition fneg :: "fformat \<Rightarrow> nat \<Rightarrow> nat" where
  "fneg F b = (if b div sign_weight F = 1 then b - sign_weight F else b + sign_weight F)"

definition fadd :: "fformat \<Rightarrow> nan_choice \<Rightarrow> nat \<Rightarrow> nat \<Rightarrow> nat" where
  "fadd F nan a b = (case (fdecode F a, fdecode F b) of
       (FInf s, FInf t) \<Rightarrow> if s = t then with_sign F s (inf_bits F) else nan [a, b]
     | (FInf s, FFin _ _ _) \<Rightarrow> with_sign F s (inf_bits F)
     | (FFin _ _ _, FInf t) \<Rightarrow> with_sign F t (inf_bits F)
     | (FFin s m j, FFin t n k) \<Rightarrow>
         (let x = m * 2 ^ j; y = n * 2 ^ k
          in if s = t then with_sign F s (fround F (x + y) 1)
             else if x = y then 0
             else if y < x then with_sign F s (fround F (x - y) 1)
             else with_sign F t (fround F (y - x) 1))
     | _ \<Rightarrow> nan [a, b])"

text \<open>Subtraction is addition of the negated operand, except that a NaN operand is kept as it is.\<close>

definition fsub :: "fformat \<Rightarrow> nan_choice \<Rightarrow> nat \<Rightarrow> nat \<Rightarrow> nat" where
  "fsub F nan a b = fadd F (\<lambda>_. nan [a, b]) a (fneg F b)"

definition fmul :: "fformat \<Rightarrow> nan_choice \<Rightarrow> nat \<Rightarrow> nat \<Rightarrow> nat" where
  "fmul F nan a b = (case (fdecode F a, fdecode F b) of
       (FInf s, FInf t) \<Rightarrow> with_sign F (s \<noteq> t) (inf_bits F)
     | (FInf s, FFin t n _) \<Rightarrow> if n = 0 then nan [a, b] else with_sign F (s \<noteq> t) (inf_bits F)
     | (FFin s m _, FInf t) \<Rightarrow> if m = 0 then nan [a, b] else with_sign F (s \<noteq> t) (inf_bits F)
     | (FFin s m j, FFin t n k) \<Rightarrow>
         with_sign F (s \<noteq> t) (fround F (m * n * 2 ^ (j + k)) (2 ^ scale F))
     | _ \<Rightarrow> nan [a, b])"

definition fdivide :: "fformat \<Rightarrow> nan_choice \<Rightarrow> nat \<Rightarrow> nat \<Rightarrow> nat" where
  "fdivide F nan a b = (case (fdecode F a, fdecode F b) of
       (FInf s, FInf t) \<Rightarrow> nan [a, b]
     | (FInf s, FFin t _ _) \<Rightarrow> with_sign F (s \<noteq> t) (inf_bits F)
     | (FFin s _ _, FInf t) \<Rightarrow> with_sign F (s \<noteq> t) 0
     | (FFin s m j, FFin t n k) \<Rightarrow>
         (if n = 0 then if m = 0 then nan [a, b] else with_sign F (s \<noteq> t) (inf_bits F)
          else with_sign F (s \<noteq> t) (fround F (m * 2 ^ (j + scale F)) (n * 2 ^ k)))
     | _ \<Rightarrow> nan [a, b])"

text \<open>The integer square root, by bisection on the bits from the highest.\<close>

fun isqrt :: "nat \<Rightarrow> nat" where
  "isqrt n = (if n = 0 then 0 else
     let r = 2 * isqrt (n div 4) in if Suc r * Suc r \<le> n then Suc r else r)"

declare isqrt.simps [simp del]

text \<open>
  The root of \<open>x = m * 2 ^ j\<close> units is the root of \<open>x * 2 ^ scale\<close>; it is taken with
  \<open>fracbits + 3\<close> further bits and, when inexact, moved half a step up, which no rounding boundary
  lies within.
\<close>

definition fsqrt :: "fformat \<Rightarrow> nan_choice \<Rightarrow> nat \<Rightarrow> nat" where
  "fsqrt F nan a = (case fdecode F a of
       FInf s \<Rightarrow> if s then nan [a] else a
     | FFin s m j \<Rightarrow>
         (if m = 0 then a else if s then nan [a]
          else let p = fracbits F + 3; y = m * 2 ^ (j + scale F + 2 * p); r = isqrt y
            in if r * r = y then fround F r (2 ^ p) else fround F (2 * r + 1) (2 * 2 ^ p))
     | FNaN \<Rightarrow> nan [a])"

section \<open>Comparison\<close>

text \<open>The order on values, \<open>None\<close> when an operand is NaN; infinity is beyond every finite unit.\<close>

definition funits :: "fformat \<Rightarrow> nat \<Rightarrow> int option" where
  "funits F b = (case fdecode F b of
       FNaN \<Rightarrow> None
     | FInf s \<Rightarrow> Some ((if s then - 1 else 1) * 2 ^ (2 ^ expbits F + fracbits F))
     | FFin s m k \<Rightarrow> Some ((if s then - 1 else 1) * int (m * 2 ^ k)))"

definition fcompare :: "(int \<Rightarrow> int \<Rightarrow> bool) \<Rightarrow> fformat \<Rightarrow> nat \<Rightarrow> nat \<Rightarrow> bool" where
  "fcompare R F a b = (case (funits F a, funits F b) of (Some x, Some y) \<Rightarrow> R x y | _ \<Rightarrow> False)"

definition is_signalling :: "fformat \<Rightarrow> nat \<Rightarrow> bool" where
  "is_signalling F b \<longleftrightarrow> fdecode F b = FNaN \<and> even (b div 2 ^ (fracbits F - 1))"

text \<open>
  \<^verbatim>\<open>fmin\<close> and \<^verbatim>\<open>fmax\<close>: a quiet NaN loses to a number; which of two equal
  zeros is returned is left open by C and is the parameter \<open>first\<close>.
\<close>

definition fpick :: "(int \<Rightarrow> int \<Rightarrow> bool) \<Rightarrow> fformat \<Rightarrow> nan_choice \<Rightarrow> bool \<Rightarrow> nat \<Rightarrow> nat \<Rightarrow> nat" where
  "fpick R F nan first a b =
     (if is_signalling F a \<or> is_signalling F b then nan [a, b]
      else case (funits F a, funits F b) of
        (Some x, Some y) \<Rightarrow> if x = y then if first then a else b else if R x y then a else b
      | (Some x, None) \<Rightarrow> a
      | (None, Some y) \<Rightarrow> b
      | (None, None) \<Rightarrow> nan [a, b])"

section \<open>Conversion\<close>

definition fof_int :: "fformat \<Rightarrow> int \<Rightarrow> nat" where
  "fof_int F i = with_sign F (i < 0) (fround F (nat \<bar>i\<bar> * 2 ^ scale F) 1)"

text \<open>
  Conversion to an integer truncates; a NaN, an infinity, or a truncated value outside
  \<open>lo \<le> i \<and> i < hi\<close> is undefined in C.
\<close>

definition fto_int :: "fformat \<Rightarrow> int \<Rightarrow> int \<Rightarrow> nat \<Rightarrow> int res" where
  "fto_int F lo hi b = (case fdecode F b of
       FFin s m k \<Rightarrow>
         (let i = (if s then - 1 else 1) * int (m * 2 ^ k div 2 ^ scale F)
          in if lo \<le> i \<and> i < hi then Inr i else Inl (Undefined ''float to integer out of range''))
     | _ \<Rightarrow> Inl (Undefined ''float to integer out of range''))"

definition fconvert :: "fformat \<Rightarrow> fformat \<Rightarrow> nan_choice \<Rightarrow> nat \<Rightarrow> nat" where
  "fconvert F G nan b = (case fdecode F b of
       FNaN \<Rightarrow> nan [b]
     | FInf s \<Rightarrow> with_sign G s (inf_bits G)
     | FFin s m k \<Rightarrow>
         with_sign G s (fround G (m * 2 ^ (k + (scale G - scale F))) (2 ^ (scale F - scale G))))"

section \<open>Exactness\<close>

lemma bitlen_le: "n < 2 ^ j \<Longrightarrow> bitlen n \<le> j"
proof (induction j arbitrary: n)
  case 0
  then show ?case by (simp add: bitlen.simps)
next
  case (Suc j)
  from Suc.prems have "n div 2 < 2 ^ j" by simp
  from Suc.IH [OF this] show ?case by (subst bitlen.simps) simp
qed

lemma bitlen_eq: "2 ^ j \<le> n \<Longrightarrow> n < 2 ^ Suc j \<Longrightarrow> bitlen n = Suc j"
proof (induction j arbitrary: n)
  case 0
  then have "n = 1" by simp
  then show ?case by (simp add: bitlen.simps)
next
  case (Suc j)
  then have "2 ^ j \<le> n div 2" and "n div 2 < 2 ^ Suc j" by simp_all
  with Suc.IH have "bitlen (n div 2) = Suc j" by blast
  moreover from Suc.prems have "n \<noteq> 0" by (metis not_less zero_less_power zero_less_numeral)
  ultimately show ?case by (subst bitlen.simps) simp
qed

lemma bitlen_bounds: "0 < n \<Longrightarrow> 0 < bitlen n \<and> 2 ^ (bitlen n - 1) \<le> n \<and> n < 2 ^ bitlen n"
proof (induction n rule: bitlen.induct)
  case (1 n)
  show ?case
  proof (cases "n div 2 = 0")
    case True
    with 1 have "n = 1" by simp
    then show ?thesis by (simp add: bitlen.simps)
  next
    case False
    with 1 have "0 < bitlen (n div 2)" "2 ^ (bitlen (n div 2) - 1) \<le> n div 2" "n div 2 < 2 ^ bitlen (n div 2)"
      by simp_all
    moreover from this(1) have "(2::nat) ^ bitlen (n div 2) = 2 * 2 ^ (bitlen (n div 2) - 1)"
      by (cases "bitlen (n div 2)") simp_all
    moreover have "bitlen n = Suc (bitlen (n div 2))" using 1 by (subst bitlen.simps) simp
    ultimately show ?thesis by (simp, arith)
  qed
qed

lemma div_even_exact [simp]: "0 < d \<Longrightarrow> div_even (q * d) d = q"
  by (simp add: div_even_def)

text \<open>The pattern of a magnitude below infinity, as significand and binade.\<close>

lemma fdecode_magnitude:
  assumes "mag < inf_bits F" and "mag < sign_weight F"
  shows "fdecode F (with_sign F s mag) =
    (if mag < 2 ^ fracbits F then FFin s mag 0
     else FFin s (2 ^ fracbits F + mag mod 2 ^ fracbits F) (mag div 2 ^ fracbits F - 1))"
proof -
  have sw: "0 < sign_weight F" by (simp add: sign_weight_def)
  have "mag div sign_weight F = 0" and "(sign_weight F + mag) div sign_weight F = 1"
    using assms(2) sw div_add_self1 [of "sign_weight F" mag] by simp_all
  then have sgn: "(with_sign F s mag div sign_weight F = 1) = s"
    and low: "with_sign F s mag mod sign_weight F = mag"
    using assms(2) by (cases s; simp add: with_sign_def)+
  have E: "(mag div 2 ^ fracbits F = 0) = (mag < 2 ^ fracbits F)" by (simp add: div_eq_0_iff)
  show ?thesis
    using assms(1) by (simp add: fdecode_def Let_def sgn [simplified] low E)
qed

lemma inf_bits_less: "inf_bits F < sign_weight F"
  by (simp add: inf_bits_def sign_weight_def power_add algebra_simps)

text \<open>Rounding a value of the format gives back its pattern.\<close>

lemma fround_magnitude:
  assumes "mag < inf_bits F" and "0 < d"
  defines "E \<equiv> mag div 2 ^ fracbits F" and "f \<equiv> mag mod 2 ^ fracbits F"
  shows "fround F ((if E = 0 then f else (2 ^ fracbits F + f) * 2 ^ (E - 1)) * d) d = mag"
proof (cases "E = 0")
  case True
  then have f: "f = mag" "mag < 2 ^ fracbits F" by (simp_all add: E_def f_def div_eq_0_iff)
  then have "bitlen mag - Suc (fracbits F) = 0" using bitlen_le by fastforce
  with f True assms(1,2) show ?thesis by (simp add: fround_def)
next
  case False
  let ?b = "2 ^ fracbits F :: nat" and ?m = "2 ^ fracbits F + f"
  have f: "f < ?b" by (simp add: f_def)
  have n: "?m * 2 ^ (E - 1) * d div d = ?m * 2 ^ (E - 1)" using assms(2) by simp
  have "bitlen (?m * 2 ^ (E - 1)) = Suc (fracbits F + (E - 1))"
  proof (rule bitlen_eq)
    show "2 ^ (fracbits F + (E - 1)) \<le> ?m * 2 ^ (E - 1)" by (simp add: power_add)
    have "?m * 2 ^ (E - 1) < 2 * ?b * 2 ^ (E - 1)" using f by simp
    then show "?m * 2 ^ (E - 1) < 2 ^ Suc (fracbits F + (E - 1))" by (simp add: power_add)
  qed
  then have k: "bitlen (?m * 2 ^ (E - 1) * d div d) - Suc (fracbits F) = E - 1" by (simp only: n)
  have "div_even (?m * 2 ^ (E - 1) * d) (d * 2 ^ (E - 1)) = ?m"
    using div_even_exact [of "d * 2 ^ (E - 1)" ?m] assms(2) by (simp add: ac_simps)
  then have "fround F (?m * 2 ^ (E - 1) * d) d = min (inf_bits F) ((E - 1) * ?b + ?m)"
    by (simp only: fround_def Let_def k)
  also have "(E - 1) * ?b + ?m = mag"
  proof -
    have "(E - 1) * ?b + ?b = E * ?b" using False by (cases E) simp_all
    then show ?thesis using div_mult_mod_eq [of mag ?b] by (simp add: E_def f_def)
  qed
  finally show ?thesis using False assms(1) by simp
qed

lemma fround_fdecode:
  assumes "fdecode F b = FFin s m k" and "0 < d"
  shows "fround F (m * 2 ^ k * d) d = b mod sign_weight F"
proof -
  have mag: "b mod sign_weight F < inf_bits F"
    using assms(1) by (auto simp: fdecode_def Let_def split: if_splits)
  show ?thesis
    using fround_magnitude [OF mag assms(2)] assms(1)
    by (auto simp: fdecode_def Let_def split: if_splits)
qed

lemma fround_exact_decode:
  assumes n: "n = m * 2 ^ j" and m: "m < 2 ^ Suc (fracbits F)"
    and small: "bitlen n - Suc (fracbits F) + 2 < 2 ^ expbits F"
  shows "\<exists>m' k'. fdecode F (with_sign F s (fround F n 1)) = FFin s m' k' \<and> m' * 2 ^ k' = n"
proof -
  let ?b = "2 ^ fracbits F :: nat" and ?k = "bitlen n - Suc (fracbits F)"
  have k: "?k \<le> j"
  proof -
    have "n < 2 ^ (Suc (fracbits F) + j)" using m by (simp add: n power_add)
    from bitlen_le [OF this] show ?thesis by simp
  qed
  then have dvd: "n = m * 2 ^ (j - ?k) * 2 ^ ?k" by (simp add: n power_add [symmetric])
  define q where "q = m * 2 ^ (j - ?k)"
  then have q: "n = q * 2 ^ ?k" using dvd by simp
  have lt: "q < 2 * ?b"
  proof (cases "n = 0")
    case True
    then show ?thesis using q by simp
  next
    case False
    then have "n < 2 ^ bitlen n" using bitlen_bounds [of n] by simp
    also have "\<dots> \<le> 2 ^ (Suc (fracbits F) + ?k)" by (rule power_increasing) simp_all
    finally show ?thesis by (subst (asm) (1) q) (simp add: power_add)
  qed
  have ge: "?b \<le> q" if "0 < ?k"
  proof -
    have "0 < n" using that by (cases "n = 0") simp_all
    then have "2 ^ (bitlen n - 1) \<le> n" using bitlen_bounds by blast
    moreover have "bitlen n - 1 = fracbits F + ?k" using that by simp
    ultimately have "?b * 2 ^ ?k \<le> q * 2 ^ ?k" using q by (simp add: power_add)
    then show ?thesis by simp
  qed
  have "div_even n (2 ^ ?k) = q" by (subst (1) q) simp
  then have fr: "fround F n 1 = min (inf_bits F) (?k * ?b + q)" by (simp add: fround_def)
  have "?k * ?b + q < (?k + 2) * ?b" using lt by simp
  also have "\<dots> \<le> inf_bits F" unfolding inf_bits_def using small by (intro mult_right_mono) simp_all
  finally have below: "?k * ?b + q < inf_bits F" .
  then have mag: "fround F n 1 = ?k * ?b + q" using fr by simp
  have dec: "fdecode F (with_sign F s (?k * ?b + q)) =
      (if ?k * ?b + q < ?b then FFin s (?k * ?b + q) 0
       else FFin s (?b + (?k * ?b + q) mod ?b) ((?k * ?b + q) div ?b - 1))"
    using below inf_bits_less [of F] by (intro fdecode_magnitude) simp_all
  show ?thesis
  proof (cases "q < ?b")
    case True
    then have "?k = 0" using ge by (metis not_less zero_less_iff_neq_zero)
    with True dec mag q show ?thesis by simp
  next
    case False
    then have r: "(q - ?b) < ?b" and q': "q = ?b + (q - ?b)" using lt by simp_all
    have "q mod ?b = q - ?b" using r False by (intro mod_nat_eqI) simp_all
    moreover have "q div ?b = 1" using lt False by (intro div_nat_eqI) simp_all
    ultimately have "(?k * ?b + q) mod ?b = q - ?b" and "(?k * ?b + q) div ?b = ?k + 1"
      by simp_all
    with dec mag False q q' show ?thesis by simp
  qed
qed

lemma fdecode_FFin_bounds:
  assumes "fdecode F b = FFin s m k"
  shows "m < 2 ^ Suc (fracbits F) \<and> k < 2 ^ expbits F"
proof -
  let ?mag = "b mod sign_weight F"
  have "?mag < (2 ^ expbits F - 1) * 2 ^ fracbits F"
    using assms by (auto simp: fdecode_def Let_def inf_bits_def split: if_splits)
  then have "?mag div 2 ^ fracbits F < 2 ^ expbits F - 1" by (rule less_mult_imp_div_less)
  moreover have "?mag mod 2 ^ fracbits F < 2 ^ fracbits F" by simp
  moreover have "m = ?mag mod 2 ^ fracbits F \<and> k = 0
      \<or> m = 2 ^ fracbits F + ?mag mod 2 ^ fracbits F \<and> k = ?mag div 2 ^ fracbits F - 1"
    using assms by (auto simp: fdecode_def Let_def split: if_splits)
  ultimately show ?thesis unfolding power_Suc by linarith
qed

text \<open>Widening a finite value and narrowing it again is the identity.\<close>

lemma fconvert_widen:
  assumes b: "fdecode F b = FFin s m k" and wide: "scale F \<le> scale G" "fracbits F \<le> fracbits G"
    and big: "2 < (2::nat) ^ expbits G"
    and room: "2 ^ expbits F + fracbits F + scale G + 2 < 2 ^ expbits G + fracbits G + scale F"
  shows "fconvert G F nan' (fconvert F G nan b) = with_sign F s (b mod sign_weight F)"
proof -
  let ?e = "scale G - scale F"
  have m: "m < 2 ^ Suc (fracbits F)" and k: "k < 2 ^ expbits F"
    using fdecode_FFin_bounds [OF b] by simp_all
  have "(2::nat) ^ Suc (fracbits F) \<le> 2 ^ Suc (fracbits G)" using wide(2) by (intro power_increasing) simp_all
  with m have m': "m < 2 ^ Suc (fracbits G)" by linarith
  have "m * 2 ^ (k + ?e) < 2 ^ (Suc (fracbits F) + (k + ?e))"
    unfolding power_add [of _ "Suc (fracbits F)"] using m by simp
  from bitlen_le [OF this] have "bitlen (m * 2 ^ (k + ?e)) - Suc (fracbits G) + 2 < 2 ^ expbits G"
    using k room wide big by linarith
  from fround_exact_decode [OF refl m' this, of s] obtain m2 k2 where
    d: "fdecode G (with_sign G s (fround G (m * 2 ^ (k + ?e)) 1)) = FFin s m2 k2" "m2 * 2 ^ k2 = m * 2 ^ (k + ?e)"
    by blast
  have eq: "fconvert F G nan b = with_sign G s (fround G (m * 2 ^ (k + ?e)) 1)"
    using wide(1) by (simp add: fconvert_def b)
  have "fconvert G F nan' (fconvert F G nan b) = with_sign F s (fround F (m2 * 2 ^ k2) (2 ^ ?e))"
    unfolding eq fconvert_def [of G F] d(1) using wide(1) by simp
  also have "m2 * 2 ^ k2 = m * 2 ^ k * 2 ^ ?e" by (simp add: d(2) power_add)
  also have "fround F \<dots> (2 ^ ?e) = b mod sign_weight F" using b by (rule fround_fdecode) simp
  finally show ?thesis .
qed

end
