(* ===== verification/Floats.thy ===== *)
theory Floats
  imports Machine Ieee
begin

text \<open>
  The floating-point registers as \<^verbatim>\<open>src/ext/rv32fd.c\<close> reads and writes them, and the C
  operators and \<^verbatim>\<open>libm\<close> functions the dispatcher applies.  A
  \<^verbatim>\<open>float\<close> is its 32-bit pattern and a \<^verbatim>\<open>double\<close> its 64-bit pattern, so the
  pointer casts of the source are identities here.
\<close>

type_synonym f32 = u32
type_synonym f64 = u64

section \<open>NaN boxing\<close>

definition rvfloat_nanbox_saturate :: "u32 \<Rightarrow> u64" where
  "rvfloat_nanbox_saturate val = ucast val OR 0xffffffff00000000"

definition rvfloat_nanbox_unpack :: "u64 \<Rightarrow> u64" where
  "rvfloat_nanbox_unpack val = ucast (ucast (val AND 0xffffffff) :: u32)"

definition rvfloat_as_f64 :: "u64 \<Rightarrow> f64" where
  "rvfloat_as_f64 val = val"

definition rvfloat_as_u64 :: "f64 \<Rightarrow> u64" where
  "rvfloat_as_u64 val = val"

definition rvfloat_as_f32 :: "u32 \<Rightarrow> f32" where
  "rvfloat_as_f32 val = val"

definition rvfloat_as_u32 :: "f32 \<Rightarrow> u32" where
  "rvfloat_as_u32 val = val"

section \<open>Register access\<close>

definition rvfloat_read_f32 :: "rvstate \<Rightarrow> u8 \<Rightarrow> f32" where
  "rvfloat_read_f32 st freg = rvfloat_as_f32 (ucast (rvfloat_nanbox_unpack (rvmem_freg st freg)))"

definition rvfloat_read_f64 :: "rvstate \<Rightarrow> u8 \<Rightarrow> f64" where
  "rvfloat_read_f64 st freg = rvfloat_as_f64 (rvmem_freg st freg)"

definition rvfloat_write_f32 :: "u8 \<Rightarrow> f32 \<Rightarrow> rvstate \<Rightarrow> rvstate" where
  "rvfloat_write_f32 freg val st = set_freg freg (rvfloat_nanbox_saturate (rvfloat_as_u32 val)) st"

definition rvfloat_write_f64 :: "u8 \<Rightarrow> f64 \<Rightarrow> rvstate \<Rightarrow> rvstate" where
  "rvfloat_write_f64 freg val st = set_freg freg (rvfloat_as_u64 val) st"

section \<open>Operators\<close>

definition nan32 :: "host_env \<Rightarrow> nan_choice" where
  "nan32 env xs = unat (he_nan32 env (map of_nat xs))"

definition nan64 :: "host_env \<Rightarrow> nan_choice" where
  "nan64 env xs = unat (he_nan64 env (map of_nat xs))"

type_synonym binop = "fformat \<Rightarrow> nan_choice \<Rightarrow> nat \<Rightarrow> nat \<Rightarrow> nat"

definition op32 :: "binop \<Rightarrow> host_env \<Rightarrow> f32 \<Rightarrow> f32 \<Rightarrow> f32" where
  "op32 f env a b = of_nat (f binary32 (nan32 env) (unat a) (unat b))"

definition op64 :: "binop \<Rightarrow> host_env \<Rightarrow> f64 \<Rightarrow> f64 \<Rightarrow> f64" where
  "op64 f env a b = of_nat (f binary64 (nan64 env) (unat a) (unat b))"

definition sqrtf :: "host_env \<Rightarrow> f32 \<Rightarrow> f32" where
  "sqrtf env a = of_nat (fsqrt binary32 (nan32 env) (unat a))"

definition sqrt64 :: "host_env \<Rightarrow> f64 \<Rightarrow> f64" where
  "sqrt64 env a = of_nat (fsqrt binary64 (nan64 env) (unat a))"

text \<open>The minimum keeps the first operand when it is below, the maximum when it is above.\<close>

definition fmin :: "host_env \<Rightarrow> binop" where
  "fmin env F nan a b = fpick (<) F nan (he_first_zero env) a b"

definition fmax :: "host_env \<Rightarrow> binop" where
  "fmax env F nan a b = fpick (>) F nan (he_first_zero env) a b"

definition cmp32 :: "(int \<Rightarrow> int \<Rightarrow> bool) \<Rightarrow> f32 \<Rightarrow> f32 \<Rightarrow> bool" where
  "cmp32 R a b = fcompare R binary32 (unat a) (unat b)"

definition cmp64 :: "(int \<Rightarrow> int \<Rightarrow> bool) \<Rightarrow> f64 \<Rightarrow> f64 \<Rightarrow> bool" where
  "cmp64 R a b = fcompare R binary64 (unat a) (unat b)"

text \<open>Unary minus and \<^verbatim>\<open>copysign\<close> act on the sign bit alone, of a NaN too.\<close>

definition neg32 :: "f32 \<Rightarrow> f32" where
  "neg32 a = a XOR 0x80000000"

definition neg64 :: "f64 \<Rightarrow> f64" where
  "neg64 a = a XOR 0x8000000000000000"

definition copysignf :: "f32 \<Rightarrow> f32 \<Rightarrow> f32" where
  "copysignf a b = (a AND 0x7FFFFFFF) OR (b AND 0x80000000)"

definition copysign :: "f64 \<Rightarrow> f64 \<Rightarrow> f64" where
  "copysign a b = (a AND 0x7FFFFFFFFFFFFFFF) OR (b AND 0x8000000000000000)"

section \<open>Conversions\<close>

definition f32_to_i32 :: "f32 \<Rightarrow> u32 res" where
  "f32_to_i32 a = rbind (fto_int binary32 (- (2 ^ 31)) (2 ^ 31) (unat a)) (\<lambda>i. Inr (of_int i))"

definition f32_to_u32 :: "f32 \<Rightarrow> u32 res" where
  "f32_to_u32 a = rbind (fto_int binary32 0 (2 ^ 32) (unat a)) (\<lambda>i. Inr (of_int i))"

definition f64_to_i32 :: "f64 \<Rightarrow> u32 res" where
  "f64_to_i32 a = rbind (fto_int binary64 (- (2 ^ 31)) (2 ^ 31) (unat a)) (\<lambda>i. Inr (of_int i))"

definition f64_to_u32 :: "f64 \<Rightarrow> u32 res" where
  "f64_to_u32 a = rbind (fto_int binary64 0 (2 ^ 32) (unat a)) (\<lambda>i. Inr (of_int i))"

definition f64_to_f32 :: "host_env \<Rightarrow> f64 \<Rightarrow> f32" where
  "f64_to_f32 env a = of_nat (fconvert binary64 binary32 (nan32 env) (unat a))"

definition f32_to_f64 :: "host_env \<Rightarrow> f32 \<Rightarrow> f64" where
  "f32_to_f64 env a = of_nat (fconvert binary32 binary64 (nan64 env) (unat a))"

definition rvfloat_cvt_f32_from_i32 :: "u8 \<Rightarrow> u32 \<Rightarrow> rvstate \<Rightarrow> rvstate" where
  "rvfloat_cvt_f32_from_i32 freg val st = rvfloat_write_f32 freg (of_nat (fof_int binary32 (sint val))) st"

definition rvfloat_cvt_f32_from_u32 :: "u8 \<Rightarrow> u32 \<Rightarrow> rvstate \<Rightarrow> rvstate" where
  "rvfloat_cvt_f32_from_u32 freg val st = rvfloat_write_f32 freg (of_nat (fof_int binary32 (uint val))) st"

definition rvfloat_cvt_f64_from_i32 :: "u8 \<Rightarrow> u32 \<Rightarrow> rvstate \<Rightarrow> rvstate" where
  "rvfloat_cvt_f64_from_i32 freg val st = rvfloat_write_f64 freg (of_nat (fof_int binary64 (sint val))) st"

definition rvfloat_cvt_f64_from_u32 :: "u8 \<Rightarrow> u32 \<Rightarrow> rvstate \<Rightarrow> rvstate" where
  "rvfloat_cvt_f64_from_u32 freg val st = rvfloat_write_f64 freg (of_nat (fof_int binary64 (uint val))) st"

lemmas float_view_defs = rvfloat_as_f64_def rvfloat_as_u64_def rvfloat_as_f32_def rvfloat_as_u32_def

section \<open>Boxing round trips\<close>

lemma ucast_u64_u32 [simp]: "ucast (ucast (v :: u32) :: u64) = v"
  by (rule bit_word_eqI) (simp add: bit_simps)

lemma unpack_saturate [simp]: "rvfloat_nanbox_unpack (rvfloat_nanbox_saturate v) = ucast v"
proof -
  have low: "(w AND 0xffffffff) = take_bit 32 w" for w :: u64
    by (simp add: take_bit_eq_mask mask_eq_exp_minus_1)
  have boxed: "(0xffffffff00000000 :: u64) = push_bit 32 0xffffffff" by simp
  have "(ucast (take_bit 32 (ucast v OR push_bit 32 0xffffffff :: u64)) :: u32) = v"
    by (rule bit_word_eqI)
      (simp only: bit_unsigned_iff bit_take_bit_iff bit_or_iff bit_push_bit_iff, auto)
  then show ?thesis
    by (simp only: rvfloat_nanbox_unpack_def rvfloat_nanbox_saturate_def low boxed)
qed

lemma read_write_f32:
  "fregs_wf st \<Longrightarrow> unat r < 32 \<Longrightarrow>
     rvfloat_read_f32 (rvfloat_write_f32 r v st) q = (if r = q then v else rvfloat_read_f32 st q)"
  by (simp add: rvfloat_read_f32_def rvfloat_write_f32_def float_view_defs float_regs.get_set)

lemma read_write_f64:
  "fregs_wf st \<Longrightarrow> unat r < 32 \<Longrightarrow>
     rvfloat_read_f64 (rvfloat_write_f64 r v st) q = (if r = q then v else rvfloat_read_f64 st q)"
  by (simp add: rvfloat_read_f64_def rvfloat_write_f64_def float_view_defs float_regs.get_set)

lemma state_ok_write_float [simp]:
  "state_ok (rvfloat_write_f32 r v st) = state_ok st" "state_ok (rvfloat_write_f64 r w st) = state_ok st"
  "state_ok (rvfloat_cvt_f32_from_i32 r x st) = state_ok st"
  "state_ok (rvfloat_cvt_f32_from_u32 r x st) = state_ok st"
  "state_ok (rvfloat_cvt_f64_from_i32 r x st) = state_ok st"
  "state_ok (rvfloat_cvt_f64_from_u32 r x st) = state_ok st"
  by (simp_all add: rvfloat_write_f32_def rvfloat_write_f64_def rvfloat_cvt_f32_from_i32_def
      rvfloat_cvt_f32_from_u32_def rvfloat_cvt_f64_from_i32_def rvfloat_cvt_f64_from_u32_def)

end
