(* ===== verification/Syscalls.thy ===== *)
theory Syscalls
  imports Machine Repr
begin

text \<open>
  The system calls of \<^verbatim>\<open>src/syscall.c\<close> and their selection,
  \<^verbatim>\<open>rvemu_dispatch_syscall\<close> of \<^verbatim>\<open>src/dispatch.c\<close>.  The host's answers come from
  the parameter \<open>env\<close>.  The program break is specified by an abstract break pointer that
  \<^verbatim>\<open>rvsysc_brk\<close> refines.
\<close>

section \<open>Numbers\<close>

definition RV_SYSCALL__READ :: u32 where
  "RV_SYSCALL__READ = 63"

definition RV_SYSCALL__WRITE :: u32 where
  "RV_SYSCALL__WRITE = 64"

definition RV_SYSCALL__FSTAT :: u32 where
  "RV_SYSCALL__FSTAT = 80"

definition RV_SYSCALL__EXIT :: u32 where
  "RV_SYSCALL__EXIT = 93"

definition RV_SYSCALL__BRK :: u32 where
  "RV_SYSCALL__BRK = 214"

lemmas syscall_number_defs = RV_SYSCALL__READ_def RV_SYSCALL__WRITE_def RV_SYSCALL__FSTAT_def
  RV_SYSCALL__EXIT_def RV_SYSCALL__BRK_def

section \<open>The calls\<close>

text \<open>A call returns its result, an \<^verbatim>\<open>iword_t\<close>, with the state it leaves.\<close>

type_synonym sysc = "(u32 \<times> rvstate) res"

definition rvsysc_read :: "u32 \<Rightarrow> hptr \<Rightarrow> u32 \<Rightarrow> rvstate \<Rightarrow> sysc" where
  "rvsysc_read fd buff count st = Inr (0, emit (ReadNotice fd buff count) st)"

definition rvsysc_write :: "host_env \<Rightarrow> u32 \<Rightarrow> hptr \<Rightarrow> u32 \<Rightarrow> rvstate \<Rightarrow> sysc" where
  "rvsysc_write env fd buff count st =
     rbind (hread (host st) buff (unat count)) (\<lambda>bs.
       Inr (he_write env (trace st) fd bs, emit (HostWrite fd bs) st))"

definition rvsysc_exit :: "u32 \<Rightarrow> rvstate \<Rightarrow> sysc" where
  "rvsysc_exit code st = Inr (0, (emit (ExitNotice code) st)\<lparr>suspended := True\<rparr>)"

definition rvsysc_fstat :: "host_env \<Rightarrow> u32 \<Rightarrow> hptr \<Rightarrow> rvstate \<Rightarrow> sysc" where
  "rvsysc_fstat env fd buff st =
     (let (r, bs) = he_fstat env (trace st) fd
      in if r = 0 then rbind (hwrite (host st) buff bs) (\<lambda>h. Inr (r, st\<lparr>host := h\<rparr>))
         else Inr (r, st))"

definition rvsysc_brk :: "u32 \<Rightarrow> rvstate \<Rightarrow> sysc" where
  "rvsysc_brk brk st = (case elf_get_heap_region (mem st) of
       None \<Rightarrow> Inl (Undefined ''null pointer'')
     | Some i \<Rightarrow>
         (let heap = load_regions (mem st) ! i;
              min_brk = vma_base heap;
              current_brk = min_brk + sz_alloc heap;
              max_brk = vma_base heap + sz_reserved heap
          in if brk = 0 then Inr (current_brk, st)
             else if brk < min_brk \<or> brk > max_brk then Inr (current_brk, st)
             else let heap' = heap\<lparr>sz_alloc := sz_alloc heap + (brk - current_brk)\<rparr>
               in Inr (brk, st\<lparr>mem := (mem st)\<lparr>load_regions := (load_regions (mem st))[i := heap']\<rparr>\<rparr>)))"

section \<open>Selection\<close>

definition REGARGPn :: "rvstate \<Rightarrow> nat \<Rightarrow> u32" where
  "REGARGPn st n = regs st ! (10 + n)"

definition set_result :: "sysc \<Rightarrow> rvstate res" where
  "set_result r = rbind r (\<lambda>(v, st). Inr (st\<lparr>regs := (regs st)[10 := v]\<rparr>))"

definition rvemu_dispatch_syscall :: "host_env \<Rightarrow> rvstate \<Rightarrow> rvstate res" where
  "rvemu_dispatch_syscall env st =
     (let syscall_no = regs st ! 17 in switch syscall_no
       [(RV_SYSCALL__READ, rbind (rvmem_at st (REGARGPn st 1)) (\<lambda>buff.
          set_result (rvsysc_read (REGARGPn st 0) buff (REGARGPn st 2) st))),
        (RV_SYSCALL__WRITE, rbind (rvmem_at st (REGARGPn st 1)) (\<lambda>buff.
          set_result (rvsysc_write env (REGARGPn st 0) buff (REGARGPn st 2) st))),
        (RV_SYSCALL__EXIT, rbind (rvsysc_exit (REGARGPn st 0) st) (\<lambda>(_, st'). Inr st')),
        (RV_SYSCALL__FSTAT, rbind (rvmem_at st (REGARGPn st 1)) (\<lambda>buff.
          set_result (rvsysc_fstat env (REGARGPn st 0) buff st))),
        (RV_SYSCALL__BRK, set_result (rvsysc_brk (REGARGPn st 0) st))]
       (Inr ((emit (Stdout ''unrecognized syscall, suspending emulator...'') st)\<lparr>suspended := True\<rparr>)))"

text \<open>The ways a system call returns.\<close>

lemma dispatch_syscallE:
  assumes "rvemu_dispatch_syscall env st = Inr st'"
  obtains
    (answered) e v where "st' = (emit e st)\<lparr>regs := (regs st)[10 := v]\<rparr>"
  | (suspends) e where "st' = (emit e st)\<lparr>suspended := True\<rparr>"
  | (stat_failed) v where "st' = st\<lparr>regs := (regs st)[10 := v]\<rparr>"
  | (stat) p bs h v where "hwrite (host st) p bs = Inr h" "st' = st\<lparr>host := h, regs := (regs st)[10 := v]\<rparr>"
  | (break) x v st1 where "rvsysc_brk x st = Inr (v, st1)" "st' = st1\<lparr>regs := (regs st1)[10 := v]\<rparr>"
proof -
  obtain r bs where f: "he_fstat env (trace st) (REGARGPn st 0) = (r, bs)" by fastforce
  consider "regs st ! 17 = RV_SYSCALL__READ" | "regs st ! 17 = RV_SYSCALL__WRITE"
    | "regs st ! 17 = RV_SYSCALL__FSTAT" | "regs st ! 17 = RV_SYSCALL__BRK"
    | "regs st ! 17 \<notin> {RV_SYSCALL__READ, RV_SYSCALL__WRITE, RV_SYSCALL__FSTAT, RV_SYSCALL__BRK}"
    by blast
  then show thesis
  proof cases
    case 1
    then show thesis using assms answered
      by (auto simp: rvemu_dispatch_syscall_def rbind_eq_Inr set_result_def rvsysc_read_def emit_def)
  next
    case 2
    then show thesis using assms answered
      by (auto simp: rvemu_dispatch_syscall_def rbind_eq_Inr set_result_def rvsysc_write_def emit_def
          syscall_number_defs)
  next
    case 3
    then show thesis using assms stat stat_failed
      by (auto simp: rvemu_dispatch_syscall_def rbind_eq_Inr set_result_def rvsysc_fstat_def f
          syscall_number_defs split: if_splits)
  next
    case 4
    then show thesis using assms break
      by (auto simp: rvemu_dispatch_syscall_def rbind_eq_Inr set_result_def syscall_number_defs)
  next
    case 5
    then show thesis using assms suspends
      by (auto simp: rvemu_dispatch_syscall_def Let_def rvsysc_exit_def split: if_splits)
  qed
qed

section \<open>The invariant\<close>

lemma state_ok_set_a0: "state_ok (st\<lparr>regs := (regs st)[k := v]\<rparr>) = state_ok st"
  by (simp add: state_ok_def regs_wf_def fregs_wf_def)

lemma state_ok_set_alloc:
  assumes "state_ok st" and "i < length (load_regions (mem st))"
  shows "state_ok (st\<lparr>mem := (mem st)\<lparr>load_regions :=
    (load_regions (mem st))[i := (load_regions (mem st) ! i)\<lparr>sz_alloc := n\<rparr>]\<rparr>\<rparr>)"
proof -
  let ?rs = "load_regions (mem st)" and ?r = "(load_regions (mem st) ! i)\<lparr>sz_alloc := n\<rparr>"
  have same: "region_backed h ?r = region_backed h (?rs ! i)" "blocks_apart ?r s = blocks_apart (?rs ! i) s"
    "blocks_apart s ?r = blocks_apart s (?rs ! i)" for h s
    by (simp_all add: region_backed_def blocks_apart_def)
  have "regions_backed (host st) (?rs[i := ?r])"
    using assms by (auto simp: state_ok_def regions_backed_def list_all_length sorted_wrt_iff_nth_less
        nth_list_update same)
  then show ?thesis using assms(1) by (simp add: state_ok_def regs_wf_def fregs_wf_def)
qed

lemma state_ok_hwrite:
  assumes "hwrite (host st) p bs = Inr h" and "state_ok st"
  shows "state_ok (st\<lparr>host := h\<rparr>)"
proof -
  have "regions_backed h (load_regions (mem st)) = regions_backed (host st) (load_regions (mem st))"
    using hwrite_live [OF assms(1)] by (rule regions_backed_live)
  with assms(2) hwrite_heap_ok [OF assms(1)] show ?thesis
    by (simp add: state_ok_def regs_wf_def fregs_wf_def)
qed

lemma elf_get_heap_region_less:
  "elf_get_heap_region ctx = Some i \<Longrightarrow>
     i < length (load_regions ctx) \<and> tag (load_regions ctx ! i) = Some REGION_TAG_HEAP"
  by (auto simp: elf_get_heap_region_def elf_get_region_by_tag_Some nr_regions_def)

lemma state_ok_rvsysc_brk:
  "rvsysc_brk brk st = Inr (v, st') \<Longrightarrow> state_ok st \<Longrightarrow> state_ok st'"
  by (auto simp: rvsysc_brk_def Let_def dest: elf_get_heap_region_less intro: state_ok_set_alloc
      split: option.splits if_splits)

lemma state_ok_dispatch_syscall:
  assumes "rvemu_dispatch_syscall env st = Inr st'" and "state_ok st"
  shows "state_ok st'"
  using assms(1)
proof (cases rule: dispatch_syscallE)
  case (stat p bs h v)
  then show ?thesis
    using state_ok_hwrite [OF stat(1) assms(2)] state_ok_set_a0 [of "st\<lparr>host := h\<rparr>" 10 v] by simp
next
  case (break x v st1)
  then show ?thesis using state_ok_rvsysc_brk [OF break(1) assms(2)] by (simp add: state_ok_set_a0)
qed (use assms(2) in \<open>auto simp: emit_def state_ok_def regs_wf_def fregs_wf_def\<close>)

section \<open>The program break\<close>

text \<open>
  The abstract specification: a break pointer between two bounds, moved by a request that lies
  within them and left alone by any other.  The contract is stated for any implementation; its
  lemma says what a sequence of requests does.
\<close>

definition brk_spec :: "nat \<Rightarrow> nat \<Rightarrow> nat \<Rightarrow> nat \<Rightarrow> nat" where
  "brk_spec lo hi cur x = (if x \<noteq> 0 \<and> lo \<le> x \<and> x \<le> hi then x else cur)"

locale program_break =
  fixes call :: "'s \<Rightarrow> u32 \<Rightarrow> u32 \<Rightarrow> 's \<Rightarrow> bool"
    and pos :: "'s \<Rightarrow> nat" and lo :: "'s \<Rightarrow> nat" and hi :: "'s \<Rightarrow> nat" and inv :: "'s \<Rightarrow> bool"
  assumes total: "inv s \<Longrightarrow> \<exists>r s'. call s x r s'"
    and keeps: "inv s \<Longrightarrow> call s x r s' \<Longrightarrow> inv s' \<and> lo s' = lo s \<and> hi s' = hi s"
    and moves: "inv s \<Longrightarrow> call s x r s' \<Longrightarrow> pos s' = brk_spec (lo s) (hi s) (pos s) (unat x)"
    and reports: "inv s \<Longrightarrow> call s x r s' \<Longrightarrow> unat r = pos s'"
    and bounded: "inv s \<Longrightarrow> lo s \<le> pos s \<and> pos s \<le> hi s"
begin

text \<open>The states along a sequence of calls.\<close>

fun calls :: "'s \<Rightarrow> u32 list \<Rightarrow> 's \<Rightarrow> bool" where
  "calls s [] t \<longleftrightarrow> t = s"
| "calls s (x # xs) t \<longleftrightarrow> (\<exists>r s'. call s x r s' \<and> calls s' xs t)"

lemma calls_total: "inv s \<Longrightarrow> \<exists>t. calls s xs t"
proof (induction xs arbitrary: s)
  case Nil
  then show ?case by simp
next
  case (Cons x xs)
  then obtain r s' where "call s x r s'" using total by blast
  with Cons keeps show ?case by fastforce
qed

lemma calls_pos:
  "inv s \<Longrightarrow> calls s xs t \<Longrightarrow> inv t \<and> pos t = foldl (brk_spec (lo s) (hi s)) (pos s) (map unat xs)"
proof (induction xs arbitrary: s)
  case Nil
  then show ?case by simp
next
  case (Cons x xs)
  then obtain r s' where c: "call s x r s'" "calls s' xs t" by auto
  with Cons.prems keeps have "inv s'" "lo s' = lo s" "hi s' = hi s" by blast+
  with Cons.IH c moves [OF Cons.prems(1) c(1)] show ?case by simp
qed

text \<open>Asking where the break is changes nothing and reports what the last call reported.\<close>

lemma query_after:
  assumes "inv s" and "call s x r s'" and "call s' 0 q t"
  shows "q = r \<and> pos t = pos s'"
proof -
  have i: "inv s'" using assms keeps by blast
  have "pos t = pos s'" using moves [OF i assms(3)] by (simp add: brk_spec_def)
  moreover have "unat q = pos t" "unat r = pos s'" using reports i assms by blast+
  ultimately show ?thesis by (simp add: word_unat_eq_iff)
qed

end

text \<open>The implementation's break: the allocated part of the region tagged as heap.\<close>

definition heap_region :: "rvstate \<Rightarrow> elf_load_region" where
  "heap_region st = load_regions (mem st) ! the (elf_get_heap_region (mem st))"

definition brk_lo :: "rvstate \<Rightarrow> nat" where
  "brk_lo st = unat (vma_base (heap_region st))"

definition brk_hi :: "rvstate \<Rightarrow> nat" where
  "brk_hi st = unat (vma_base (heap_region st)) + unat (sz_reserved (heap_region st))"

definition brk_pos :: "rvstate \<Rightarrow> nat" where
  "brk_pos st = unat (vma_base (heap_region st)) + unat (sz_alloc (heap_region st))"

definition brk_inv :: "rvstate \<Rightarrow> bool" where
  "brk_inv st \<longleftrightarrow> elf_get_heap_region (mem st) \<noteq> None \<and> region_fits (heap_region st)
     \<and> unat (sz_alloc (heap_region st)) \<le> unat (sz_reserved (heap_region st))"

lemma region_by_tag_loop_tags:
  "map tag rs = map tag rs' \<Longrightarrow> region_by_tag_loop rs k x = region_by_tag_loop rs' k x"
  by (induction rs rs' arbitrary: k rule: list_induct2') auto

lemma heap_region_after:
  assumes "elf_get_heap_region (mem st) = Some i"
    and "st' = st\<lparr>mem := (mem st)\<lparr>load_regions :=
      (load_regions (mem st))[i := (load_regions (mem st) ! i)\<lparr>sz_alloc := n\<rparr>]\<rparr>\<rparr>"
  shows "elf_get_heap_region (mem st') = Some i
    \<and> heap_region st' = (load_regions (mem st) ! i)\<lparr>sz_alloc := n\<rparr>"
proof -
  let ?rs = "load_regions (mem st)"
  let ?rs' = "?rs[i := (?rs ! i)\<lparr>sz_alloc := n\<rparr>]"
  have i: "i < length ?rs" using elf_get_heap_region_less [OF assms(1)] by simp
  have "map tag ?rs' = map tag ?rs"
    using i by (simp add: map_update list_update_same_conv)
  from region_by_tag_loop_tags [OF this] have "elf_get_heap_region (mem st') = elf_get_heap_region (mem st)"
    by (simp add: elf_get_heap_region_def elf_get_region_by_tag_def assms(2))
  then have e: "elf_get_heap_region (mem st') = Some i" by (simp only: assms(1))
  have "load_regions (mem st') ! i = (?rs ! i)\<lparr>sz_alloc := n\<rparr>" using i by (simp add: assms(2))
  then show ?thesis by (simp add: heap_region_def e)
qed

lemma unat_plus: "unat a + unat b < 2 ^ 32 \<Longrightarrow> unat (a + b :: u32) = unat a + unat b"
  using unat_add_lem [of a b] by simp

lemma rvsysc_brk_total: "brk_inv st \<Longrightarrow> \<exists>v st'. rvsysc_brk x st = Inr (v, st')"
  by (auto simp: rvsysc_brk_def brk_inv_def Let_def)

lemma rvsysc_brk_step:
  assumes inv: "brk_inv st" and call: "rvsysc_brk x st = Inr (v, st')"
  shows "brk_inv st' \<and> brk_lo st' = brk_lo st \<and> brk_hi st' = brk_hi st
    \<and> brk_pos st' = brk_spec (brk_lo st) (brk_hi st) (brk_pos st) (unat x) \<and> unat v = brk_pos st'"
proof -
  obtain i where i: "elf_get_heap_region (mem st) = Some i" using inv by (auto simp: brk_inv_def)
  define r where "r = load_regions (mem st) ! i"
  have hr: "heap_region st = r" by (simp add: heap_region_def i r_def)
  have fits: "unat (vma_base r) + unat (sz_reserved r) < 2 ^ 32" "unat (sz_alloc r) \<le> unat (sz_reserved r)"
    using inv by (simp_all add: brk_inv_def region_fits_def hr)
  have cur: "unat (vma_base r + sz_alloc r) = brk_pos st"
    using fits by (subst unat_plus) (simp_all add: brk_pos_def hr)
  have hi: "unat (vma_base r + sz_reserved r) = brk_hi st"
    using fits by (subst unat_plus) (simp_all add: brk_hi_def hr)
  show ?thesis
  proof (cases "x \<noteq> 0 \<and> \<not> x < vma_base r \<and> \<not> x > vma_base r + sz_reserved r")
    case False
    then have v: "v = vma_base r + sz_alloc r" "st' = st"
      using call by (auto simp: rvsysc_brk_def i Let_def r_def [symmetric] split: if_splits)
    have "\<not> (unat x \<noteq> 0 \<and> brk_lo st \<le> unat x \<and> unat x \<le> brk_hi st)"
      using False hi by (auto simp: word_less_nat_alt brk_lo_def hr unat_eq_0)
    then have "brk_spec (brk_lo st) (brk_hi st) (brk_pos st) (unat x) = brk_pos st"
      by (auto simp: brk_spec_def)
    with v cur inv show ?thesis by simp
  next
    case True
    have in_range: "unat x \<noteq> 0 \<and> brk_lo st \<le> unat x \<and> unat x \<le> brk_hi st"
      using True hi by (auto simp: word_less_nat_alt brk_lo_def hr unat_eq_0)
    define a where "a = sz_alloc r + (x - (vma_base r + sz_alloc r))"
    have v: "v = x" "st' = st\<lparr>mem := (mem st)\<lparr>load_regions := (load_regions (mem st))[i := r\<lparr>sz_alloc := a\<rparr>]\<rparr>\<rparr>"
      using call True by (auto simp: rvsysc_brk_def i Let_def r_def [symmetric] a_def split: if_splits)
    have hr': "elf_get_heap_region (mem st') = Some i \<and> heap_region st' = r\<lparr>sz_alloc := a\<rparr>"
      using heap_region_after [OF i v(2) [unfolded r_def]] by (simp add: r_def)
    have "a = x - vma_base r" by (simp add: a_def)
    then have a: "unat a = unat x - unat (vma_base r)"
      using True by (simp add: sub_unat not_less)
    show ?thesis
      using in_range fits hr' a
      by (auto simp: brk_inv_def brk_lo_def brk_hi_def brk_pos_def brk_spec_def region_fits_def hr v)
  qed
qed

interpretation guest_break: program_break "\<lambda>st x v st'. rvsysc_brk x st = Inr (v, st')" brk_pos brk_lo brk_hi brk_inv
proof
  show "brk_inv s \<Longrightarrow> brk_lo s \<le> brk_pos s \<and> brk_pos s \<le> brk_hi s" for s
    by (simp add: brk_inv_def brk_lo_def brk_hi_def brk_pos_def)
qed (use rvsysc_brk_total rvsysc_brk_step in blast)+

fun brk_calls :: "u32 list \<Rightarrow> rvstate \<Rightarrow> rvstate res" where
  "brk_calls [] st = Inr st"
| "brk_calls (x # xs) st = rbind (rvsysc_brk x st) (\<lambda>(_, st'). brk_calls xs st')"

lemma brk_calls_iff: "brk_calls xs st = Inr t \<longleftrightarrow> guest_break.calls st xs t"
  by (induction xs arbitrary: st) (auto simp: rbind_eq_Inr)

text \<open>
  C18: the program break behaves as specified.  From a state with a heap region, any sequence of
  \<^verbatim>\<open>brk\<close> calls succeeds, keeps the break within the region, and leaves it at the last
  request that lay between the region's start and end, or where it was if there was none.
\<close>
theorem rvsysc_brk_sequence:
  assumes "brk_inv st"
  shows "\<exists>t. brk_calls xs st = Inr t \<and> brk_inv t
    \<and> brk_pos t = foldl (brk_spec (brk_lo st) (brk_hi st)) (brk_pos st) (map unat xs)"
  using guest_break.calls_total [OF assms, of xs] guest_break.calls_pos [OF assms] brk_calls_iff
  by blast

definition demo_heap_state :: rvstate where
  "demo_heap_state = blank_state\<lparr>mem := context_zero\<lparr>load_regions :=
     [\<lparr>vma_base = 0x2000, mem_base = 16, sz_alloc = 0, sz_reserved = 0x100000,
       tag = Some REGION_TAG_HEAP\<rparr>]\<rparr>\<rparr>"

lemma demo_heap_region:
  "elf_get_heap_region (mem demo_heap_state) = Some 0"
  "heap_region demo_heap_state = \<lparr>vma_base = 0x2000, mem_base = 16, sz_alloc = 0,
     sz_reserved = 0x100000, tag = Some REGION_TAG_HEAP\<rparr>"
  by (simp_all add: elf_get_heap_region_def elf_get_region_by_tag_def heap_region_def demo_heap_state_def
      context_zero_def)

theorem rvsysc_brk_sequence_witness:
  "\<exists>t. brk_calls [0, 0x3000, 1, 0x2800] demo_heap_state = Inr t \<and> brk_inv t \<and> brk_pos t = 0x2800"
proof -
  have "brk_inv demo_heap_state" by (simp add: brk_inv_def demo_heap_region region_fits_def)
  from rvsysc_brk_sequence [OF this, of "[0, 0x3000, 1, 0x2800]"] show ?thesis
    by (simp add: brk_lo_def brk_hi_def brk_pos_def demo_heap_region brk_spec_def)
qed

lemma dispatch_write:
  assumes "state_ok st" and "layout_ok st" and "regs st ! 17 = RV_SYSCALL__WRITE"
    and "access_ok st (regs st ! 11) (unat (regs st ! 12))"
  shows "\<exists>bs. guest_read st (regs st ! 11) (unat (regs st ! 12)) = Inr bs
    \<and> rvemu_dispatch_syscall env st = Inr (st\<lparr>trace := trace st @ [HostWrite (regs st ! 10) bs],
        regs := (regs st)[10 := he_write env (trace st) (regs st ! 10) bs]\<rparr>)"
proof -
  obtain bs where bs: "guest_read st (regs st ! 11) (unat (regs st ! 12)) = Inr bs"
    using access_ok_read [OF assms(1,2,4)] by blast
  then obtain p where "rvmem_at st (regs st ! 11) = Inr p" "hread (host st) p (unat (regs st ! 12)) = Inr bs"
    by (auto simp: guest_read_def rbind_eq_Inr)
  then have "rvemu_dispatch_syscall env st = Inr (st\<lparr>trace := trace st @ [HostWrite (regs st ! 10) bs],
        regs := (regs st)[10 := he_write env (trace st) (regs st ! 10) bs]\<rparr>)"
    using assms(3)
    by (simp add: rvemu_dispatch_syscall_def syscall_number_defs REGARGPn_def rvsysc_write_def
        set_result_def emit_def)
  with bs show ?thesis by blast
qed

text \<open>
  C19: a \<^verbatim>\<open>write\<close> of a buffer that lies in one region hands the host exactly the guest's
  bytes, puts the host's answer in \<open>a0\<close>, and changes nothing else.
\<close>
theorem syscall_write_bytes:
  assumes "state_ok st" and "layout_ok st" and "regs st ! 17 = RV_SYSCALL__WRITE"
    and "access_ok st (regs st ! 11) (unat (regs st ! 12))"
  shows "\<exists>bs. guest_read st (regs st ! 11) (unat (regs st ! 12)) = Inr bs
    \<and> rvemu_dispatch_syscall env st = Inr (st\<lparr>trace := trace st @ [HostWrite (regs st ! 10) bs],
        regs := (regs st)[10 := he_write env (trace st) (regs st ! 10) bs]\<rparr>)"
  using assms by (rule dispatch_write)

definition demo_write_state :: rvstate where
  "demo_write_state = small_state\<lparr>regs := (replicate 32 0)[17 := 64, 10 := 1, 11 := 0x1008, 12 := 5]\<rparr>"

lemma demo_write_ok:
  "state_ok demo_write_state" "layout_ok demo_write_state" "regs demo_write_state ! 17 = RV_SYSCALL__WRITE"
  "access_ok demo_write_state (regs demo_write_state ! 11) (unat (regs demo_write_state ! 12))"
  "\<not> suspended demo_write_state"
  using small_state_ok
  by (simp_all add: demo_write_state_def state_ok_def layout_ok_def regs_wf_def fregs_wf_def RISCV_REGCOUNT_def
      RV_SYSCALL__WRITE_def access_ok_def in_region_def small_state_def blank_state_def context_zero_def)

theorem syscall_write_bytes_witness:
  "\<exists>bs. guest_read demo_write_state 0x1008 5 = Inr bs
    \<and> rvemu_dispatch_syscall demo_env demo_write_state =
        Inr (demo_write_state\<lparr>trace := [HostWrite 1 bs],
          regs := (regs demo_write_state)[10 := of_nat (length bs)]\<rparr>)"
proof -
  have "regs demo_write_state ! 10 = 1"
    "regs demo_write_state ! 11 = 0x1008" "regs demo_write_state ! 12 = 5" "trace demo_write_state = []"
    by (simp_all add: demo_write_state_def small_state_def blank_state_def)
  then show ?thesis
    using syscall_write_bytes [OF demo_write_ok(1-4), of demo_env] by (simp add: demo_env_def)
qed

text \<open>What the four calls that return to the program leave alone.\<close>

lemma supported_call_continues:
  assumes "rvemu_dispatch_syscall env st = Inr st'"
    and "regs st ! 17 \<in> {RV_SYSCALL__READ, RV_SYSCALL__WRITE, RV_SYSCALL__FSTAT, RV_SYSCALL__BRK}"
  shows "suspended st' = suspended st \<and> pc st' = pc st"
proof -
  obtain r bs where "he_fstat env (trace st) (REGARGPn st 0) = (r, bs)" by fastforce
  with assms show ?thesis
    by (auto simp: rvemu_dispatch_syscall_def syscall_number_defs set_result_def rbind_eq_Inr rvsysc_read_def
        rvsysc_write_def rvsysc_fstat_def rvsysc_brk_def emit_def Let_def split: if_splits option.splits)
qed

text \<open>
  C20: of the system calls exactly \<^verbatim>\<open>exit\<close> and the numbers outside the five supported calls
  suspend the emulator.  They leave registers and memory alone and report once, \<^verbatim>\<open>exit\<close> with
  its code; reading, writing, \<^verbatim>\<open>fstat\<close> and \<^verbatim>\<open>brk\<close>, when they return, leave the suspended
  flag and the program counter as they were.
\<close>
theorem syscall_suspends:
  "if regs st ! 17 \<in> {RV_SYSCALL__READ, RV_SYSCALL__WRITE, RV_SYSCALL__FSTAT, RV_SYSCALL__BRK}
   then \<forall>st'. rvemu_dispatch_syscall env st = Inr st' \<longrightarrow> suspended st' = suspended st \<and> pc st' = pc st
   else \<exists>e. rvemu_dispatch_syscall env st = Inr (st\<lparr>trace := trace st @ [e], suspended := True\<rparr>)
     \<and> (regs st ! 17 = RV_SYSCALL__EXIT \<longrightarrow> e = ExitNotice (regs st ! 10))"
proof (cases "regs st ! 17 \<in> {RV_SYSCALL__READ, RV_SYSCALL__WRITE, RV_SYSCALL__FSTAT, RV_SYSCALL__BRK}")
  case True
  then have "suspended st' = suspended st \<and> pc st' = pc st" if "rvemu_dispatch_syscall env st = Inr st'" for st'
    using supported_call_continues [OF that] by blast
  with True show ?thesis by simp
next
  case False
  then show ?thesis
    by (auto simp: rvemu_dispatch_syscall_def rvsysc_exit_def REGARGPn_def emit_def Let_def)
qed

theorem syscall_suspends_witness:
  "(\<exists>e. rvemu_dispatch_syscall demo_env (blank_state\<lparr>regs := (replicate 32 0)[17 := 93, 10 := 7]\<rparr>)
       = Inr (blank_state\<lparr>regs := (replicate 32 0)[17 := 93, 10 := 7], trace := [e], suspended := True\<rparr>)
     \<and> e = ExitNotice 7)
   \<and> (\<exists>st'. rvemu_dispatch_syscall demo_env demo_write_state = Inr st' \<and> \<not> suspended st')"
proof -
  have "\<exists>st'. rvemu_dispatch_syscall demo_env demo_write_state = Inr st'"
    using dispatch_write [OF demo_write_ok(1-4)] by blast
  then have "\<exists>st'. rvemu_dispatch_syscall demo_env demo_write_state = Inr st' \<and> \<not> suspended st'"
    using syscall_suspends [of demo_write_state demo_env] demo_write_ok(3,5) by auto
  then show ?thesis
    using syscall_suspends [of "blank_state\<lparr>regs := (replicate 32 0)[17 := 93, 10 := 7]\<rparr>" demo_env]
    by (simp add: syscall_number_defs blank_state_def)
qed

end
