(* ===== verification/Breakpoints.thy ===== *)
theory Breakpoints
  imports Machine
begin

text \<open>
  Breakpoints (\<^verbatim>\<open>src/bkpt.c\<close>): sixteen slots in the state, matched against the program
  counter and the instruction before each instruction executes, polled by the main loop after it.
\<close>

section \<open>Operations\<close>

fun poll_loop :: "rvbkpt_ev list \<Rightarrow> nat \<Rightarrow> nat option \<times> rvbkpt_ev list" where
  "poll_loop [] ev_idx = (None, [])"
| "poll_loop (ev # evs) ev_idx =
     (if \<not> active ev \<or> \<not> triggered ev
      then (let (r, evs') = poll_loop evs (Suc ev_idx) in (r, ev # evs'))
      else (Some ev_idx, (if one_shot ev then ev\<lparr>active := False\<rparr> else ev) # evs))"

text \<open>The pointer \<^verbatim>\<open>rvbkpt_poll\<close> returns is the index of the slot, \<open>None\<close> for NULL.\<close>

definition rvbkpt_poll :: "rvstate \<Rightarrow> nat option \<times> rvstate" where
  "rvbkpt_poll st =
     (let (r, evs) = poll_loop (bkpt_ev_arr st) 0 in (r, st\<lparr>bkpt_ev_arr := evs\<rparr>))"

text \<open>\<^verbatim>\<open>CHK_COND_MASK\<close> over the five compared fields.\<close>

definition insn_match :: "insn_t \<Rightarrow> insn_t \<Rightarrow> insn_t \<Rightarrow> bool" where
  "insn_match msk insn cmp \<longleftrightarrow>
     insn_ty cmp = insn_ty insn
     \<and> rd cmp AND rd msk = rd insn AND rd msk
     \<and> rs1 cmp AND rs1 msk = rs1 insn AND rs1 msk
     \<and> rs2 cmp AND rs2 msk = rs2 insn AND rs2 msk
     \<and> funct cmp AND funct msk = funct insn AND funct msk
     \<and> imm cmp AND imm msk = imm insn AND imm msk"

definition pc_match :: "rvbkpt_regcond \<Rightarrow> u32 \<Rightarrow> bool \<Rightarrow> bool" where
  "pc_match c p otherwise =
     (case rc_comp c of
        BKPTCOMP_GT \<Rightarrow> if rc_sign c then sint p > sint (rc_val c) else p > rc_val c
      | BKPTCOMP_LT \<Rightarrow> if rc_sign c then sint p < sint (rc_val c) else p < rc_val c
      | BKPTCOMP_EQ \<Rightarrow> if rc_sign c then sint p = sint (rc_val c) else p = rc_val c
      | BKPTCOMP_NONE \<Rightarrow> otherwise)"

text \<open>One iteration of the loop of \<^verbatim>\<open>rvbkpt_check_insn\<close>.\<close>

definition check_event :: "u32 \<Rightarrow> insn_t \<Rightarrow> rvbkpt_ev \<Rightarrow> rvbkpt_ev" where
  "check_event p insn ev =
     (if \<not> active ev then ev
      else if triggered ev then ev\<lparr>triggered := False\<rparr>
      else let cmp = insn_comp (insn_cond ev); msk = insn_mask (insn_cond ev);
               cond_match = (if insn_ty cmp \<noteq> RV_INSN__INVALID then insn_match msk insn cmp else False)
           in ev\<lparr>triggered := pc_match (pc_cond ev) p cond_match\<rparr>)"

definition rvbkpt_check_insn :: "insn_t \<Rightarrow> rvstate \<Rightarrow> rvstate" where
  "rvbkpt_check_insn insn st =
     st\<lparr>bkpt_ev_arr := map (check_event (pc st) insn) (bkpt_ev_arr st)\<rparr>"

fun add_loop :: "rvbkpt_ev list \<Rightarrow> rvbkpt_ev \<Rightarrow> rvbkpt_ev list" where
  "add_loop [] ev = []"
| "add_loop (chk_ev # evs) ev = (if active chk_ev then chk_ev # add_loop evs ev else ev # evs)"

definition rvbkpt_add :: "rvbkpt_ev \<Rightarrow> rvstate \<Rightarrow> rvstate" where
  "rvbkpt_add ev st = st\<lparr>bkpt_ev_arr := add_loop (bkpt_ev_arr st) ev\<rparr>"

section \<open>The operations leave everything but the slots alone\<close>

lemma length_poll_loop [simp]: "length (snd (poll_loop evs k)) = length evs"
  by (induction evs k rule: poll_loop.induct) (auto split: prod.splits)

lemma length_add_loop [simp]: "length (add_loop evs ev) = length evs"
  by (induction evs ev rule: add_loop.induct) auto

lemma state_ok_bkpt [simp]:
  "length evs = length (bkpt_ev_arr st) \<Longrightarrow> state_ok (st\<lparr>bkpt_ev_arr := evs\<rparr>) = state_ok st"
  by (simp add: state_ok_def regs_wf_def fregs_wf_def)

lemma state_ok_check [simp]: "state_ok (rvbkpt_check_insn insn st) = state_ok st"
  by (simp add: rvbkpt_check_insn_def)

lemma state_ok_poll:
  assumes "rvbkpt_poll st = (r, st')"
  shows "state_ok st' = state_ok st"
proof -
  have "st' = st\<lparr>bkpt_ev_arr := snd (poll_loop (bkpt_ev_arr st) 0)\<rparr>"
    using assms by (auto simp: rvbkpt_poll_def Let_def split: prod.splits)
  then show ?thesis by simp
qed

lemma state_ok_add [simp]: "state_ok (rvbkpt_add ev st) = state_ok st"
  by (simp add: rvbkpt_add_def)

section \<open>Polling finds the first slot that fired\<close>

definition fired :: "rvbkpt_ev \<Rightarrow> bool" where
  "fired ev \<longleftrightarrow> active ev \<and> triggered ev"

definition acknowledge :: "rvbkpt_ev \<Rightarrow> rvbkpt_ev" where
  "acknowledge ev = (if one_shot ev then ev\<lparr>active := False\<rparr> else ev)"

lemma poll_loop_Some:
  "poll_loop evs k = (Some j, evs') \<longleftrightarrow>
     (\<exists>i<length evs. j = k + i \<and> fired (evs ! i) \<and> (\<forall>m<i. \<not> fired (evs ! m))
        \<and> evs' = evs[i := acknowledge (evs ! i)])"
proof (induction evs arbitrary: k evs')
  case Nil
  then show ?case by simp
next
  case (Cons ev evs)
  show ?case
  proof (cases "fired ev")
    case True
    then show ?thesis
      by (auto simp: fired_def acknowledge_def Ex_less_Suc2 All_less_Suc2)
  next
    case False
    then have "poll_loop (ev # evs) k = (let (r, evs') = poll_loop evs (Suc k) in (r, ev # evs'))"
      by (auto simp: fired_def)
    with False Cons.IH [of "Suc k"] show ?thesis
      by (auto simp: Ex_less_Suc2 All_less_Suc2 split: prod.splits)
  qed
qed

lemma poll_loop_None:
  "poll_loop evs k = (None, evs') \<longleftrightarrow> evs' = evs \<and> (\<forall>ev\<in>set evs. \<not> fired ev)"
proof (induction evs arbitrary: k evs')
  case (Cons ev evs)
  obtain r zs where z: "poll_loop evs (Suc k) = (r, zs)" by fastforce
  from Cons.IH [of "Suc k" zs] Cons.IH [of "Suc k" evs] z show ?case by (auto simp: fired_def)
qed auto

lemma rvbkpt_poll_cases:
  "rvbkpt_poll st =
     (case find (\<lambda>i. fired (bkpt_ev_arr st ! i)) [0..<length (bkpt_ev_arr st)] of
        None \<Rightarrow> (None, st)
      | Some i \<Rightarrow> (Some i, st\<lparr>bkpt_ev_arr := (bkpt_ev_arr st)[i := acknowledge (bkpt_ev_arr st ! i)]\<rparr>))"
proof (cases "poll_loop (bkpt_ev_arr st) 0")
  case (Pair r evs)
  show ?thesis
  proof (cases r)
    case None
    with Pair have "evs = bkpt_ev_arr st" "\<forall>ev\<in>set (bkpt_ev_arr st). \<not> fired ev"
      using poll_loop_None by auto
    moreover from this have "find (\<lambda>i. fired (bkpt_ev_arr st ! i)) [0..<length (bkpt_ev_arr st)] = None"
      by (auto simp: find_None_iff)
    ultimately show ?thesis by (simp add: rvbkpt_poll_def Pair None)
  next
    case (Some i)
    with Pair have i: "i < length (bkpt_ev_arr st)" "fired (bkpt_ev_arr st ! i)"
        "\<forall>m<i. \<not> fired (bkpt_ev_arr st ! m)" "evs = (bkpt_ev_arr st)[i := acknowledge (bkpt_ev_arr st ! i)]"
      using poll_loop_Some [of "bkpt_ev_arr st" 0 i evs] by auto
    then have "find (\<lambda>i. fired (bkpt_ev_arr st ! i)) [0..<length (bkpt_ev_arr st)] = Some i"
      by (auto simp: find_Some_iff)
    then show ?thesis by (simp add: rvbkpt_poll_def Pair Some i)
  qed
qed

text \<open>
  C27: polling returns the first slot that is active and triggered, and touches no other slot: a
  one-shot breakpoint is switched off, any other stays as it is; when no slot fired, the state is
  unchanged.
\<close>

theorem rvbkpt_poll_first:
  "rvbkpt_poll st =
     (case find (\<lambda>i. fired (bkpt_ev_arr st ! i)) [0..<length (bkpt_ev_arr st)] of
        None \<Rightarrow> (None, st)
      | Some i \<Rightarrow> (Some i, st\<lparr>bkpt_ev_arr := (bkpt_ev_arr st)[i := acknowledge (bkpt_ev_arr st ! i)]\<rparr>))"
  by (rule rvbkpt_poll_cases)

section \<open>Adding a breakpoint\<close>

lemma find_map_option: "find P (map f xs) = map_option f (find (\<lambda>x. P (f x)) xs)"
  by (induction xs) auto

lemma add_loop_spec:
  "add_loop evs ev = (case find (\<lambda>i. \<not> active (evs ! i)) [0..<length evs] of
     None \<Rightarrow> evs | Some i \<Rightarrow> evs[i := ev])"
proof (induction evs)
  case (Cons e evs)
  have "find (\<lambda>i. \<not> active ((e # evs) ! i)) [0..<length (e # evs)]
      = (if \<not> active e then Some 0 else map_option Suc (find (\<lambda>i. \<not> active (evs ! i)) [0..<length evs]))"
    by (simp del: upt_Suc add: upt_conv_Cons map_Suc_upt [symmetric] find_map_option)
  with Cons show ?case by (auto split: option.splits)
qed simp

text \<open>
  C28: \<open>rvbkpt_add\<close> stores the breakpoint in the first inactive slot, keeps every other slot, and drops
  the request when all sixteen are active.
\<close>

theorem rvbkpt_add_first_free:
  "bkpt_ev_arr (rvbkpt_add ev st) =
     (case find (\<lambda>i. \<not> active (bkpt_ev_arr st ! i)) [0..<length (bkpt_ev_arr st)] of
        None \<Rightarrow> bkpt_ev_arr st | Some i \<Rightarrow> (bkpt_ev_arr st)[i := ev])"
  by (simp add: rvbkpt_add_def add_loop_spec)

section \<open>Slots as a state machine\<close>

text \<open>What can happen to the slots while the program runs: a check before an instruction, a poll after it.\<close>

inductive bkpt_step :: "rvbkpt_ev list \<Rightarrow> rvbkpt_ev list \<Rightarrow> bool" where
  check: "bkpt_step evs (map (check_event p insn) evs)"
| poll: "poll_loop evs 0 = (r, evs') \<Longrightarrow> bkpt_step evs evs'"

lemma check_event_active: "active (check_event p insn ev) = active ev"
  by (simp add: check_event_def Let_def)

lemma bkpt_step_inactive:
  assumes "bkpt_step evs evs'" and "i < length evs" and "\<not> active (evs ! i)"
  shows "length evs' = length evs \<and> \<not> active (evs' ! i)"
  using assms(1)
proof (cases rule: bkpt_step.cases)
  case (check p insn)
  then show ?thesis using assms(2,3) by (simp add: check_event_active)
next
  case (poll r)
  show ?thesis
  proof (cases r)
    case None
    then show ?thesis using poll assms poll_loop_None by auto
  next
    case (Some j)
    then have "j < length evs" "evs' = evs[j := acknowledge (evs ! j)]"
      using poll poll_loop_Some [of evs 0 j evs'] by auto
    then show ?thesis using assms(2,3) by (auto simp: nth_list_update acknowledge_def)
  qed
qed

lemma bkpt_steps_inactive:
  assumes "bkpt_step\<^sup>*\<^sup>* evs evs'" and "i < length evs" and "\<not> active (evs ! i)"
  shows "length evs' = length evs \<and> \<not> active (evs' ! i)"
  using assms by (induction rule: rtranclp_induct) (auto dest: bkpt_step_inactive)

text \<open>
  C29: a one-shot breakpoint is reported at most once.  After a poll has returned it, no poll returns it
  again, through any number of checks and polls in any order (until \<open>rvbkpt_add\<close> reuses the slot).
\<close>

theorem one_shot_reported_once:
  assumes "poll_loop evs 0 = (Some i, evs1)" and "one_shot (evs ! i)"
    and "bkpt_step\<^sup>*\<^sup>* evs1 evs2"
  shows "fst (poll_loop evs2 0) \<noteq> Some i"
proof
  assume "fst (poll_loop evs2 0) = Some i"
  then have "fired (evs2 ! i)"
    using poll_loop_Some [of evs2 0 i "snd (poll_loop evs2 0)"] by (auto simp: prod_eq_iff)
  moreover have "i < length evs1" "\<not> active (evs1 ! i)"
    using assms(1,2) by (auto simp: poll_loop_Some acknowledge_def)
  then have "\<not> active (evs2 ! i)" using bkpt_steps_inactive [OF assms(3)] by blast
  ultimately show False by (simp add: fired_def)
qed

definition demo_bkpt :: rvbkpt_ev where
  "demo_bkpt = bkpt_zero\<lparr>pc_cond := \<lparr>rc_val = 0x10954, rc_comp = BKPTCOMP_EQ, rc_sign = False\<rparr>,
     one_shot := True, active := True\<rparr>"

theorem one_shot_reported_once_witness:
  "poll_loop [demo_bkpt\<lparr>triggered := True\<rparr>] 0 = (Some 0, [demo_bkpt\<lparr>active := False, triggered := True\<rparr>])
   \<and> fst (poll_loop (map (check_event 0x10954 insn_zero) [demo_bkpt\<lparr>active := False, triggered := True\<rparr>]) 0)
       \<noteq> Some 0"
proof -
  have p: "poll_loop [demo_bkpt\<lparr>triggered := True\<rparr>] 0 = (Some 0, [demo_bkpt\<lparr>active := False, triggered := True\<rparr>])"
    by (simp add: demo_bkpt_def bkpt_zero_def)
  have "one_shot ([demo_bkpt\<lparr>triggered := True\<rparr>] ! 0)" by (simp add: demo_bkpt_def)
  moreover have "bkpt_step\<^sup>*\<^sup>* [demo_bkpt\<lparr>active := False, triggered := True\<rparr>]
      (map (check_event 0x10954 insn_zero) [demo_bkpt\<lparr>active := False, triggered := True\<rparr>])"
    by (rule r_into_rtranclp) (rule bkpt_step.check)
  ultimately show ?thesis using p one_shot_reported_once [OF p] by blast
qed

lemma check_event_clears: "active ev \<Longrightarrow> triggered ev \<Longrightarrow> \<not> triggered (check_event p insn ev)"
  by (simp add: check_event_def)

text \<open>
  C30: no breakpoint stays triggered through two consecutive checks, not even when the program counter
  stays at its address: a hit the main loop left unhandled is cleared by the next check instead of
  being matched again.
\<close>

theorem check_never_triggers_twice:
  "\<not> (active ev \<and> triggered (check_event p insn ev)
       \<and> triggered (check_event p' insn' (check_event p insn ev)))"
  using check_event_clears [of "check_event p insn ev"] by (auto simp: check_event_active)

lemma fired_after_check:
  "active ev \<Longrightarrow> fired (check_event p insn ev) \<longleftrightarrow> triggered (check_event p insn ev)"
  by (simp add: fired_def check_event_active)

text \<open>Masked fields are equal when they agree on every bit of the mask.\<close>

lemma masked_eq_iff:
  fixes x y m :: "'a::len word"
  shows "x AND m = y AND m \<longleftrightarrow> (\<forall>k. bit m k \<longrightarrow> bit x k = bit y k)"
  by (auto simp: bit_eq_iff bit_and_iff dest: bit_imp_le_length)

text \<open>A poll reports the slot that fired when no earlier one did.\<close>

lemma poll_reports:
  assumes "i < length (bkpt_ev_arr st)" and "\<forall>j<i. \<not> fired (bkpt_ev_arr st ! j)"
  shows "fst (rvbkpt_poll st) = Some i \<longleftrightarrow> fired (bkpt_ev_arr st ! i)"
  using assms by (auto simp: rvbkpt_poll_cases find_Some_iff find_None_iff split: option.splits)
    (metis linorder_neqE_nat)

text \<open>
  C31: the condition a breakpoint stops the program on.  After a check, the poll reports an armed
  breakpoint (active, no hit pending, no earlier slot with a hit) exactly if its comparison of the
  program counter holds, as unsigned or as signed numbers; or, when it has none, if its instruction
  pattern names the instruction and agrees with it on every masked bit of the registers, function
  bits and immediate.  A program-counter condition replaces the instruction condition: the two are
  not combined.
\<close>

theorem check_event_condition:
  assumes "i < length (bkpt_ev_arr st)" and "ev = bkpt_ev_arr st ! i" and "active ev" and "\<not> triggered ev"
    and "\<forall>j<i. \<not> fired (check_event (pc st) insn (bkpt_ev_arr st ! j))"
    and "v = rc_val (pc_cond ev)" and "c = insn_comp (insn_cond ev)" and "m = insn_mask (insn_cond ev)"
  shows "fst (rvbkpt_poll (rvbkpt_check_insn insn st)) = Some i \<longleftrightarrow>
    (case rc_comp (pc_cond ev) of
       BKPTCOMP_GT \<Rightarrow> if rc_sign (pc_cond ev) then sint v < sint (pc st) else unat v < unat (pc st)
     | BKPTCOMP_LT \<Rightarrow> if rc_sign (pc_cond ev) then sint (pc st) < sint v else unat (pc st) < unat v
     | BKPTCOMP_EQ \<Rightarrow> pc st = v
     | BKPTCOMP_NONE \<Rightarrow> insn_ty c \<noteq> RV_INSN__INVALID \<and> insn_ty c = insn_ty insn
         \<and> (\<forall>k. (bit (rd m) k \<longrightarrow> bit (rd c) k = bit (rd insn) k)
              \<and> (bit (rs1 m) k \<longrightarrow> bit (rs1 c) k = bit (rs1 insn) k)
              \<and> (bit (rs2 m) k \<longrightarrow> bit (rs2 c) k = bit (rs2 insn) k)
              \<and> (bit (funct m) k \<longrightarrow> bit (funct c) k = bit (funct insn) k)
              \<and> (bit (imm m) k \<longrightarrow> bit (imm c) k = bit (imm insn) k)))"
proof -
  have "fst (rvbkpt_poll (rvbkpt_check_insn insn st)) = Some i \<longleftrightarrow> triggered (check_event (pc st) insn ev)"
    using assms(1-3,5) by (subst poll_reports) (simp_all add: rvbkpt_check_insn_def fired_after_check)
  then show ?thesis
    using assms(3,4) unfolding assms(6-8)
    by (auto simp: check_event_def Let_def pc_match_def insn_match_def masked_eq_iff word_less_nat_alt
        signed_word_eqI split: rvbkpt_comparator.split)
qed

theorem check_event_condition_witness:
  "fst (rvbkpt_poll (rvbkpt_check_insn insn_zero (blank_state\<lparr>pc := 0x10954, bkpt_ev_arr := [demo_bkpt]\<rparr>))) = Some 0
   \<and> fst (rvbkpt_poll (rvbkpt_check_insn insn_zero (blank_state\<lparr>pc := 0x10958, bkpt_ev_arr := [demo_bkpt]\<rparr>))) \<noteq> Some 0"
proof -
  have b: "active demo_bkpt" "\<not> triggered demo_bkpt" "rc_comp (pc_cond demo_bkpt) = BKPTCOMP_EQ"
    "rc_val (pc_cond demo_bkpt) = 0x10954" by (simp_all add: demo_bkpt_def bkpt_zero_def)
  have "fst (rvbkpt_poll (rvbkpt_check_insn insn_zero (blank_state\<lparr>pc := p, bkpt_ev_arr := [demo_bkpt]\<rparr>))) = Some 0
      \<longleftrightarrow> p = 0x10954" for p
    by (subst check_event_condition [OF _ refl _ _ _ refl refl refl]) (simp_all add: b)
  then show ?thesis by simp
qed

end
