(* ===== verification/Dispatch.thy ===== *)
theory Dispatch
  imports Decoder Floats Syscalls Breakpoints "HOL-Library.Signed_Division"
begin

text \<open>
  The execution of one decoded instruction, \<^verbatim>\<open>rvemu_dispatch\<close> of
  \<^verbatim>\<open>src/dispatch.c\<close>.  The C switch is modelled group by group in the order of the
  source: a group is \<open>Some\<close> of what its case does, or \<open>None\<close> when it has no case for the
  instruction.
\<close>

section \<open>Leaving the switch\<close>

text \<open>
  A case ends in \<^verbatim>\<open>break\<close>, with the value of \<open>pc_offset\<close> to be added to the program
  counter, or returns from the function.
\<close>

datatype flow = Break rvstate u32 | Return rvstate

type_synonym exec = "flow res"

definition RISCV_INSNLEN :: u32 where
  "RISCV_INSNLEN = 4"

definition fall :: "rvstate \<Rightarrow> exec" where
  "fall st = Inr (Break st RISCV_INSNLEN)"

definition jump :: "u32 \<Rightarrow> rvstate \<Rightarrow> exec" where
  "jump target st = Inr (Break (st\<lparr>pc := target\<rparr>) 0)"

definition assign :: "u8 \<Rightarrow> u32 \<Rightarrow> rvstate \<Rightarrow> exec" where
  "assign r v st = fall (set_reg r v st)"

definition fassign :: "u8 \<Rightarrow> u64 \<Rightarrow> rvstate \<Rightarrow> exec" where
  "fassign r v st = fall (set_freg r v st)"

definition assign_f32 :: "u8 \<Rightarrow> f32 \<Rightarrow> rvstate \<Rightarrow> exec" where
  "assign_f32 r v st = fall (rvfloat_write_f32 r v st)"

definition assign_f64 :: "u8 \<Rightarrow> f64 \<Rightarrow> rvstate \<Rightarrow> exec" where
  "assign_f64 r v st = fall (rvfloat_write_f64 r v st)"

definition truth :: "bool \<Rightarrow> u32" where
  "truth b = (if b then 1 else 0)"

fun first_case :: "'a option list \<Rightarrow> 'a \<Rightarrow> 'a" where
  "first_case [] d = d"
| "first_case (Some x # cs) d = x"
| "first_case (None # cs) d = first_case cs d"

section \<open>Integer instructions\<close>

definition exec_arith :: "insn_t \<Rightarrow> rvstate \<Rightarrow> exec option" where
  "exec_arith i st =
     (let a = rvmem_reg st (rs1 i); b = rvmem_reg st (rs2 i) in case insn_ty i of
       RV_INSN__ADD \<Rightarrow> Some (assign (rd i) (a + b) st)
     | RV_INSN__SUB \<Rightarrow> Some (assign (rd i) (a - b) st)
     | RV_INSN__SLL \<Rightarrow> Some (assign (rd i) (push_bit (unat (b AND 0x1f)) a) st)
     | RV_INSN__SLT \<Rightarrow> Some (assign (rd i) (truth (sint a < sint b)) st)
     | RV_INSN__SLTU \<Rightarrow> Some (assign (rd i) (truth (a < b)) st)
     | RV_INSN__XOR \<Rightarrow> Some (assign (rd i) (a XOR b) st)
     | RV_INSN__SRL \<Rightarrow> Some (assign (rd i) (drop_bit (unat (b AND 0x1f)) a) st)
     | RV_INSN__SRA \<Rightarrow> Some (assign (rd i) (signed_drop_bit (unat (b AND 0x1f)) a) st)
     | RV_INSN__OR \<Rightarrow> Some (assign (rd i) (a OR b) st)
     | RV_INSN__AND \<Rightarrow> Some (assign (rd i) (a AND b) st)
     | RV_INSN__ADDI \<Rightarrow> Some (assign (rd i) (a + imm i) st)
     | RV_INSN__SLLI \<Rightarrow> Some (assign (rd i) (push_bit (unat (imm i AND 0x1f)) a) st)
     | RV_INSN__SLTI \<Rightarrow> Some (assign (rd i) (truth (sint a < sint (imm i))) st)
     | RV_INSN__SLTIU \<Rightarrow> Some (assign (rd i) (truth (a < imm i)) st)
     | RV_INSN__XORI \<Rightarrow> Some (assign (rd i) (a XOR imm i) st)
     | RV_INSN__SRLI \<Rightarrow> Some (assign (rd i) (drop_bit (unat (imm i AND 0x1f)) a) st)
     | RV_INSN__SRAI \<Rightarrow> Some (assign (rd i) (signed_drop_bit (unat (imm i AND 0x1f)) a) st)
     | RV_INSN__ORI \<Rightarrow> Some (assign (rd i) (a OR imm i) st)
     | RV_INSN__ANDI \<Rightarrow> Some (assign (rd i) (a AND imm i) st)
     | _ \<Rightarrow> None)"

definition exec_mem :: "insn_t \<Rightarrow> rvstate \<Rightarrow> exec option" where
  "exec_mem i st =
     (let addr = rvmem_reg st (rs1 i) + imm i; v = rvmem_reg st (rs2 i) in case insn_ty i of
       RV_INSN__LB \<Rightarrow> Some (rbind (load_u8 st addr) (\<lambda>x. assign (rd i) (scast x) st))
     | RV_INSN__LH \<Rightarrow> Some (rbind (load_u16 st addr) (\<lambda>x. assign (rd i) (scast x) st))
     | RV_INSN__LW \<Rightarrow> Some (rbind (load_u32 st addr) (\<lambda>x. assign (rd i) x st))
     | RV_INSN__LBU \<Rightarrow> Some (rbind (load_u8 st addr) (\<lambda>x. assign (rd i) (ucast x) st))
     | RV_INSN__LHU \<Rightarrow> Some (rbind (load_u16 st addr) (\<lambda>x. assign (rd i) (ucast x) st))
     | RV_INSN__SB \<Rightarrow> Some (rbind (store_u8 addr (ucast v) st) fall)
     | RV_INSN__SH \<Rightarrow> Some (rbind (store_u16 addr (ucast v) st) fall)
     | RV_INSN__SW \<Rightarrow> Some (rbind (store_u32 addr v st) fall)
     | _ \<Rightarrow> None)"

definition branch_if :: "bool \<Rightarrow> u32 \<Rightarrow> rvstate \<Rightarrow> exec" where
  "branch_if c offs st = (if c then jump (pc st + offs) st else fall st)"

definition exec_branch :: "insn_t \<Rightarrow> rvstate \<Rightarrow> exec option" where
  "exec_branch i st =
     (let a = rvmem_reg st (rs1 i); b = rvmem_reg st (rs2 i) in case insn_ty i of
       RV_INSN__BEQ \<Rightarrow> Some (branch_if (a = b) (imm i) st)
     | RV_INSN__BNE \<Rightarrow> Some (branch_if (a \<noteq> b) (imm i) st)
     | RV_INSN__BLT \<Rightarrow> Some (branch_if (sint a < sint b) (imm i) st)
     | RV_INSN__BGE \<Rightarrow> Some (branch_if (sint a \<ge> sint b) (imm i) st)
     | RV_INSN__BLTU \<Rightarrow> Some (branch_if (a < b) (imm i) st)
     | RV_INSN__BGEU \<Rightarrow> Some (branch_if (a \<ge> b) (imm i) st)
     | RV_INSN__JAL \<Rightarrow>
         (let st' = set_reg (rd i) (pc st + RISCV_INSNLEN) st in Some (jump (pc st' + imm i) st'))
     | RV_INSN__JALR \<Rightarrow>
         (let target = (a + imm i) AND NOT 1
          in Some (jump target (set_reg (rd i) (pc st + RISCV_INSNLEN) st)))
     | _ \<Rightarrow> None)"

definition exec_upper :: "insn_t \<Rightarrow> rvstate \<Rightarrow> exec option" where
  "exec_upper i st = (case insn_ty i of
       RV_INSN__LUI \<Rightarrow> Some (assign (rd i) (push_bit 12 (imm i)) st)
     | RV_INSN__AUIPC \<Rightarrow> Some (assign (rd i) (pc st + push_bit 12 (imm i)) st)
     | _ \<Rightarrow> None)"

text \<open>\<^verbatim>\<open>rvemu_dispatch_debug\<close> prints in a debugging build and does nothing otherwise.\<close>

definition rvemu_dispatch_debug :: "rvstate \<Rightarrow> rvstate" where
  "rvemu_dispatch_debug st = st"

definition unimplemented :: "string \<Rightarrow> rvstate \<Rightarrow> rvstate" where
  "unimplemented msg st = (rvtrbk_diagn msg st)\<lparr>suspended := True\<rparr>"

definition exec_env :: "host_env \<Rightarrow> insn_t \<Rightarrow> rvstate \<Rightarrow> exec option" where
  "exec_env env i st =
     (if insn_ty i = RV_INSN__ECALL then Some (rbind (rvemu_dispatch_syscall env st) fall)
      else if insn_ty i = RV_INSN__EBREAK then Some (fall (rvemu_dispatch_debug st))
      else if insn_ty i \<in> {RV_INSN__FENCE, RV_INSN__FENCE_I}
      then Some (fall (unimplemented ''unimplemented synch. instructions'' st))
      else if insn_ty i \<in> {RV_INSN__CSRRW, RV_INSN__CSRRS, RV_INSN__CSRRC, RV_INSN__CSRRWI,
          RV_INSN__CSRRSI, RV_INSN__CSRRCI}
      then Some (fall (unimplemented ''unimplemented CSR. instructions'' st))
      else None)"

section \<open>Multiplication and division\<close>

text \<open>The C operators on 64-bit and 32-bit signed operands, undefined where C leaves them so.\<close>

definition mul_i64 :: "int \<Rightarrow> int \<Rightarrow> int res" where
  "mul_i64 x y = (if - (2 ^ 63) \<le> x * y \<and> x * y < 2 ^ 63 then Inr (x * y)
     else Inl (Undefined ''signed overflow''))"

definition div_i32 :: "(int \<Rightarrow> int \<Rightarrow> int) \<Rightarrow> u32 \<Rightarrow> u32 \<Rightarrow> u32 res" where
  "div_i32 f a b =
     (if b = 0 then Inl (Undefined ''division by zero'')
      else if sint a = - (2 ^ 31) \<and> sint b = - 1 then Inl (Undefined ''division overflow'')
      else Inr (of_int (f (sint a) (sint b))))"

definition div_u32 :: "(u32 \<Rightarrow> u32 \<Rightarrow> u32) \<Rightarrow> u32 \<Rightarrow> u32 \<Rightarrow> u32 res" where
  "div_u32 f a b = (if b = 0 then Inl (Undefined ''division by zero'') else Inr (f a b))"

text \<open>
  \<open>MULH\<close> multiplies zero-extended operands as \<^verbatim>\<open>i64\<close>; the other two multiply as
  \<^verbatim>\<open>u64\<close> and shift the result as \<^verbatim>\<open>i64\<close>.
\<close>

definition exec_m :: "rv32m_insn \<Rightarrow> insn_t \<Rightarrow> rvstate \<Rightarrow> exec" where
  "exec_m m i st =
     (let a = rvmem_reg st (rs1 i); b = rvmem_reg st (rs2 i) in case m of
       RV_INSN__MUL \<Rightarrow> assign (rd i) (a * b) st
     | RV_INSN__MULH \<Rightarrow>
         rbind (mul_i64 (uint a) (uint b)) (\<lambda>prod. assign (rd i) (of_int (drop_bit 32 prod)) st)
     | RV_INSN__MULHSU \<Rightarrow> assign (rd i) (ucast (signed_drop_bit 32 (ucast a * ucast b :: u64))) st
     | RV_INSN__MULHU \<Rightarrow> assign (rd i) (ucast (signed_drop_bit 32 (ucast a * ucast b :: u64))) st
     | RV_INSN__DIV \<Rightarrow> rbind (div_i32 (sdiv) a b) (\<lambda>v. assign (rd i) v st)
     | RV_INSN__DIVU \<Rightarrow> rbind (div_u32 (div) a b) (\<lambda>v. assign (rd i) v st)
     | RV_INSN__REM \<Rightarrow> rbind (div_i32 (smod) a b) (\<lambda>v. assign (rd i) v st)
     | RV_INSN__REMU \<Rightarrow> rbind (div_u32 (mod) a b) (\<lambda>v. assign (rd i) v st))"

section \<open>Floating-point instructions\<close>

text \<open>\<^verbatim>\<open>switch (insn.funct)\<close> over the single and the double case.\<close>

definition fmt_switch :: "insn_t \<Rightarrow> exec \<Rightarrow> exec \<Rightarrow> exec \<Rightarrow> exec" where
  "fmt_switch i single double d = switch (funct i)
     [(ucast RISCV_FLTFUNC_SINGLE, single), (ucast RISCV_FLTFUNC_DOUBLE, double)] d"

definition exec_fd_mem :: "rv32fd_insn \<Rightarrow> insn_t \<Rightarrow> rvstate \<Rightarrow> exec option" where
  "exec_fd_mem f i st =
     (let addr = rvmem_reg st (rs1 i) + imm i; v = rvmem_freg st (rs2 i) in case f of
       RV_INSN__FLx \<Rightarrow> Some (fmt_switch i
         (rbind (load_u32 st addr) (\<lambda>x. fassign (rd i) (rvfloat_nanbox_saturate x) st))
         (rbind (load_u64 st addr) (\<lambda>x. fassign (rd i) x st))
         unreachable)
     | RV_INSN__FSx \<Rightarrow> Some (fmt_switch i
         (rbind (store_u32 addr (ucast (rvfloat_nanbox_unpack v)) st) fall)
         (rbind (store_u64 addr v st) fall)
         unreachable)
     | _ \<Rightarrow> None)"

text \<open>Two-operand and three-operand arithmetic; \<open>a * b + c\<close> is rounded after each operation.\<close>

definition exec_fd_arith :: "host_env \<Rightarrow> rv32fd_insn \<Rightarrow> insn_t \<Rightarrow> rvstate \<Rightarrow> exec option" where
  "exec_fd_arith env f i st =
     (let a = rvfloat_read_f32 st (rs1 i); b = rvfloat_read_f32 st (rs2 i);
          x = rvfloat_read_f64 st (rs1 i); y = rvfloat_read_f64 st (rs2 i)
      in case f of
       RV_INSN__FADDx \<Rightarrow> Some (fmt_switch i (assign_f32 (rd i) (op32 fadd env a b) st)
         (assign_f64 (rd i) (op64 fadd env x y) st) unreachable)
     | RV_INSN__FSUBx \<Rightarrow> Some (fmt_switch i (assign_f32 (rd i) (op32 fsub env a b) st)
         (assign_f64 (rd i) (op64 fsub env x y) st) unreachable)
     | RV_INSN__FMULx \<Rightarrow> Some (fmt_switch i (assign_f32 (rd i) (op32 fmul env a b) st)
         (assign_f64 (rd i) (op64 fmul env x y) st) unreachable)
     | RV_INSN__FDIVx \<Rightarrow> Some (fmt_switch i (assign_f32 (rd i) (op32 fdivide env a b) st)
         (assign_f64 (rd i) (op64 fdivide env x y) st) unreachable)
     | _ \<Rightarrow> None)"

definition exec_fd_fma :: "host_env \<Rightarrow> rv32fd_insn \<Rightarrow> insn_t \<Rightarrow> rvstate \<Rightarrow> exec option" where
  "exec_fd_fma env f i st =
     (let a = rvfloat_read_f32 st (rs1 i); b = rvfloat_read_f32 st (rs2 i); c = rvfloat_read_f32 st (rs3 i);
          x = rvfloat_read_f64 st (rs1 i); y = rvfloat_read_f64 st (rs2 i); z = rvfloat_read_f64 st (rs3 i)
      in case f of
       RV_INSN__FMADDx \<Rightarrow> Some (fmt_switch i
         (assign_f32 (rd i) (op32 fadd env (op32 fmul env a b) c) st)
         (assign_f64 (rd i) (op64 fadd env (op64 fmul env x y) z) st) unreachable)
     | RV_INSN__FMSUBx \<Rightarrow> Some (fmt_switch i
         (assign_f32 (rd i) (op32 fsub env (op32 fmul env a b) c) st)
         (assign_f64 (rd i) (op64 fsub env (op64 fmul env x y) z) st) unreachable)
     | RV_INSN__FNMSUBx \<Rightarrow> Some (fmt_switch i
         (assign_f32 (rd i) (op32 fadd env (op32 fmul env (neg32 a) b) c) st)
         (assign_f64 (rd i) (op64 fadd env (op64 fmul env (neg64 x) y) z) st) unreachable)
     | RV_INSN__FNMADDx \<Rightarrow> Some (fmt_switch i
         (assign_f32 (rd i) (op32 fsub env (op32 fmul env (neg32 a) b) c) st)
         (assign_f64 (rd i) (op64 fsub env (op64 fmul env (neg64 x) y) z) st) unreachable)
     | _ \<Rightarrow> None)"

definition exec_fd_sign :: "host_env \<Rightarrow> rv32fd_insn \<Rightarrow> insn_t \<Rightarrow> rvstate \<Rightarrow> exec option" where
  "exec_fd_sign env f i st =
     (let a = rvfloat_read_f32 st (rs1 i); b = rvfloat_read_f32 st (rs2 i);
          x = rvfloat_read_f64 st (rs1 i); y = rvfloat_read_f64 st (rs2 i)
      in case f of
       RV_INSN__FSQRTx \<Rightarrow> Some (fmt_switch i (assign_f32 (rd i) (sqrtf env a) st)
         (assign_f64 (rd i) (sqrt64 env x) st) unreachable)
     | RV_INSN__FSGNJx \<Rightarrow> Some (fmt_switch i (assign_f32 (rd i) (copysignf a b) st)
         (assign_f64 (rd i) (copysign x y) st) unreachable)
     | RV_INSN__FSGNJNx \<Rightarrow> Some (fmt_switch i (assign_f32 (rd i) (copysignf a (neg32 b)) st)
         (assign_f64 (rd i) (copysign x (neg64 y)) st) unreachable)
     | RV_INSN__FSGNJXx \<Rightarrow> Some (fmt_switch i
         (let sign_xor = (rvfloat_as_u32 a XOR rvfloat_as_u32 b) AND 0x80000000
          in assign_f32 (rd i) (rvfloat_as_f32 ((rvfloat_as_u32 a AND 0x7FFFFFFF) OR sign_xor)) st)
         (let sign_xor = (rvfloat_as_u64 x XOR rvfloat_as_u64 y) AND 0x8000000000000000
          in assign_f64 (rd i) (rvfloat_as_f64 ((rvfloat_as_u64 x AND 0x7FFFFFFFFFFFFFFF) OR sign_xor)) st)
         unreachable)
     | _ \<Rightarrow> None)"

text \<open>These five switches have no default: another format falls out of the switch.\<close>

definition exec_fd_compare :: "host_env \<Rightarrow> rv32fd_insn \<Rightarrow> insn_t \<Rightarrow> rvstate \<Rightarrow> exec option" where
  "exec_fd_compare env f i st =
     (let a = rvfloat_read_f32 st (rs1 i); b = rvfloat_read_f32 st (rs2 i);
          x = rvfloat_read_f64 st (rs1 i); y = rvfloat_read_f64 st (rs2 i)
      in case f of
       RV_INSN__FMINx \<Rightarrow> Some (fmt_switch i (assign_f32 (rd i) (op32 (fmin env) env a b) st)
         (assign_f64 (rd i) (op64 (fmin env) env x y) st) (fall st))
     | RV_INSN__FMAXx \<Rightarrow> Some (fmt_switch i (assign_f32 (rd i) (op32 (fmax env) env a b) st)
         (assign_f64 (rd i) (op64 (fmax env) env x y) st) (fall st))
     | RV_INSN__FEQx \<Rightarrow> Some (fmt_switch i (assign (rd i) (truth (cmp32 (=) a b)) st)
         (assign (rd i) (truth (cmp64 (=) x y)) st) (fall st))
     | RV_INSN__FLTx \<Rightarrow> Some (fmt_switch i (assign (rd i) (truth (cmp32 (<) a b)) st)
         (assign (rd i) (truth (cmp64 (<) x y)) st) (fall st))
     | RV_INSN__FLEx \<Rightarrow> Some (fmt_switch i (assign (rd i) (truth (cmp32 (\<le>) a b)) st)
         (assign (rd i) (truth (cmp64 (\<le>) x y)) st) (fall st))
     | _ \<Rightarrow> None)"

definition exec_fd_convert :: "host_env \<Rightarrow> rv32fd_insn \<Rightarrow> insn_t \<Rightarrow> rvstate \<Rightarrow> exec option" where
  "exec_fd_convert env f i st =
     (let v = rvmem_reg st (rs1 i); a = rvfloat_read_f32 st (rs1 i); x = rvfloat_read_f64 st (rs1 i)
      in case f of
       RV_INSN__FCLASSx \<Rightarrow> Some (Inr (Return (unimplemented ''unimplemented fp insn.!'' st)))
     | RV_INSN__FCVT_x_W \<Rightarrow> Some (fmt_switch i (fall (rvfloat_cvt_f32_from_i32 (rd i) v st))
         (fall (rvfloat_cvt_f64_from_i32 (rd i) v st)) unreachable)
     | RV_INSN__FCVT_x_WU \<Rightarrow> Some (fmt_switch i (fall (rvfloat_cvt_f32_from_u32 (rd i) v st))
         (fall (rvfloat_cvt_f64_from_u32 (rd i) v st)) unreachable)
     | RV_INSN__FCVT_W_x \<Rightarrow> Some (fmt_switch i (rbind (f32_to_i32 a) (\<lambda>w. assign (rd i) w st))
         (rbind (f64_to_i32 x) (\<lambda>w. assign (rd i) w st)) unreachable)
     | RV_INSN__FCVT_WU_x \<Rightarrow> Some (fmt_switch i (rbind (f32_to_u32 a) (\<lambda>w. assign (rd i) w st))
         (rbind (f64_to_u32 x) (\<lambda>w. assign (rd i) w st)) unreachable)
     | RV_INSN__FMV_X_W \<Rightarrow>
         Some (assign (rd i) (ucast (rvfloat_nanbox_unpack (rvmem_freg st (rs1 i)))) st)
     | RV_INSN__FMV_W_X \<Rightarrow> Some (fassign (rd i) (rvfloat_nanbox_saturate v) st)
     | RV_INSN__FCVT_S_D \<Rightarrow> Some (assign_f32 (rd i) (f64_to_f32 env x) st)
     | RV_INSN__FCVT_D_S \<Rightarrow> Some (assign_f64 (rd i) (f32_to_f64 env a) st)
     | _ \<Rightarrow> None)"

definition exec_fd :: "host_env \<Rightarrow> rv32fd_insn \<Rightarrow> insn_t \<Rightarrow> rvstate \<Rightarrow> exec" where
  "exec_fd env f i st = first_case
     [exec_fd_mem f i st, exec_fd_arith env f i st, exec_fd_fma env f i st, exec_fd_sign env f i st,
      exec_fd_compare env f i st, exec_fd_convert env f i st] unreachable"

text \<open>All compressed instructions share one case.\<close>

definition exec_c :: "rvstate \<Rightarrow> exec" where
  "exec_c st = fall (unimplemented (''Compressed insns. not implemented'' @ [CHR 0x0A]) st)"

section \<open>The dispatcher\<close>

definition dispatch_switch :: "host_env \<Rightarrow> insn_t \<Rightarrow> rvstate \<Rightarrow> exec" where
  "dispatch_switch env i st = first_case
     [exec_arith i st, exec_mem i st, exec_branch i st, exec_upper i st, exec_env env i st]
     (case insn_ty i of
        EXT_M m \<Rightarrow> exec_m m i st
      | EXT_FD f \<Rightarrow> exec_fd env f i st
      | EXT_C c \<Rightarrow> exec_c st
      | _ \<Rightarrow> unreachable)"

fun flow_end :: "flow \<Rightarrow> rvstate" where
  "flow_end (Break st pc_offset) = st\<lparr>pc := pc st + pc_offset\<rparr>"
| "flow_end (Return st) = st"

definition rvemu_dispatch :: "host_env \<Rightarrow> insn_t \<Rightarrow> rvstate \<Rightarrow> rvstate res" where
  "rvemu_dispatch env i st =
     rbind (dispatch_switch env i (rvbkpt_check_insn i st)) (\<lambda>fl. Inr (flow_end fl))"

lemmas fd_defs = exec_fd_mem_def exec_fd_arith_def exec_fd_fma_def exec_fd_sign_def exec_fd_compare_def
  exec_fd_convert_def
lemmas assign_defs = fall_def jump_def assign_def fassign_def assign_f32_def assign_f64_def branch_if_def

section \<open>Invariants of the dispatcher\<close>

text \<open>\<open>exec_all P e\<close>: whatever way the case \<open>e\<close> ends, its state satisfies \<open>P\<close>.\<close>

fun flow_state :: "flow \<Rightarrow> rvstate" where
  "flow_state (Break st pc_offset) = st"
| "flow_state (Return st) = st"

definition exec_all :: "(rvstate \<Rightarrow> bool) \<Rightarrow> exec \<Rightarrow> bool" where
  "exec_all P e \<longleftrightarrow> (\<forall>fl. e = Inr fl \<longrightarrow> P (flow_state fl))"

lemma exec_all_ends [simp]:
  "exec_all P (fall st) = P st" "exec_all P (jump t st) = P (st\<lparr>pc := t\<rparr>)"
  "exec_all P (assign r v st) = P (set_reg r v st)" "exec_all P (fassign r w st) = P (set_freg r w st)"
  "exec_all P (assign_f32 r x st) = P (rvfloat_write_f32 r x st)"
  "exec_all P (assign_f64 r y st) = P (rvfloat_write_f64 r y st)"
  "exec_all P unreachable" "exec_all P (Inr (Return st)) = P st"
  by (simp_all add: exec_all_def assign_defs unreachable_def)

lemma exec_all_rbind: "(\<And>x. m = Inr x \<Longrightarrow> exec_all P (k x)) \<Longrightarrow> exec_all P (rbind m k)"
  by (auto simp: exec_all_def rbind_eq_Inr)

lemma exec_all_fmt_switch:
  "exec_all P a \<Longrightarrow> exec_all P b \<Longrightarrow> exec_all P d \<Longrightarrow> exec_all P (fmt_switch i a b d)"
  by (simp add: fmt_switch_def)

lemma exec_all_branch_if [simp]:
  "exec_all P (branch_if c offs st) = (if c then P (st\<lparr>pc := pc st + offs\<rparr>) else P st)"
  by (simp add: branch_if_def)

definition exec_opt :: "(rvstate \<Rightarrow> bool) \<Rightarrow> exec option \<Rightarrow> bool" where
  "exec_opt P c \<longleftrightarrow> (case c of None \<Rightarrow> True | Some e \<Rightarrow> exec_all P e)"

lemma exec_opt_simps [simp]: "exec_opt P None" "exec_opt P (Some e) = exec_all P e"
  by (simp_all add: exec_opt_def)

lemma exec_all_first_case:
  "list_all (exec_opt P) cs \<Longrightarrow> exec_all P d \<Longrightarrow> exec_all P (first_case cs d)"
  by (induction cs d rule: first_case.induct) simp_all

text \<open>
  The contract of a predicate on states that the elementary state changes keep: register and
  program counter updates, stores to guest memory, system calls, diagnostics and breakpoint
  bookkeeping.  Such a predicate is an invariant of decoding and dispatch.
\<close>

locale state_invariant =
  fixes env :: host_env and P :: "rvstate \<Rightarrow> bool"
  assumes keeps_reg: "P st \<Longrightarrow> P (set_reg r v st)"
    and keeps_freg: "P st \<Longrightarrow> P (set_freg r w st)"
    and keeps_pc: "P st \<Longrightarrow> P (st\<lparr>pc := t\<rparr>)"
    and keeps_write: "P st \<Longrightarrow> guest_write st a bs = Inr st' \<Longrightarrow> P st'"
    and keeps_syscall: "P st \<Longrightarrow> rvemu_dispatch_syscall env st = Inr st' \<Longrightarrow> P st'"
    and keeps_diag: "P st \<Longrightarrow> diag_ext st st' \<Longrightarrow> P st'"
    and keeps_bkpt: "P st \<Longrightarrow> P (rvbkpt_check_insn i st)"
begin

lemma keeps_float:
  "P st \<Longrightarrow> P (rvfloat_write_f32 r x st)" "P st \<Longrightarrow> P (rvfloat_write_f64 r y st)"
  "P st \<Longrightarrow> P (rvfloat_cvt_f32_from_i32 r v st)" "P st \<Longrightarrow> P (rvfloat_cvt_f32_from_u32 r v st)"
  "P st \<Longrightarrow> P (rvfloat_cvt_f64_from_i32 r v st)" "P st \<Longrightarrow> P (rvfloat_cvt_f64_from_u32 r v st)"
  by (simp_all add: rvfloat_write_f32_def rvfloat_write_f64_def rvfloat_cvt_f32_from_i32_def
      rvfloat_cvt_f32_from_u32_def rvfloat_cvt_f64_from_i32_def rvfloat_cvt_f64_from_u32_def keeps_freg)

lemma keeps_unimplemented: "P st \<Longrightarrow> P (unimplemented msg st)"
proof (erule keeps_diag)
  show "diag_ext st (unimplemented msg st)"
    unfolding diag_ext_def unimplemented_def rvtrbk_diagn_def rvtrbk_error_def emit_def
    by (rule exI [of _ True], rule exI [of _ "[Stderr msg]"]) simp
qed

lemma keeps_load_store:
  "P st \<Longrightarrow> exec_all P (rbind (load_u8 st a) (\<lambda>x. assign r (f x) st))"
  "P st \<Longrightarrow> exec_all P (rbind (load_u16 st a) (\<lambda>x. assign r (g x) st))"
  "P st \<Longrightarrow> exec_all P (rbind (load_u32 st a) (\<lambda>x. assign r x st))"
  "P st \<Longrightarrow> exec_all P (rbind (load_u32 st a) (\<lambda>x. fassign r (h x) st))"
  "P st \<Longrightarrow> exec_all P (rbind (load_u64 st a) (\<lambda>x. fassign r x st))"
  "P st \<Longrightarrow> exec_all P (rbind (store_u8 a b1 st) fall)"
  "P st \<Longrightarrow> exec_all P (rbind (store_u16 a b2 st) fall)"
  "P st \<Longrightarrow> exec_all P (rbind (store_u32 a b4 st) fall)"
  "P st \<Longrightarrow> exec_all P (rbind (store_u64 a b8 st) fall)"
  by (rule exec_all_rbind, simp add: keeps_reg keeps_freg store_defs, (erule (1) keeps_write)?)+

lemma keeps_value: "P st \<Longrightarrow> exec_all P (rbind m (\<lambda>v. assign r (f v) st))"
  by (rule exec_all_rbind) (simp add: keeps_reg)

lemmas keeps = keeps_reg keeps_freg keeps_pc keeps_float keeps_unimplemented keeps_load_store keeps_value
  exec_all_fmt_switch

lemma keeps_groups:
  assumes "P st"
  shows "exec_opt P (exec_arith i st)" "exec_opt P (exec_mem i st)" "exec_opt P (exec_branch i st)"
    "exec_opt P (exec_upper i st)" "exec_opt P (exec_env env i st)"
proof -
  show "exec_opt P (exec_arith i st)"
    using assms by (cases "insn_ty i") (simp_all add: exec_arith_def keeps)
  show "exec_opt P (exec_mem i st)"
    using assms by (cases "insn_ty i") (simp_all add: exec_mem_def keeps)
  show "exec_opt P (exec_branch i st)"
    using assms by (cases "insn_ty i") (simp_all add: exec_branch_def keeps Let_def)
  show "exec_opt P (exec_upper i st)"
    using assms by (cases "insn_ty i") (simp_all add: exec_upper_def keeps)
  have "exec_all P (rbind (rvemu_dispatch_syscall env st) fall)"
    using assms keeps_syscall by (intro exec_all_rbind) simp
  then show "exec_opt P (exec_env env i st)"
    using assms by (simp add: exec_env_def keeps rvemu_dispatch_debug_def)
qed

lemma keeps_m: "P st \<Longrightarrow> exec_all P (exec_m m i st)"
  by (cases m) (simp_all add: exec_m_def keeps)

lemma keeps_fd: "P st \<Longrightarrow> exec_all P (exec_fd env f i st)"
  unfolding exec_fd_def
  by (rule exec_all_first_case; cases f) (simp_all add: fd_defs keeps Let_def)

lemma keeps_dispatch:
  assumes "P st" and "rvemu_dispatch env i st = Inr st'"
  shows "P st'"
proof -
  have bk: "P (rvbkpt_check_insn i st)"
    using assms(1) by (rule keeps_bkpt)
  have "exec_all P (dispatch_switch env i (rvbkpt_check_insn i st))"
    unfolding dispatch_switch_def
    by (rule exec_all_first_case; cases "insn_ty i")
      (simp_all add: keeps_groups [OF bk] keeps_m [OF bk] keeps_fd [OF bk] exec_c_def
        keeps_unimplemented [OF bk])
  then obtain fl where "P (flow_state fl)" "st' = flow_end fl"
    using assms(2) by (auto simp: rvemu_dispatch_def rbind_eq_Inr exec_all_def)
  then show ?thesis by (cases fl) (simp_all add: keeps_pc)
qed

lemma keeps_decode: "P st \<Longrightarrow> rvdec_insn st w = Inr (i, st') \<Longrightarrow> P st'"
  using keeps_diag rvdec_insn_diag by blast

end

interpretation state_ok: state_invariant env state_ok for env
proof
  show "state_ok st \<Longrightarrow> guest_write st a bs = Inr st' \<Longrightarrow> state_ok st'" for st a bs st'
    by (rule state_ok_guest_write)
  show "state_ok st \<Longrightarrow> rvemu_dispatch_syscall env st = Inr st' \<Longrightarrow> state_ok st'" for st st'
    by (rule state_ok_dispatch_syscall)
  show "state_ok st \<Longrightarrow> diag_ext st st' \<Longrightarrow> state_ok st'" for st st'
    by (simp add: diag_ext_state_ok)
qed simp_all

section \<open>The address space is fixed\<close>

text \<open>What translation reads of a region; the program break is not part of it.\<close>

definition region_shape :: "elf_load_region \<Rightarrow> u32 \<times> hptr \<times> u32" where
  "region_shape r = (vma_base r, mem_base r, sz_reserved r)"

definition address_map :: "rvstate \<Rightarrow> (u32 \<times> hptr \<times> u32) list" where
  "address_map st = map region_shape (load_regions (mem st))"

lemma vma_to_mem_loop_shape:
  "map region_shape rs = map region_shape rs' \<Longrightarrow> vma_to_mem_loop rs a = vma_to_mem_loop rs' a"
  by (induction rs rs' rule: list_induct2') (auto simp: region_shape_def vma_outside_def)

lemma address_map_translation:
  "address_map st' = address_map st \<Longrightarrow> elf_vma_to_mem (mem st') a = elf_vma_to_mem (mem st) a"
  unfolding address_map_def elf_vma_to_mem_def by (rule vma_to_mem_loop_shape)

lemma vmas_apart_shape:
  "region_shape r = region_shape r' \<Longrightarrow> map region_shape rs = map region_shape rs' \<Longrightarrow>
     list_all (vmas_apart r) rs = list_all (vmas_apart r') rs'"
  by (induction rs rs' rule: list_induct2') (auto simp: region_shape_def vmas_apart_def)

lemma guest_layout_shape:
  "map region_shape rs = map region_shape rs' \<Longrightarrow> guest_layout rs = guest_layout rs'"
proof (induction rs rs' rule: list_induct2')
  case (4 r rs r' rs')
  then have r: "region_shape r = region_shape r'" and rs: "map region_shape rs = map region_shape rs'"
    by simp_all
  have "region_fits r = region_fits r'" using r by (simp add: region_shape_def region_fits_def)
  with 4 vmas_apart_shape [OF r rs] rs show ?case by (simp add: guest_layout_Cons)
qed simp_all

lemma address_map_layout: "address_map st' = address_map st \<Longrightarrow> layout_ok st' = layout_ok st"
  unfolding address_map_def layout_ok_def by (rule guest_layout_shape)

lemma address_map_simps [simp]:
  "address_map (set_reg r v st) = address_map st" "address_map (set_freg r w st) = address_map st"
  "address_map (st\<lparr>pc := t\<rparr>) = address_map st" "address_map (st\<lparr>host := h\<rparr>) = address_map st"
  "address_map (st\<lparr>regs := rs\<rparr>) = address_map st" "address_map (st\<lparr>suspended := b\<rparr>) = address_map st"
  "address_map (emit e st) = address_map st" "address_map (rvbkpt_check_insn i st) = address_map st"
  by (simp_all add: address_map_def set_reg_def set_freg_def emit_def rvbkpt_check_insn_def)

lemma address_map_brk: "rvsysc_brk x st = Inr (v, st') \<Longrightarrow> address_map st' = address_map st"
  by (auto simp: rvsysc_brk_def Let_def address_map_def map_update region_shape_def
      list_update_same_conv dest: elf_get_heap_region_less split: option.splits if_splits)

lemma address_map_syscall:
  assumes "rvemu_dispatch_syscall env st = Inr st'"
  shows "address_map st' = address_map st"
  using assms by (cases rule: dispatch_syscallE) (auto dest: address_map_brk)

interpretation fixed_map: state_invariant env "\<lambda>st. address_map st = M" for env M
proof
  show "address_map st = M \<Longrightarrow> guest_write st a bs = Inr st' \<Longrightarrow> address_map st' = M" for st a bs st'
    by (auto simp: guest_write_eq_Inr)
  show "address_map st = M \<Longrightarrow> diag_ext st st' \<Longrightarrow> address_map st' = M" for st st'
    by (auto simp: diag_ext_def address_map_def)
qed (simp_all add: address_map_syscall)

text \<open>The trace only grows.\<close>

lemma trace_brk: "rvsysc_brk x st = Inr (v, st') \<Longrightarrow> trace st' = trace st"
  by (auto simp: rvsysc_brk_def Let_def split: option.splits if_splits)

lemma trace_syscall:
  assumes "rvemu_dispatch_syscall env st = Inr st'"
  shows "\<exists>es. trace st' = trace st @ es"
  using assms by (cases rule: dispatch_syscallE) (auto simp: emit_def dest: trace_brk)

interpretation trace_grows: state_invariant env "\<lambda>st. \<exists>es. trace st = es0 @ es" for env es0
proof
  show "\<exists>es. trace st' = es0 @ es"
    if "\<exists>es. trace st = es0 @ es" "rvemu_dispatch_syscall env st = Inr st'" for st st'
    using that trace_syscall by fastforce
qed (auto simp: set_reg_def set_freg_def guest_write_eq_Inr diag_ext_def rvbkpt_check_insn_def)

end
