(* ===== verification/ElfInit.thy ===== *)
theory ElfInit
  imports Elf
begin

text \<open>
  \<^verbatim>\<open>elf_init\<close> of \<^verbatim>\<open>src/elf.c\<close>: parsing the ELF header, the search of the section
  table for \<^verbatim>\<open>.bss\<close>, the loading of the segments, and the allocation of the heap and
  the stack behind \<^verbatim>\<open>.bss\<close>.  The file is a list of bytes; a read beyond its end is
  \<open>Undefined\<close>, as the code checks only the length of the header.
\<close>

section \<open>Reading the file image\<close>

definition file_read :: "u8 list \<Rightarrow> nat \<Rightarrow> nat \<Rightarrow> 'a::len word res" where
  "file_read bytes p n =
     (if p + n \<le> length bytes then Inr (le_word (take n (drop p bytes)))
      else Inl (Undefined ''read beyond the end of the file image''))"

definition file_u8 :: "u8 list \<Rightarrow> nat \<Rightarrow> u8 res" where
  "file_u8 bytes p = file_read bytes p 1"

definition file_u16 :: "u8 list \<Rightarrow> nat \<Rightarrow> u16 res" where
  "file_u16 bytes p = file_read bytes p 2"

definition file_u32 :: "u8 list \<Rightarrow> nat \<Rightarrow> u32 res" where
  "file_u32 bytes p = file_read bytes p 4"

text \<open>\<open>Elf32_Ehdr\<close>; the fields the code never reads (type, flags, header size) are left out.\<close>

record elf32_ehdr =
  e_ident :: "u8 list"
  e_machine :: u16
  e_version :: u32
  e_entry :: u32
  e_phoff :: u32
  e_shoff :: u32
  e_phentsize :: u16
  e_phnum :: u16
  e_shentsize :: u16
  e_shnum :: u16
  e_shstrndx :: u16

definition sizeof_ehdr :: nat where
  "sizeof_ehdr = 52"

definition ehdr_of :: "u8 list \<Rightarrow> elf32_ehdr" where
  "ehdr_of bytes = \<lparr>e_ident = take 16 bytes,
     e_machine = le_word (take 2 (drop 18 bytes)),
     e_version = le_word (take 4 (drop 20 bytes)),
     e_entry = le_word (take 4 (drop 24 bytes)),
     e_phoff = le_word (take 4 (drop 28 bytes)),
     e_shoff = le_word (take 4 (drop 32 bytes)),
     e_phentsize = le_word (take 2 (drop 42 bytes)),
     e_phnum = le_word (take 2 (drop 44 bytes)),
     e_shentsize = le_word (take 2 (drop 46 bytes)),
     e_shnum = le_word (take 2 (drop 48 bytes)),
     e_shstrndx = le_word (take 2 (drop 50 bytes))\<rparr>"

text \<open>Fields of the section header (\<open>Elf32_Shdr\<close>) and program header (\<open>Elf32_Phdr\<close>) at an offset.\<close>

definition sh_name :: "u8 list \<Rightarrow> nat \<Rightarrow> u32 res" where
  "sh_name bytes p = file_u32 bytes p"

definition sh_addr :: "u8 list \<Rightarrow> nat \<Rightarrow> u32 res" where
  "sh_addr bytes p = file_u32 bytes (p + 12)"

definition sh_offset :: "u8 list \<Rightarrow> nat \<Rightarrow> u32 res" where
  "sh_offset bytes p = file_u32 bytes (p + 16)"

definition sh_size :: "u8 list \<Rightarrow> nat \<Rightarrow> u32 res" where
  "sh_size bytes p = file_u32 bytes (p + 20)"

definition p_offset :: "u8 list \<Rightarrow> nat \<Rightarrow> u32 res" where
  "p_offset bytes p = file_u32 bytes (p + 4)"

definition p_vaddr :: "u8 list \<Rightarrow> nat \<Rightarrow> u32 res" where
  "p_vaddr bytes p = file_u32 bytes (p + 8)"

definition p_filesz :: "u8 list \<Rightarrow> nat \<Rightarrow> u32 res" where
  "p_filesz bytes p = file_u32 bytes (p + 16)"

definition p_memsz :: "u8 list \<Rightarrow> nat \<Rightarrow> u32 res" where
  "p_memsz bytes p = file_u32 bytes (p + 20)"

text \<open>\<^verbatim>\<open>!strcmp (p, s)\<close> for a string literal \<open>s\<close>: bytes are compared up to the first difference.\<close>

fun strcmp_eq :: "u8 list \<Rightarrow> nat \<Rightarrow> u8 list \<Rightarrow> bool res" where
  "strcmp_eq bytes p [] = rbind (file_u8 bytes p) (\<lambda>b. Inr (b = 0))"
| "strcmp_eq bytes p (c # cs) =
     rbind (file_u8 bytes p) (\<lambda>b. if b = c then strcmp_eq bytes (Suc p) cs else Inr False)"

definition dot_bss :: "u8 list" where
  "dot_bss = [0x2e, 0x62, 0x73, 0x73]"

section \<open>The identification checks\<close>

text \<open>Whether the header passes every early return of \<open>elf_init\<close>.\<close>

definition ehdr_accepted :: "elf32_ehdr \<Rightarrow> bool" where
  "ehdr_accepted eh \<longleftrightarrow>
     e_ident eh ! 0 = 0x7f \<and> e_ident eh ! 1 = 0x45 \<and> e_ident eh ! 2 = 0x4c \<and> e_ident eh ! 3 = 0x46
     \<and> (e_ident eh ! 4 = 1 \<or> e_ident eh ! 4 = 2)
     \<and> (e_ident eh ! 5 = 1 \<or> e_ident eh ! 5 = 2)
     \<and> e_ident eh ! 6 = 1
     \<and> e_machine eh \<noteq> 0
     \<and> e_phoff eh \<noteq> 0"

section \<open>The search for \<open>.bss\<close>\<close>

definition scan_section :: "u8 list \<Rightarrow> u32 \<Rightarrow> nat \<Rightarrow> u32 \<times> u32 \<Rightarrow> (u32 \<times> u32) res" where
  "scan_section bytes strtab p bss =
     rbind (sh_addr bytes p) (\<lambda>addr.
       if addr = 0 then Inr bss
       else rbind (sh_name bytes p) (\<lambda>nm.
         rbind (strcmp_eq bytes (unat strtab + unat nm) dot_bss) (\<lambda>eq.
           if eq then rbind (sh_size bytes p) (\<lambda>sz. Inr (addr, sz)) else Inr bss)))"

fun scan_sections :: "u8 list \<Rightarrow> u32 \<Rightarrow> elf32_ehdr \<Rightarrow> nat list \<Rightarrow> u32 \<times> u32 \<Rightarrow> (u32 \<times> u32) res" where
  "scan_sections bytes strtab eh [] bss = Inr bss"
| "scan_sections bytes strtab eh (i # is) bss =
     rbind (scan_section bytes strtab (unat (e_shoff eh) + i * unat (e_shentsize eh)) bss)
       (scan_sections bytes strtab eh is)"

text \<open>
  The offset of the string table's header: two 16-bit fields are promoted to \<^verbatim>\<open>int\<close> and
  multiplied, which overflows from \<open>2 ^ 31\<close> on.
\<close>

definition find_bss :: "u8 list \<Rightarrow> elf32_ehdr \<Rightarrow> (u32 \<times> u32) res" where
  "find_bss bytes eh =
     (let prod = unat (e_shstrndx eh) * unat (e_shentsize eh) in
      if prod \<ge> 2 ^ 31 then Inl (Undefined ''signed overflow'')
      else rbind (sh_offset bytes (unat (e_shoff eh) + prod)) (\<lambda>strtab.
        scan_sections bytes strtab eh [0..<unat (e_shnum eh)] (0, 0)))"

section \<open>What the search finds\<close>

lemma file_u8_Inr: "file_u8 bytes p = Inr b \<longleftrightarrow> p < length bytes \<and> bytes ! p = b"
proof -
  have "take 1 (drop p bytes) = [bytes ! p]" if "p < length bytes"
    using that by (simp add: Cons_nth_drop_Suc [symmetric])
  then show ?thesis by (auto simp: file_u8_def file_read_def)
qed

lemma strcmp_eq_True:
  "strcmp_eq bytes p s = Inr True \<longleftrightarrow> take (Suc (length s)) (drop p bytes) = s @ [0]"
proof (induction s arbitrary: p)
  case Nil
  show ?case
    by (cases "p < length bytes")
      (auto simp: rbind_eq_Inr file_u8_Inr Cons_nth_drop_Suc [symmetric])
next
  case (Cons c s)
  have "strcmp_eq bytes p (c # s) = Inr True \<longleftrightarrow> p < length bytes \<and> bytes ! p = c \<and> strcmp_eq bytes (Suc p) s = Inr True"
    by (auto simp: rbind_eq_Inr file_u8_Inr)
  then show ?case
    by (cases "p < length bytes") (auto simp: Cons.IH Cons_nth_drop_Suc [symmetric])
qed

text \<open>
  The section whose header stands at \<open>p\<close> is mapped at \<open>a\<close>, has \<open>n\<close> bytes, and its name, a
  zero-terminated string at its place in the string table, is \<^verbatim>\<open>.bss\<close>.
\<close>

definition bss_section :: "u8 list \<Rightarrow> u32 \<Rightarrow> nat \<Rightarrow> u32 \<Rightarrow> u32 \<Rightarrow> bool" where
  "bss_section bytes strtab p a n \<longleftrightarrow> sh_addr bytes p = Inr a \<and> a \<noteq> 0 \<and> sh_size bytes p = Inr n
     \<and> (\<exists>nm. sh_name bytes p = Inr nm \<and> take 5 (drop (unat strtab + unat nm) bytes) = dot_bss @ [0])"

lemma named_bss: "strcmp_eq bytes p dot_bss = Inr True \<longleftrightarrow> take 5 (drop p bytes) = dot_bss @ [0]"
proof -
  have "Suc (length dot_bss) = 5" by (simp add: dot_bss_def)
  with strcmp_eq_True [of bytes p dot_bss] show ?thesis by simp
qed

lemma scan_section_cases:
  assumes "scan_section bytes strtab p bss = Inr bss'"
  shows "bss' = bss \<and> (\<forall>a n. \<not> bss_section bytes strtab p a n) \<or> bss_section bytes strtab p (fst bss') (snd bss')"
  using assms
  by (auto simp: scan_section_def rbind_eq_Inr bss_section_def named_bss [symmetric] split: if_splits)

text \<open>The last section so named in the section table.\<close>

definition last_bss :: "u8 list \<Rightarrow> u32 \<Rightarrow> u32 \<Rightarrow> bool" where
  "last_bss bytes a n \<longleftrightarrow>
     (let eh = ehdr_of bytes; header = \<lambda>k. unat (e_shoff eh) + k * unat (e_shentsize eh)
      in \<exists>strtab k. sh_offset bytes (header (unat (e_shstrndx eh))) = Inr strtab \<and> k < unat (e_shnum eh)
           \<and> bss_section bytes strtab (header k) a n
           \<and> (\<forall>j. k < j \<and> j < unat (e_shnum eh) \<longrightarrow> (\<forall>a' n'. \<not> bss_section bytes strtab (header j) a' n')))"

lemma scan_sections_last:
  assumes "scan_sections bytes strtab eh is bss = Inr bss'"
  shows "bss' = bss
      \<and> (\<forall>j\<in>set is. \<forall>a n. \<not> bss_section bytes strtab (unat (e_shoff eh) + j * unat (e_shentsize eh)) a n)
    \<or> (\<exists>xs k ys. is = xs @ k # ys
      \<and> bss_section bytes strtab (unat (e_shoff eh) + k * unat (e_shentsize eh)) (fst bss') (snd bss')
      \<and> (\<forall>j\<in>set ys. \<forall>a n. \<not> bss_section bytes strtab (unat (e_shoff eh) + j * unat (e_shentsize eh)) a n))"
  using assms
proof (induction "is" arbitrary: bss)
  case (Cons i "is")
  let ?p = "unat (e_shoff eh) + i * unat (e_shentsize eh)"
  from Cons.prems obtain b1 where
    b1: "scan_section bytes strtab ?p bss = Inr b1" "scan_sections bytes strtab eh is b1 = Inr bss'"
    by (auto simp: rbind_eq_Inr)
  from Cons.IH [OF b1(2)] show ?case
  proof (elim disjE exE conjE)
    fix xs k ys
    assume "is = xs @ k # ys"
      and "bss_section bytes strtab (unat (e_shoff eh) + k * unat (e_shentsize eh)) (fst bss') (snd bss')"
      and "\<forall>j\<in>set ys. \<forall>a n. \<not> bss_section bytes strtab (unat (e_shoff eh) + j * unat (e_shentsize eh)) a n"
    then show ?thesis by (intro disjI2 exI [of _ "i # xs"] exI [of _ k] exI [of _ ys]) simp
  next
    assume "bss' = b1"
      and none: "\<forall>j\<in>set is. \<forall>a n. \<not> bss_section bytes strtab (unat (e_shoff eh) + j * unat (e_shentsize eh)) a n"
    with scan_section_cases [OF b1(1)] show ?thesis
      by (elim disjE conjE) (simp, intro disjI2 exI [of _ "[]"] exI [of _ i] exI [of _ "is"], simp)
  qed
qed simp

lemma find_bss_last:
  assumes "find_bss bytes (ehdr_of bytes) = Inr (a, n)" and "a \<noteq> 0"
  shows "last_bss bytes a n"
proof -
  let ?eh = "ehdr_of bytes"
  obtain strtab where s: "sh_offset bytes (unat (e_shoff ?eh) + unat (e_shstrndx ?eh) * unat (e_shentsize ?eh)) = Inr strtab"
    "scan_sections bytes strtab ?eh [0..<unat (e_shnum ?eh)] (0, 0) = Inr (a, n)"
    using assms(1) by (auto simp: find_bss_def Let_def rbind_eq_Inr split: if_splits)
  from scan_sections_last [OF s(2)] assms(2) obtain xs k ys where
    k: "[0..<unat (e_shnum ?eh)] = xs @ k # ys"
      "bss_section bytes strtab (unat (e_shoff ?eh) + k * unat (e_shentsize ?eh)) a n"
      "\<forall>j\<in>set ys. \<forall>a n. \<not> bss_section bytes strtab (unat (e_shoff ?eh) + j * unat (e_shentsize ?eh)) a n"
    by auto
  have "sorted_wrt (<) (xs @ k # ys)" unfolding k(1) [symmetric] by (rule sorted_wrt_upt)
  then have xs: "\<forall>x\<in>set xs. x < k" by (simp add: sorted_wrt_append)
  have all: "set (xs @ k # ys) = {0..<unat (e_shnum ?eh)}" unfolding k(1) [symmetric] by simp
  then have "k < unat (e_shnum ?eh)" by auto
  moreover have "j \<in> set ys" if "k < j" "j < unat (e_shnum ?eh)" for j
  proof -
    have "j \<in> set (xs @ k # ys)" unfolding all using that(2) by simp
    with that(1) xs show ?thesis by auto
  qed
  ultimately show ?thesis using s(1) k(2,3) by (auto simp: last_bss_def Let_def)
qed

section \<open>Loading segments\<close>

definition file_slice :: "u8 list \<Rightarrow> nat \<Rightarrow> nat \<Rightarrow> u8 list res" where
  "file_slice bytes p n =
     (if p + n \<le> length bytes then Inr (take n (drop p bytes))
      else Inl (Undefined ''read beyond the end of the file image''))"

type_synonym load_state = "elf_load_region list \<times> hheap"

text \<open>
  One iteration of the program header loop.  The bound check adds two 32-bit fields, so the sum
  wraps; the size of the block is \<open>p_memsz\<close> and the size of the copy is \<open>p_filesz\<close>.
\<close>

definition load_segment :: "u8 list \<Rightarrow> nat \<Rightarrow> load_state \<Rightarrow> load_state res" where
  "load_segment bytes p st =
     rbind (p_memsz bytes p) (\<lambda>memsz.
       if memsz = 0 then Inr st
       else rbind (p_offset bytes p) (\<lambda>offs. rbind (p_filesz bytes p) (\<lambda>filesz.
         if unat (offs + filesz) > length bytes then Inr st
         else rbind (p_vaddr bytes p) (\<lambda>vaddr.
           rbind (halloc ''failed to allocate context LOAD region'' (unat memsz) (snd st))
             (\<lambda>(base, h). rbind (file_slice bytes (unat offs) (unat filesz)) (\<lambda>bs.
               rbind (hwrite h base bs) (\<lambda>h'.
                 Inr (fst st @ [\<lparr>vma_base = vaddr, mem_base = base, sz_alloc = 0,
                        sz_reserved = memsz, tag = Some ''LOAD''\<rparr>], h'))))))))"

fun load_segments :: "u8 list \<Rightarrow> elf32_ehdr \<Rightarrow> nat list \<Rightarrow> load_state \<Rightarrow> load_state res" where
  "load_segments bytes eh [] st = Inr st"
| "load_segments bytes eh (i # is) st =
     rbind (load_segment bytes (unat (e_phoff eh) + i * unat (e_phentsize eh)) st)
       (load_segments bytes eh is)"

section \<open>Heap and stack\<close>

definition PROG_HEAP_SIZE :: nat where
  "PROG_HEAP_SIZE = 1024 * 1024"

definition PROG_STACK_SIZE :: nat where
  "PROG_STACK_SIZE = 1024 * 1024"

text \<open>The two allocations whose result the code does not check.\<close>

definition calloc_unchecked :: "nat \<Rightarrow> hheap \<Rightarrow> hptr \<times> hheap" where
  "calloc_unchecked n h = (case calloc n h of None \<Rightarrow> (0, h) | Some r \<Rightarrow> r)"

definition add_heap_stack :: "u32 \<times> u32 \<Rightarrow> u32 \<Rightarrow> load_state \<Rightarrow> elf_context \<times> hheap" where
  "add_heap_stack bss entry st =
     (let (hb, h1) = calloc_unchecked PROG_HEAP_SIZE (snd st);
          heap = \<lparr>vma_base = fst bss + snd bss, mem_base = hb, sz_alloc = 0,
                  sz_reserved = of_nat PROG_HEAP_SIZE, tag = Some REGION_TAG_HEAP\<rparr>;
          (sb, h2) = calloc_unchecked PROG_STACK_SIZE h1;
          stack = \<lparr>vma_base = vma_base heap + of_nat PROG_HEAP_SIZE, mem_base = sb, sz_alloc = 0,
                   sz_reserved = of_nat PROG_STACK_SIZE, tag = Some REGION_TAG_STACK\<rparr>
      in (\<lparr>load_regions = fst st @ [heap, stack], entry_point = entry, bp = vma_base stack,
           sp = vma_base stack + sz_reserved stack - 1\<rparr>, h2))"

section \<open>\<open>elf_init\<close>\<close>

text \<open>
  The context itself and the region array live in host blocks too (32 bytes each per element);
  their allocations are modelled for their failure only.
\<close>

definition elf_init :: "u8 list \<Rightarrow> hheap \<Rightarrow> (elf_context \<times> hheap) res" where
  "elf_init bytes h =
     rbind (halloc ''failed to allocate ELF parsing context'' 32 h) (\<lambda>(_, h).
       if length bytes < sizeof_ehdr then Inr (context_zero, h)
       else let eh = ehdr_of bytes in
         if \<not> ehdr_accepted eh then Inr (context_zero, h)
         else rbind (find_bss bytes eh) (\<lambda>bss.
           rbind (halloc ''failed to allocate ELF LOAD region array''
                    ((unat (e_phnum eh) + 2) * 32) h) (\<lambda>(_, h).
             rbind (load_segments bytes eh [0..<unat (e_phnum eh)] ([], h)) (\<lambda>(rs, h).
               rbind (halloc ''failed to realloc-downsize LOAD regions''
                        ((length rs + 2) * 32) h) (\<lambda>(_, h).
                 if fst bss = 0
                 then Inr (context_zero\<lparr>load_regions := rs @ [region_zero, region_zero],
                             entry_point := e_entry eh\<rparr>, h)
                 else Inr (add_heap_stack bss (e_entry eh) (rs, h)))))))"

section \<open>Segments are loaded into blocks of their own\<close>

definition load_inv :: "load_state \<Rightarrow> bool" where
  "load_inv st \<longleftrightarrow> heap_ok (snd st) \<and> regions_backed (snd st) (fst st)"

lemma write_fits_block:
  assumes "heap_ok h" and "calloc n h = Some (p, h')" and "hwrite h' p bs = Inr h''"
  shows "length bs \<le> n"
proof (rule ccontr)
  assume "\<not> length bs \<le> n"
  then have "live h' (p + n)" using assms(3) by (simp add: hwrite_eq_Inr)
  then show False using heap.alloc_end [OF assms(1,2)] by blast
qed

lemma regions_backed_snoc:
  assumes ok: "heap_ok h" and c: "calloc n h = Some (p, h')" and backed: "regions_backed h rs"
    and r: "mem_base r = p" "unat (sz_reserved r) = n"
  shows "regions_backed h' (rs @ [r])"
proof -
  have "blocks_apart s r" if s: "s \<in> set rs" for s
  proof (cases "sz_reserved s = 0")
    case False
    then have "\<forall>i<unat (sz_reserved s). live h (mem_base s + i)"
      using backed s by (auto simp: regions_backed_def region_backed_def list_all_iff)
    moreover have "0 < unat (sz_reserved s)" using False by (simp add: unat_gt_0)
    ultimately have "mem_base s + unat (sz_reserved s) \<le> p"
      using heap.alloc_above [OF ok c] by blast
    then show ?thesis by (simp add: blocks_apart_def ranges_apart_def r)
  qed (simp add: blocks_apart_def)
  moreover have "region_backed h' r"
    using heap.alloc_block [OF ok c] heap.alloc_nonnull [OF ok c] by (simp add: region_backed_def r)
  ultimately show ?thesis
    using regions_backed_calloc [OF ok c backed]
    by (auto simp: regions_backed_def sorted_wrt_append)
qed

lemma load_segmentE:
  assumes "load_segment bytes p (rs, h) = Inr (rs', h')"
  obtains (skipped) "rs' = rs" "h' = h"
  | (loaded) memsz offs filesz vaddr base h1 where
      "p_memsz bytes p = Inr memsz" "memsz \<noteq> 0" "p_offset bytes p = Inr offs"
      "p_filesz bytes p = Inr filesz" "p_vaddr bytes p = Inr vaddr"
      "unat offs + unat filesz \<le> length bytes"
      "calloc (unat memsz) h = Some (base, h1)"
      "hwrite h1 base (take (unat filesz) (drop (unat offs) bytes)) = Inr h'"
      "rs' = rs @ [\<lparr>vma_base = vaddr, mem_base = base, sz_alloc = 0, sz_reserved = memsz,
                tag = Some ''LOAD''\<rparr>]"
  using assms unfolding load_segment_def file_slice_def
  by (auto simp: rbind_eq_Inr split: if_splits)

lemma load_segment_inv:
  assumes "load_inv st" and "load_segment bytes p st = Inr st'"
  shows "load_inv st'"
proof -
  obtain rs h rs' h' where st: "st = (rs, h)" "st' = (rs', h')" by fastforce
  from assms(1) have ok: "heap_ok h" and backed: "regions_backed h rs"
    by (simp_all add: load_inv_def st)
  from assms(2) have "load_segment bytes p (rs, h) = Inr (rs', h')" by (simp add: st)
  then show ?thesis
  proof (cases rule: load_segmentE)
    case skipped
    then show ?thesis using assms(1) by (simp add: st)
  next
    case (loaded memsz offs filesz vaddr base h1)
    from loaded(7) ok have ok1: "heap_ok h1" by (blast intro: heap.alloc_ok)
    from loaded(7) ok backed loaded(9) have "regions_backed h1 rs'"
      by (auto intro!: regions_backed_snoc)
    with loaded(8) have "regions_backed h' rs'"
      using hwrite_live regions_backed_live by blast
    with ok1 loaded(8) show ?thesis by (auto simp: load_inv_def st intro: hwrite_heap_ok)
  qed
qed

text \<open>Loading one segment leaves every byte that was allocated before as it was.\<close>

lemma load_segment_frame:
  assumes ok: "heap_ok h" and l: "load_segment bytes p (rs, h) = Inr (rs', h')" and a: "live h a"
  shows "cells h' a = cells h a"
  using l
proof (cases rule: load_segmentE)
  case (loaded memsz offs filesz vaddr base h1)
  have "\<not> base \<le> a" using heap.alloc_fresh [OF ok loaded(7)] a by blast
  then have "cells h' a = cells h1 a" using loaded(8) by (auto simp: hwrite_eq_Inr put_bytes_def)
  then show ?thesis using calloc_frame [OF loaded(7) ok a] by simp
qed simp

text \<open>
  \<open>segment_image bytes p r h\<close>: region \<open>r\<close> is the segment whose program header stands at offset
  \<open>p\<close>: its block holds the file's bytes, then zeros.
\<close>

definition segment_image :: "u8 list \<Rightarrow> nat \<Rightarrow> elf_load_region \<Rightarrow> hheap \<Rightarrow> bool" where
  "segment_image bytes p r h \<longleftrightarrow>
     (\<exists>offs filesz.
        p_memsz bytes p = Inr (sz_reserved r) \<and> p_vaddr bytes p = Inr (vma_base r)
        \<and> p_offset bytes p = Inr offs \<and> p_filesz bytes p = Inr filesz
        \<and> filesz \<le> sz_reserved r \<and> unat offs + unat filesz \<le> length bytes
        \<and> (\<forall>k<unat (sz_reserved r). cells h (mem_base r + k)
             = Some (if k < unat filesz then bytes ! (unat offs + k) else 0)))"

lemma segment_image_frame:
  assumes "segment_image bytes p r h" and "\<And>a. live h a \<Longrightarrow> cells h' a = cells h a"
  shows "segment_image bytes p r h'"
  using assms unfolding segment_image_def live_def by (metis option.distinct(1))

lemma load_segment_image:
  assumes ok: "heap_ok h" and l: "load_segment bytes p (rs, h) = Inr (rs', h')"
  shows "rs' = rs \<or> (\<exists>r. rs' = rs @ [r] \<and> tag r = Some ''LOAD'' \<and> segment_image bytes p r h')"
  using l
proof (cases rule: load_segmentE)
  case (loaded memsz offs filesz vaddr base h1)
  let ?bs = "take (unat filesz) (drop (unat offs) bytes)"
  have len: "length ?bs = unat filesz" using loaded(6) by simp
  have "unat filesz \<le> unat memsz" using write_fits_block [OF ok loaded(7,8)] len by simp
  moreover have "cells h' (base + k) = Some (if k < unat filesz then bytes ! (unat offs + k) else 0)"
    if "k < unat memsz" for k
    using loaded(6,8) calloc_zeroed [OF loaded(7) that] len
    by (auto simp: hwrite_eq_Inr put_bytes_def)
  ultimately show ?thesis
    using loaded by (auto simp: segment_image_def word_le_nat_alt)
qed simp

text \<open>Loading keeps the regions loaded before, and their bytes.\<close>

lemma load_segments_frame:
  "load_segments bytes eh is (rs, h) = Inr (rs', h') \<Longrightarrow> load_inv (rs, h) \<Longrightarrow> live h a \<Longrightarrow>
     live h' a \<and> cells h' a = cells h a"
proof (induction "is" arbitrary: rs h)
  case (Cons j "is")
  let ?p = "unat (e_phoff eh) + j * unat (e_phentsize eh)"
  obtain rs1 h1 where one: "load_segment bytes ?p (rs, h) = Inr (rs1, h1)"
    and rest: "load_segments bytes eh is (rs1, h1) = Inr (rs', h')"
    using Cons.prems(1) by (auto elim!: rbind_InrE)
  have "heap_ok h" using Cons.prems(2) by (simp add: load_inv_def)
  from load_segment_frame [OF this one Cons.prems(3)] have c: "cells h1 a = cells h a" .
  then have "live h1 a" using Cons.prems(3) by (simp add: live_def)
  with Cons.IH [OF rest load_segment_inv [OF Cons.prems(2) one]] c show ?case by simp
qed simp

lemma load_segments_mono: "load_segments bytes eh is (rs, h) = Inr (rs', h') \<Longrightarrow> set rs \<subseteq> set rs'"
proof (induction "is" arbitrary: rs h)
  case (Cons j "is")
  from Cons.prems obtain rs1 h1 where
    one: "load_segment bytes (unat (e_phoff eh) + j * unat (e_phentsize eh)) (rs, h) = Inr (rs1, h1)"
    and rest: "load_segments bytes eh is (rs1, h1) = Inr (rs', h')"
    by (auto elim!: rbind_InrE)
  have "set rs \<subseteq> set rs1"
    using one by (auto simp: load_segment_def rbind_eq_Inr split: if_splits)
  with Cons.IH [OF rest] show ?case by blast
qed simp

definition image_inv :: "u8 list \<Rightarrow> elf32_ehdr \<Rightarrow> load_state \<Rightarrow> bool" where
  "image_inv bytes eh st \<longleftrightarrow> (\<forall>r\<in>set (fst st). tag r = Some ''LOAD''
     \<and> (\<exists>i<unat (e_phnum eh). segment_image bytes (unat (e_phoff eh) + i * unat (e_phentsize eh)) r (snd st)))"

lemma load_segments_inv:
  assumes "load_segments bytes eh is st = Inr st'" and "load_inv st" and "image_inv bytes eh st"
    and "\<forall>i\<in>set is. i < unat (e_phnum eh)"
  shows "load_inv st' \<and> image_inv bytes eh st'"
  using assms
proof (induction "is" arbitrary: st)
  case Nil
  then show ?case by simp
next
  case (Cons i "is")
  let ?p = "unat (e_phoff eh) + i * unat (e_phentsize eh)"
  obtain st1 where one: "load_segment bytes ?p st = Inr st1" and rest: "load_segments bytes eh is st1 = Inr st'"
    using Cons.prems(1) by (auto elim: rbind_InrE)
  obtain rs h rs1 h1 where st: "st = (rs, h)" "st1 = (rs1, h1)" by fastforce
  from Cons.prems(2) have ok: "heap_ok h" by (simp add: load_inv_def st)
  note one' = one [unfolded st]
  have "image_inv bytes eh st1"
    using Cons.prems(3,4) load_segment_image [OF ok one']
      segment_image_frame [OF _ load_segment_frame [OF ok one']]
    unfolding image_inv_def st by fastforce
  then show ?case
    using Cons.IH [OF rest load_segment_inv [OF Cons.prems(2) one]] Cons.prems(4) by simp
qed

section \<open>What \<open>elf_init\<close> returns\<close>

lemma elf_initE:
  assumes "elf_init bytes h = Inr (ctx, h')" and "heap_ok h"
  obtains (refused) p where "ctx = context_zero" "calloc 32 h = Some (p, h')"
      "length bytes < sizeof_ehdr \<or> \<not> ehdr_accepted (ehdr_of bytes)"
  | (loaded) bss h1 rs h2 p h3 where
      "sizeof_ehdr \<le> length bytes" "ehdr_accepted (ehdr_of bytes)" "find_bss bytes (ehdr_of bytes) = Inr bss"
      "heap_ok h1"
      "load_segments bytes (ehdr_of bytes) [0..<unat (e_phnum (ehdr_of bytes))] ([], h1) = Inr (rs, h2)"
      "calloc ((length rs + 2) * 32) h2 = Some (p, h3)"
      "(ctx, h') = (if fst bss = 0
         then (context_zero\<lparr>load_regions := rs @ [region_zero, region_zero],
                 entry_point := e_entry (ehdr_of bytes)\<rparr>, h3)
         else add_heap_stack bss (e_entry (ehdr_of bytes)) (rs, h3))"
proof -
  from assms(1) obtain p0 h0 where a: "calloc 32 h = Some (p0, h0)"
    and body: "(if length bytes < sizeof_ehdr then Inr (context_zero, h0)
       else let eh = ehdr_of bytes in
         if \<not> ehdr_accepted eh then Inr (context_zero, h0)
         else rbind (find_bss bytes eh) (\<lambda>bss.
           rbind (halloc ''failed to allocate ELF LOAD region array''
                    ((unat (e_phnum eh) + 2) * 32) h0) (\<lambda>(_, h).
             rbind (load_segments bytes eh [0..<unat (e_phnum eh)] ([], h)) (\<lambda>(rs, h).
               rbind (halloc ''failed to realloc-downsize LOAD regions''
                        ((length rs + 2) * 32) h) (\<lambda>(_, h).
                 if fst bss = 0
                 then Inr (context_zero\<lparr>load_regions := rs @ [region_zero, region_zero],
                             entry_point := e_entry eh\<rparr>, h)
                 else Inr (add_heap_stack bss (e_entry eh) (rs, h)))))) ) = Inr (ctx, h')"
    unfolding elf_init_def by (auto elim!: rbind_InrE)
  show thesis
  proof (cases "length bytes < sizeof_ehdr \<or> \<not> ehdr_accepted (ehdr_of bytes)")
    case True
    then have "Inr (context_zero, h0) = (Inr (ctx, h') :: (elf_context \<times> hheap) res)"
      using body by (simp add: Let_def split: if_splits)
    then show thesis using True a by (intro refused) auto
  next
    case False
    then obtain bss p1 h1 rs h2 p2 h3 where
      "find_bss bytes (ehdr_of bytes) = Inr bss"
      and a1: "calloc ((unat (e_phnum (ehdr_of bytes)) + 2) * 32) h0 = Some (p1, h1)"
      and "load_segments bytes (ehdr_of bytes) [0..<unat (e_phnum (ehdr_of bytes))] ([], h1) = Inr (rs, h2)"
      and "calloc ((length rs + 2) * 32) h2 = Some (p2, h3)"
      and "(ctx, h') = (if fst bss = 0
         then (context_zero\<lparr>load_regions := rs @ [region_zero, region_zero],
                 entry_point := e_entry (ehdr_of bytes)\<rparr>, h3)
         else add_heap_stack bss (e_entry (ehdr_of bytes)) (rs, h3))"
      using body by (auto simp: Let_def if_distrib [of Inr, symmetric] elim!: rbind_InrE)
    moreover have "heap_ok h1" using heap.alloc_ok a a1 assms(2) by blast
    ultimately show thesis using False by (intro loaded) auto
  qed
qed

lemma calloc_unchecked_backed:
  assumes "calloc_unchecked n h = (b, h')" and "heap_ok h" and "regions_backed h rs"
    and "mem_base r = b" and "unat (sz_reserved r) = n" and "b \<noteq> 0"
  shows "heap_ok h' \<and> regions_backed h' (rs @ [r])"
proof -
  have "calloc n h = Some (b, h')"
    using assms(1,6) by (auto simp: calloc_unchecked_def split: option.splits)
  then show ?thesis using assms regions_backed_snoc heap.alloc_ok by blast
qed

lemma add_heap_stack_backed:
  assumes "add_heap_stack bss entry (rs, h) = (ctx, h')" and "heap_ok h" and "regions_backed h rs"
    and "\<forall>r\<in>set (load_regions ctx). sz_reserved r \<noteq> 0 \<longrightarrow> mem_base r \<noteq> 0"
  shows "heap_ok h' \<and> regions_backed h' (load_regions ctx)"
proof -
  obtain hb h1 where hp: "calloc_unchecked PROG_HEAP_SIZE h = (hb, h1)" by fastforce
  obtain sb h2 where sk: "calloc_unchecked PROG_STACK_SIZE h1 = (sb, h2)" by fastforce
  obtain hr sr where ctx: "load_regions ctx = rs @ [hr, sr]" "h' = h2"
    and hr: "mem_base hr = hb" "sz_reserved hr = of_nat PROG_HEAP_SIZE"
    and sr: "mem_base sr = sb" "sz_reserved sr = of_nat PROG_STACK_SIZE"
    using assms(1) by (auto simp: add_heap_stack_def hp sk Let_def)
  have sizes: "unat (sz_reserved hr) = PROG_HEAP_SIZE" "unat (sz_reserved sr) = PROG_STACK_SIZE"
    by (simp_all add: hr sr PROG_HEAP_SIZE_def PROG_STACK_SIZE_def)
  then have "sz_reserved hr \<noteq> 0" "sz_reserved sr \<noteq> 0"
    by (auto simp: PROG_HEAP_SIZE_def PROG_STACK_SIZE_def)
  then have "hb \<noteq> 0" "sb \<noteq> 0" using assms(4) by (auto simp: ctx hr sr)
  from calloc_unchecked_backed [OF hp assms(2,3) hr(1) sizes(1) \<open>hb \<noteq> 0\<close>]
  have "heap_ok h1" "regions_backed h1 (rs @ [hr])" by auto
  from calloc_unchecked_backed [OF sk this sr(1) sizes(2) \<open>sb \<noteq> 0\<close>] show ?thesis by (simp add: ctx)
qed

lemma elf_init_regions_backed:
  assumes "elf_init bytes h = Inr (ctx, h')" and "heap_ok h"
    and "\<forall>r\<in>set (load_regions ctx). sz_reserved r \<noteq> 0 \<longrightarrow> mem_base r \<noteq> 0"
  shows "heap_ok h' \<and> regions_backed h' (load_regions ctx)"
  using assms(1,2)
proof (cases rule: elf_initE)
  case (refused p)
  then show ?thesis
    using heap.alloc_ok [OF assms(2)] by (simp add: context_zero_def regions_backed_def)
next
  case (loaded bss h1 rs h2 p h3)
  have "load_inv ([], h1)" and "image_inv bytes (ehdr_of bytes) ([], h1)"
    using loaded(4) by (simp_all add: load_inv_def image_inv_def regions_backed_def)
  from load_segments_inv [OF loaded(5) this]
  have h2: "heap_ok h2" "regions_backed h2 rs" by (simp_all add: load_inv_def)
  then have h3: "heap_ok h3" "regions_backed h3 rs"
    using heap.alloc_ok regions_backed_calloc loaded(6) by blast+
  show ?thesis
  proof (cases "fst bss = 0")
    case True
    have "regions_backed h3 (rs @ [region_zero, region_zero])"
      using h3(2) by (auto simp: regions_backed_def sorted_wrt_append region_backed_def
        region_zero_def blocks_apart_def)
    then show ?thesis using True loaded(7) h3 by simp
  next
    case False
    then show ?thesis using add_heap_stack_backed [OF _ h3 assms(3)] loaded(7) by simp
  qed
qed


section \<open>A small executable\<close>

text \<open>
  A file with one segment (three instructions: \<^verbatim>\<open>li a7, 93\<close>, \<^verbatim>\<open>li a0, 7\<close>,
  \<^verbatim>\<open>ecall\<close>; 12 bytes in the file, 16 in memory, at 0x1000) and a 16-byte \<^verbatim>\<open>.bss\<close>
  at 0x2000.  It serves as the concrete input of the witnesses, here and in later theories.
\<close>

definition demo_ehdr :: "u8 list" where
  "demo_ehdr =
    [127, 69, 76, 70, 1, 1, 1, 0, 0, 0, 0, 0, 0, 0, 0, 0,
     2, 0, 243, 0, 1, 0, 0, 0, 0, 16, 0, 0, 52, 0, 0, 0,
     84, 0, 0, 0, 0, 0, 0, 0, 52, 0, 32, 0, 1, 0, 40, 0,
     2, 0, 0, 0]"

definition demo_phdr :: "u8 list" where
  "demo_phdr =
    [1, 0, 0, 0, 172, 0, 0, 0, 0, 16, 0, 0, 0, 16, 0, 0,
     12, 0, 0, 0, 16, 0, 0, 0, 5, 0, 0, 0, 4, 0, 0, 0]"

definition demo_shdrs :: "u8 list" where
  "demo_shdrs =
    [0, 0, 0, 0, 3, 0, 0, 0, 0, 0, 0, 0, 0, 0, 0, 0,
     164, 0, 0, 0, 6, 0, 0, 0, 0, 0, 0, 0, 0, 0, 0, 0,
     1, 0, 0, 0, 0, 0, 0, 0, 1, 0, 0, 0, 8, 0, 0, 0,
     3, 0, 0, 0, 0, 32, 0, 0, 184, 0, 0, 0, 16, 0, 0, 0,
     0, 0, 0, 0, 0, 0, 0, 0, 1, 0, 0, 0, 0, 0, 0, 0,
     0, 46, 98, 115, 115, 0, 0, 0]"

definition demo_code :: "u8 list" where
  "demo_code =
    [147, 8, 208, 5, 19, 5, 112, 0, 115, 0, 0, 0]"

definition demo_elf :: "u8 list" where
  "demo_elf = demo_ehdr @ demo_phdr @ demo_shdrs @ demo_code"

definition demo_host :: hheap where
  "demo_host = heap_init 16777216"

lemmas demo_defs = demo_elf_def demo_ehdr_def demo_phdr_def demo_shdrs_def demo_code_def

lemmas elf_defs = elf_init_def ehdr_of_def ehdr_accepted_def sizeof_ehdr_def find_bss_def
  scan_section_def file_u8_def file_u16_def file_u32_def file_read_def file_slice_def sh_name_def
  sh_addr_def sh_offset_def sh_size_def p_offset_def p_vaddr_def p_filesz_def p_memsz_def dot_bss_def
  load_segment_def halloc_def calloc_def calloc_unchecked_def add_heap_stack_def PROG_HEAP_SIZE_def
  PROG_STACK_SIZE_def REGION_TAG_HEAP_def REGION_TAG_STACK_def

definition demo_ctx :: elf_context where
  "demo_ctx = \<lparr>load_regions =
      [\<lparr>vma_base = 0x1000, mem_base = 176, sz_alloc = 0, sz_reserved = 16, tag = Some ''LOAD''\<rparr>,
       \<lparr>vma_base = 0x2010, mem_base = 320, sz_alloc = 0, sz_reserved = 0x100000, tag = Some ''HEAP''\<rparr>,
       \<lparr>vma_base = 0x102010, mem_base = 1048912, sz_alloc = 0, sz_reserved = 0x100000, tag = Some ''STACK''\<rparr>],
     entry_point = 0x1000, bp = 0x102010, sp = 0x20200F\<rparr>"

lemma demo_length: "length demo_elf = 184"
  by (simp add: demo_defs)

lemma demo_ehdr_of: "ehdr_of demo_elf = \<lparr>e_ident = [0x7f, 0x45, 0x4c, 0x46, 1, 1, 1, 0, 0, 0, 0, 0, 0, 0, 0, 0],
   e_machine = 243, e_version = 1, e_entry = 0x1000, e_phoff = 52, e_shoff = 84,
   e_phentsize = 32, e_phnum = 1, e_shentsize = 40, e_shnum = 2, e_shstrndx = 0\<rparr>"
  by (simp add: ehdr_of_def demo_defs)

lemma demo_accepted: "ehdr_accepted (ehdr_of demo_elf)"
  by (simp add: demo_ehdr_of ehdr_accepted_def)

lemma demo_find_bss: "find_bss demo_elf (ehdr_of demo_elf) = Inr (0x2000, 0x10)"
proof -
  have "[0..<2] = [0, 1 :: nat]" by code_simp
  moreover have "file_u32 demo_elf 100 = Inr 164" "file_u32 demo_elf 96 = Inr 0"
    "file_u32 demo_elf 136 = Inr 0x2000" "file_u32 demo_elf 124 = Inr 1"
    "file_u32 demo_elf 144 = Inr 0x10"
    by (simp_all add: file_u32_def file_read_def demo_defs)
  moreover have "strcmp_eq demo_elf 165 dot_bss = Inr True"
    by (simp add: dot_bss_def file_u8_def file_read_def demo_defs)
  ultimately show ?thesis
    by (simp add: find_bss_def demo_ehdr_of scan_section_def sh_offset_def sh_addr_def sh_name_def sh_size_def)
qed

lemma demo_phdr_fields:
  "p_memsz demo_elf 52 = Inr 16" "p_offset demo_elf 52 = Inr 172"
  "p_filesz demo_elf 52 = Inr 12" "p_vaddr demo_elf 52 = Inr 0x1000"
  "take 12 (drop 172 demo_elf) = demo_code"
  by (simp_all add: p_memsz_def p_offset_def p_filesz_def p_vaddr_def file_u32_def file_read_def demo_defs)

lemma demo_load:
  "load_segments demo_elf (ehdr_of demo_elf) [0..<Suc 0] ([], h) = rbind (load_segment demo_elf 52 ([], h)) Inr"
  by (simp add: demo_ehdr_of rbind_def split: sum.split)

lemma demo_elf_init: "\<exists>h'. elf_init demo_elf demo_host = Inr (demo_ctx, h')"
  by (simp add: elf_init_def demo_length sizeof_ehdr_def demo_accepted demo_find_bss halloc_def
      calloc_def demo_host_def heap_init_def)
    (simp add: demo_ehdr_of demo_load [unfolded demo_ehdr_of, simplified] load_segment_def demo_phdr_fields
      demo_length file_slice_def halloc_def calloc_def demo_code_def add_heap_stack_def
      calloc_unchecked_def PROG_HEAP_SIZE_def PROG_STACK_SIZE_def demo_ctx_def
      REGION_TAG_HEAP_def REGION_TAG_STACK_def)

section \<open>Properties of the loader\<close>

lemma add_heap_stack_frame:
  assumes "add_heap_stack bss entry (rs, h) = (ctx, h')" and "heap_ok h" and "live h a"
  shows "cells h' a = cells h a"
proof -
  have one: "heap_ok h' \<and> live h' a \<and> cells h' a = cells h a"
    if "calloc_unchecked n h = (b, h')" and "heap_ok h" and "live h a" for n h b h'
    using that heap.alloc_ok [of h n b h'] calloc_frame [of n h b h' a]
    by (auto simp: calloc_unchecked_def live_def split: option.splits)
  obtain hb h1 where 1: "calloc_unchecked PROG_HEAP_SIZE h = (hb, h1)" by fastforce
  obtain sb h2 where 2: "calloc_unchecked PROG_STACK_SIZE h1 = (sb, h2)" by fastforce
  have "h' = h2" using assms(1) by (auto simp: add_heap_stack_def 1 2 Let_def)
  with one [OF 1 assms(2,3)] one [OF 2] show ?thesis by auto
qed

text \<open>What follows the segments leaves their blocks as they are.\<close>

lemma loaded_frame:
  assumes "calloc n h2 = Some (p, h3)"
    and "(ctx, h') = (if fst bss = 0 then (c, h3) else add_heap_stack bss entry (rs, h3))"
    and "heap_ok h2" and "live h2 a"
  shows "cells h' a = cells h2 a"
proof -
  have h3: "heap_ok h3" "live h3 a" "cells h3 a = cells h2 a"
    using heap.alloc_ok [OF assms(3,1)] heap.alloc_mono [OF assms(3,1,4)] calloc_frame [OF assms(1,3,4)] by auto
  show ?thesis
  proof (cases "fst bss = 0")
    case False
    then have "add_heap_stack bss entry (rs, h3) = (ctx, h')" using assms(2) by simp
    from add_heap_stack_frame [OF this h3(1,2)] h3(3) show ?thesis by simp
  qed (use assms(2) h3(3) in simp)
qed

lemma elf_init_loads:
  assumes "elf_init bytes h = Inr (ctx, h')" and "heap_ok h"
    and "r \<in> set (load_regions ctx)" and "tag r = Some ''LOAD''"
  shows "\<exists>i<unat (e_phnum (ehdr_of bytes)).
    segment_image bytes (unat (e_phoff (ehdr_of bytes)) + i * unat (e_phentsize (ehdr_of bytes))) r h'"
  using assms(1,2)
proof (cases rule: elf_initE)
  case (refused p)
  then show ?thesis using assms(3) by (simp add: context_zero_def)
next
  case (loaded bss h1 rs h2 p h3)
  have "load_inv ([], h1)" and "image_inv bytes (ehdr_of bytes) ([], h1)"
    using loaded(4) by (simp_all add: load_inv_def image_inv_def regions_backed_def)
  from load_segments_inv [OF loaded(5) this]
  have ok2: "heap_ok h2" and img: "image_inv bytes (ehdr_of bytes) (rs, h2)"
    by (simp_all add: load_inv_def)
  have ok3: "heap_ok h3" using heap.alloc_ok [OF ok2 loaded(6)] .
  have "r \<in> set rs"
    using assms(3,4) loaded(7)
    by (auto simp: add_heap_stack_def Let_def region_zero_def REGION_TAG_HEAP_def REGION_TAG_STACK_def
        split: if_splits prod.splits)
  then obtain i where i: "i < unat (e_phnum (ehdr_of bytes))"
    and im: "segment_image bytes (unat (e_phoff (ehdr_of bytes)) + i * unat (e_phentsize (ehdr_of bytes))) r h2"
    using img by (auto simp: image_inv_def)
  have "cells h' a = cells h2 a" if "live h2 a" for a
    using loaded_frame [OF loaded(6,7) ok2 that] .
  then show ?thesis using segment_image_frame [OF im] i by blast
qed

text \<open>
  Conversely, a program header with a memory size whose bytes lie in the file is loaded, whatever its
  type: the code looks at the sizes only.
\<close>

definition loadable :: "u8 list \<Rightarrow> nat \<Rightarrow> bool" where
  "loadable bytes p = (case (p_memsz bytes p, p_offset bytes p, p_filesz bytes p) of
     (Inr memsz, Inr offs, Inr filesz) \<Rightarrow> memsz \<noteq> 0 \<and> unat (offs + filesz) \<le> length bytes
   | _ \<Rightarrow> False)"

lemma load_segment_loadable:
  assumes "load_segment bytes p (rs, h) = Inr (rs', h')" and "loadable bytes p"
  shows "\<exists>r. rs' = rs @ [r]"
  using assms by (auto simp: load_segment_def loadable_def rbind_eq_Inr split: if_splits sum.splits)

lemma load_segments_complete:
  assumes "load_segments bytes eh is (rs, h) = Inr (rs', h')" and "load_inv (rs, h)"
    and "i \<in> set is" and "loadable bytes (unat (e_phoff eh) + i * unat (e_phentsize eh))"
  shows "\<exists>r\<in>set rs'. tag r = Some ''LOAD''
    \<and> segment_image bytes (unat (e_phoff eh) + i * unat (e_phentsize eh)) r h'"
  using assms(1-3)
proof (induction "is" arbitrary: rs h)
  case Nil
  then show ?case by simp
next
  case (Cons j "is")
  let ?p = "\<lambda>i. unat (e_phoff eh) + i * unat (e_phentsize eh)"
  obtain rs1 h1 where one: "load_segment bytes (?p j) (rs, h) = Inr (rs1, h1)"
    and rest: "load_segments bytes eh is (rs1, h1) = Inr (rs', h')"
    using Cons.prems(1) by (auto elim!: rbind_InrE)
  have inv1: "load_inv (rs1, h1)" using load_segment_inv [OF Cons.prems(2) one] .
  show ?case
  proof (cases "i = j")
    case True
    from load_segment_loadable [OF one] assms(4) obtain r where r: "rs1 = rs @ [r]" by (auto simp: True)
    have "heap_ok h" using Cons.prems(2) by (simp add: load_inv_def)
    with load_segment_image [OF _ one] r
    have im: "tag r = Some ''LOAD''" "segment_image bytes (?p i) r h1" by (auto simp: True)
    from load_segments_frame [OF rest] inv1 have "live h1 a \<Longrightarrow> cells h' a = cells h1 a" for a
      by (simp add: load_inv_def)
    from segment_image_frame [OF im(2) this] have "segment_image bytes (?p i) r h'" by blast
    moreover have "r \<in> set rs'" using load_segments_mono [OF rest] r by auto
    ultimately show ?thesis using im(1) by blast
  qed (use Cons.IH [OF rest inv1] Cons.prems(3) in simp)
qed

lemma elf_init_complete:
  assumes "elf_init bytes h = Inr (ctx, h')" and "heap_ok h" and "load_regions ctx \<noteq> []"
    and "i < unat (e_phnum (ehdr_of bytes))"
    and "loadable bytes (unat (e_phoff (ehdr_of bytes)) + i * unat (e_phentsize (ehdr_of bytes)))"
  shows "\<exists>r\<in>set (load_regions ctx). tag r = Some ''LOAD''
    \<and> segment_image bytes (unat (e_phoff (ehdr_of bytes)) + i * unat (e_phentsize (ehdr_of bytes))) r h'"
  using assms(1,2)
proof (cases rule: elf_initE)
  case (refused p)
  then show ?thesis using assms(3) by (simp add: context_zero_def)
next
  case (loaded bss h1 rs h2 p h3)
  have inv: "load_inv ([], h1)" and "image_inv bytes (ehdr_of bytes) ([], h1)"
    using loaded(4) by (simp_all add: load_inv_def image_inv_def regions_backed_def)
  from load_segments_inv [OF loaded(5) this] have ok2: "heap_ok h2" by (simp add: load_inv_def)
  have "i \<in> set [0..<unat (e_phnum (ehdr_of bytes))]" using assms(4) by simp
  from load_segments_complete [OF loaded(5) inv this assms(5)] obtain r where
    r: "r \<in> set rs" "tag r = Some ''LOAD''"
      "segment_image bytes (unat (e_phoff (ehdr_of bytes)) + i * unat (e_phentsize (ehdr_of bytes))) r h2"
    by blast
  have "r \<in> set (load_regions ctx)"
    using r(1) loaded(7) by (auto simp: add_heap_stack_def Let_def split: if_splits prod.splits)
  with r segment_image_frame [OF r(3) loaded_frame [OF loaded(6,7) ok2]] show ?thesis by blast
qed


text \<open>
  C7: an executable image is loaded faithfully.  Every LOAD region of the context \<open>elf_init\<close> returns
  stems from one of the file's program headers, at the address that header names, and its host block
  holds the segment's file bytes followed by zeros up to the segment's memory size; the copy never
  exceeds the block.  And every program header with a memory size whose bytes lie in the file has
  such a region.
\<close>

theorem elf_init_image:
  assumes "elf_init bytes h = Inr (ctx, h')" and "heap_ok h" and "load_regions ctx \<noteq> []"
  shows "(\<forall>r\<in>set (load_regions ctx). tag r = Some ''LOAD'' \<longrightarrow>
      (\<exists>i<unat (e_phnum (ehdr_of bytes)).
        segment_image bytes (unat (e_phoff (ehdr_of bytes)) + i * unat (e_phentsize (ehdr_of bytes))) r h'))
    \<and> (\<forall>i<unat (e_phnum (ehdr_of bytes)).
      loadable bytes (unat (e_phoff (ehdr_of bytes)) + i * unat (e_phentsize (ehdr_of bytes))) \<longrightarrow>
      (\<exists>r\<in>set (load_regions ctx). tag r = Some ''LOAD''
        \<and> segment_image bytes (unat (e_phoff (ehdr_of bytes)) + i * unat (e_phentsize (ehdr_of bytes))) r h'))"
  using elf_init_loads [OF assms(1,2)] elf_init_complete [OF assms] by blast

theorem elf_init_image_witness:
  "\<exists>h'. elf_init demo_elf demo_host = Inr (demo_ctx, h')
     \<and> segment_image demo_elf 52 (load_regions demo_ctx ! 0) h'"
proof -
  obtain h' where e: "elf_init demo_elf demo_host = Inr (demo_ctx, h')"
    using demo_elf_init by blast
  have "heap_ok demo_host" by (simp add: demo_host_def heap_ok_init)
  from elf_init_image [OF e this]
  have "segment_image demo_elf 52 (load_regions demo_ctx ! 0) h'"
    by (simp add: demo_ehdr_of demo_ctx_def)
  with e show ?thesis by blast
qed

text \<open>
  C16: the regions of a loaded program lie in allocated host memory, each in a block of its own, so a
  guest access can reach no byte of another region; the two allocations whose result the code does
  not check (heap and stack) must have succeeded.
\<close>

theorem elf_init_backed:
  assumes "elf_init bytes h = Inr (ctx, h')" and "heap_ok h"
    and "\<forall>r\<in>set (load_regions ctx). sz_reserved r \<noteq> 0 \<longrightarrow> mem_base r \<noteq> 0"
  shows "heap_ok h' \<and> regions_backed h' (load_regions ctx)"
  using assms by (rule elf_init_regions_backed)

theorem elf_init_backed_witness:
  "\<exists>h'. elf_init demo_elf demo_host = Inr (demo_ctx, h') \<and> heap_ok h'
     \<and> regions_backed h' (load_regions demo_ctx)"
proof -
  obtain h' where e: "elf_init demo_elf demo_host = Inr (demo_ctx, h')"
    using demo_elf_init by blast
  have "heap_ok demo_host" by (simp add: demo_host_def heap_ok_init)
  from elf_init_backed [OF e this] have "heap_ok h' \<and> regions_backed h' (load_regions demo_ctx)"
    by (simp add: demo_ctx_def)
  with e show ?thesis by blast
qed

lemma elf_init_heap_stack:
  assumes "elf_init bytes h = Inr (ctx, h')" and "heap_ok h" and "bp ctx \<noteq> 0"
  shows "\<exists>rs heap stack. load_regions ctx = rs @ [heap, stack] \<and> list_all (\<lambda>r. tag r = Some ''LOAD'') rs
    \<and> elf_get_heap_region ctx = Some (length rs) \<and> elf_get_stack_region ctx = Some (Suc (length rs))
    \<and> sz_alloc heap = 0 \<and> sz_reserved heap = 0x100000 \<and> sz_reserved stack = 0x100000
    \<and> vma_base stack = vma_base heap + 0x100000 \<and> bp ctx = vma_base stack \<and> sp ctx = bp ctx + 0xFFFFF
    \<and> entry_point ctx = e_entry (ehdr_of bytes)
    \<and> (\<exists>a n. last_bss bytes a n \<and> vma_base heap = a + n)"
  using assms(1,2)
proof (cases rule: elf_initE)
  case (refused p)
  then show ?thesis using assms(3) by (simp add: context_zero_def)
next
  case (loaded bss h1 rs h2 p h3)
  have "load_inv ([], h1)" and "image_inv bytes (ehdr_of bytes) ([], h1)"
    using loaded(4) by (simp_all add: load_inv_def image_inv_def regions_backed_def)
  from load_segments_inv [OF loaded(5) this]
  have tags: "\<forall>r\<in>set rs. tag r = Some ''LOAD''" by (simp add: image_inv_def)
  have c: "(ctx, h') = add_heap_stack bss (e_entry (ehdr_of bytes)) (rs, h3)"
    using loaded(7) assms(3) by (simp add: context_zero_def split: if_splits)
  obtain hb h4 where hp: "calloc_unchecked PROG_HEAP_SIZE h3 = (hb, h4)" by fastforce
  obtain sb h5 where sk: "calloc_unchecked PROG_STACK_SIZE h4 = (sb, h5)" by fastforce
  have ld: "tag ((rs @ ys) ! i) = Some ''LOAD''" if "i < length rs" for i ys
    using tags that by (simp add: nth_append)
  define hr where "hr = \<lparr>vma_base = fst bss + snd bss, mem_base = hb, sz_alloc = 0,
    sz_reserved = of_nat PROG_HEAP_SIZE, tag = Some REGION_TAG_HEAP\<rparr>"
  define sr where "sr = \<lparr>vma_base = vma_base hr + of_nat PROG_HEAP_SIZE, mem_base = sb, sz_alloc = 0,
    sz_reserved = of_nat PROG_STACK_SIZE, tag = Some REGION_TAG_STACK\<rparr>"
  have ctx: "ctx = \<lparr>load_regions = rs @ [hr, sr], entry_point = e_entry (ehdr_of bytes),
      bp = vma_base sr, sp = vma_base sr + sz_reserved sr - 1\<rparr>"
    using c by (simp add: add_heap_stack_def hp sk Let_def hr_def sr_def)
  have "elf_get_heap_region ctx = Some (length rs)" "elf_get_stack_region ctx = Some (Suc (length rs))"
    using ld by (auto simp: ctx elf_get_heap_region_def elf_get_stack_region_def
        elf_get_region_by_tag_Some nr_regions_def hr_def sr_def nth_append less_Suc_eq
        REGION_TAG_HEAP_def REGION_TAG_STACK_def)
  moreover have "last_bss bytes (fst bss) (snd bss)"
    using loaded(3,7) assms(3) by (intro find_bss_last) (auto simp: context_zero_def)
  ultimately show ?thesis
    using tags
    by (intro exI [of _ rs] exI [of _ hr] exI [of _ sr] conjI exI [of _ "fst bss"] exI [of _ "snd bss"])
      (simp_all add: ctx hr_def sr_def list_all_iff PROG_HEAP_SIZE_def PROG_STACK_SIZE_def)
qed

text \<open>
  C17: the address space \<open>elf_init\<close> sets up when it finds \<open>.bss\<close>: the segments, then the heap and the
  stack as the last two regions, found again by their tags; the heap starts at the end of the last
  section of the file that is named \<^verbatim>\<open>.bss\<close> and mapped, the stack follows the heap, one MiB
  each and nothing allocated in the heap yet; the stack pointer starts one byte below the stack's end
  and the program counter at the file's entry point.
\<close>

theorem elf_init_layout:
  assumes "elf_init bytes h = Inr (ctx, h')" and "heap_ok h" and "bp ctx \<noteq> 0"
  shows "\<exists>rs heap stack. load_regions ctx = rs @ [heap, stack] \<and> list_all (\<lambda>r. tag r = Some ''LOAD'') rs
    \<and> elf_get_heap_region ctx = Some (length rs) \<and> elf_get_stack_region ctx = Some (Suc (length rs))
    \<and> sz_alloc heap = 0 \<and> sz_reserved heap = 0x100000 \<and> sz_reserved stack = 0x100000
    \<and> vma_base stack = vma_base heap + 0x100000 \<and> bp ctx = vma_base stack \<and> sp ctx = bp ctx + 0xFFFFF
    \<and> entry_point ctx = e_entry (ehdr_of bytes)
    \<and> (\<exists>a n. last_bss bytes a n \<and> vma_base heap = a + n)"
  using assms by (rule elf_init_heap_stack)

theorem elf_init_layout_witness:
  "\<exists>h'. elf_init demo_elf demo_host = Inr (demo_ctx, h') \<and> elf_get_heap_region demo_ctx = Some 1
     \<and> sp demo_ctx = bp demo_ctx + 0xFFFFF"
proof -
  obtain h' where e: "elf_init demo_elf demo_host = Inr (demo_ctx, h')"
    using demo_elf_init by blast
  have "heap_ok demo_host" by (simp add: demo_host_def heap_ok_init)
  from elf_init_layout [OF e this] have "\<exists>rs heap stack. load_regions demo_ctx = rs @ [heap, stack]
      \<and> elf_get_heap_region demo_ctx = Some (length rs) \<and> sp demo_ctx = bp demo_ctx + 0xFFFFF"
    by (auto simp: demo_ctx_def)
  then have "elf_get_heap_region demo_ctx = Some 1 \<and> sp demo_ctx = bp demo_ctx + 0xFFFFF"
    by (auto simp: demo_ctx_def Cons_eq_append_conv)
  with e show ?thesis by blast
qed


text \<open>
  C32: nothing compares a segment's file size with its memory size.  A segment whose file size is the
  larger one, and whose bytes all lie in the file, makes the loader copy past the end of the block it
  allocated for it.
\<close>

theorem load_segment_overrun:
  assumes "heap_ok h" and "calloc (unat memsz) h = Some (base, h1)"
    and "p_memsz bytes p = Inr memsz" and "p_offset bytes p = Inr offs"
    and "p_filesz bytes p = Inr filesz" and "p_vaddr bytes p = Inr vaddr"
    and "unat offs + unat filesz \<le> length bytes" and "length bytes < 2 ^ 32"
    and "memsz \<noteq> 0" and "memsz < filesz"
  shows "load_segment bytes p (rs, h) = Inl (Undefined ''write outside an allocation'')"
proof -
  let ?bs = "take (unat filesz) (drop (unat offs) bytes)"
  have sum: "unat (offs + filesz) = unat offs + unat filesz"
    using assms(7,8) by (simp add: unat_word_ariths)
  have "unat memsz < length ?bs"
    using assms(7,10) by (simp add: word_less_nat_alt)
  then have "hwrite h1 base ?bs \<noteq> Inr h2" for h2
    using write_fits_block [OF assms(1,2)] by (metis not_less)
  then have "hwrite h1 base ?bs = Inl (Undefined ''write outside an allocation'')"
    using hwrite_error by (cases "hwrite h1 base ?bs") auto
  then show ?thesis
    using assms(2-7,9) by (simp add: load_segment_def sum halloc_def file_slice_def)
qed

definition demo_overrun :: "u8 list" where
  "demo_overrun =
    [1, 0, 0, 0,  0, 0, 0, 0,  0, 16, 0, 0,  0, 16, 0, 0,
     8, 0, 0, 0,  4, 0, 0, 0,  5, 0, 0, 0,   4, 0, 0, 0]"

theorem load_segment_overrun_witness:
  "load_segment demo_overrun 0 ([], demo_host) = Inl (Undefined ''write outside an allocation'')"
proof -
  have ok: "heap_ok demo_host" by (simp add: demo_host_def heap_ok_init)
  obtain h1 where c: "calloc (unat (4 :: u32)) demo_host = Some (16, h1)"
    by (simp add: calloc_def demo_host_def heap_init_def)
  show ?thesis
    by (rule load_segment_overrun [OF ok c, where offs = "0" and filesz = "8" and vaddr = "0x1000"])
      (simp_all add: p_memsz_def p_offset_def p_filesz_def p_vaddr_def file_u32_def file_read_def
        demo_overrun_def)
qed

text \<open>The checks on the header in terms of the bytes of the file.\<close>

lemma le_word_eq_0:
  assumes "8 * length bs \<le> LENGTH('a::len)"
  shows "(le_word bs :: 'a word) = 0 \<longleftrightarrow> (\<forall>b\<in>set bs. b = 0)"
proof
  have zero: "le_bytes n (0 :: 'a word) = replicate n 0" for n by (induction n) simp_all
  assume "(le_word bs :: 'a word) = 0"
  with le_bytes_le_word [OF assms] zero [of "length bs"] have "bs = replicate (length bs) 0" by simp
  then show "\<forall>b\<in>set bs. b = 0" by (metis in_set_replicate)
next
  show "\<forall>b\<in>set bs. b = 0 \<Longrightarrow> (le_word bs :: 'a word) = 0"
    by (induction bs) simp_all
qed

lemma take_drop_nth:
  "p + n \<le> length bytes \<Longrightarrow> set (take n (drop p bytes)) = {bytes ! (p + k) |k. k < n}"
  by (force simp: in_set_conv_nth)

lemma ehdr_accepted_bytes:
  assumes "52 \<le> length bytes"
  shows "ehdr_accepted (ehdr_of bytes) \<longleftrightarrow>
    take 4 bytes = [0x7f, 0x45, 0x4c, 0x46] \<and> bytes ! 4 \<in> {1, 2} \<and> bytes ! 5 \<in> {1, 2} \<and> bytes ! 6 = 1
    \<and> (\<exists>k<2. bytes ! (18 + k) \<noteq> 0) \<and> (\<exists>k<4. bytes ! (28 + k) \<noteq> 0)"
proof -
  have "take 4 bytes = [bytes ! 0, bytes ! 1, bytes ! 2, bytes ! 3]"
    using assms by (intro nth_equalityI) (auto simp: less_Suc_eq numeral_eq_Suc)
  moreover have "e_machine (ehdr_of bytes) \<noteq> 0 \<longleftrightarrow> (\<exists>k<2. bytes ! (18 + k) \<noteq> 0)"
    using assms take_drop_nth [of 18 2 bytes] by (auto simp: ehdr_of_def le_word_eq_0)
  moreover have "e_phoff (ehdr_of bytes) \<noteq> 0 \<longleftrightarrow> (\<exists>k<4. bytes ! (28 + k) \<noteq> 0)"
    using assms take_drop_nth [of 28 4 bytes] by (auto simp: ehdr_of_def le_word_eq_0)
  ultimately show ?thesis by (auto simp: ehdr_accepted_def) (simp_all add: ehdr_of_def)
qed

text \<open>
  C26: which files are refused.  When the context can be allocated, \<^verbatim>\<open>elf_init\<close> yields the empty
  context (no region, and \<open>bp = 0\<close>, the value by which \<^verbatim>\<open>main\<close> recognises the failure) if the file
  is shorter than an ELF header, does not start with the four magic bytes, has a class or data encoding
  other than 1 or 2 or a version other than 1, or if its machine or its program header offset is zero;
  and for no other file: whatever it returns then has regions.
\<close>

theorem elf_init_refuses:
  assumes "calloc 32 h = Some (p, h1)" and "heap_ok h"
  shows "if length bytes < 52 \<or> take 4 bytes \<noteq> [0x7f, 0x45, 0x4c, 0x46] \<or> bytes ! 4 \<notin> {1, 2} \<or> bytes ! 5 \<notin> {1, 2}
      \<or> bytes ! 6 \<noteq> 1 \<or> (\<forall>k<2. bytes ! (18 + k) = 0) \<or> (\<forall>k<4. bytes ! (28 + k) = 0)
    then elf_init bytes h = Inr (context_zero, h1) \<and> load_regions context_zero = [] \<and> bp context_zero = 0
    else \<forall>ctx h'. elf_init bytes h = Inr (ctx, h') \<longrightarrow> 2 \<le> length (load_regions ctx)"
proof (cases "length bytes < sizeof_ehdr \<or> \<not> ehdr_accepted (ehdr_of bytes)")
  case True
  then have "elf_init bytes h = Inr (context_zero, h1)"
    using assms(1) by (auto simp: elf_init_def halloc_def Let_def)
  moreover have "load_regions context_zero = []" "bp context_zero = 0" by (simp_all add: context_zero_def)
  ultimately show ?thesis
    using True ehdr_accepted_bytes [of bytes] by (auto simp: sizeof_ehdr_def)
next
  case False
  have "2 \<le> length (load_regions ctx)" if "elf_init bytes h = Inr (ctx, h')" for ctx h'
    using that assms(2) False
    by (cases rule: elf_initE) (auto simp: add_heap_stack_def Let_def split: if_splits prod.splits)
  with False show ?thesis
    using ehdr_accepted_bytes [of bytes] by (auto simp: sizeof_ehdr_def)
qed

theorem elf_init_refuses_witness:
  "\<exists>h'. elf_init (demo_elf[5 := 3]) demo_host = Inr (context_zero, h')"
proof -
  have ok: "heap_ok demo_host" by (simp add: demo_host_def heap_ok_init)
  obtain h' where c: "calloc 32 demo_host = Some (16, h')"
    by (simp add: calloc_def demo_host_def heap_init_def)
  have "5 < length demo_elf" by (simp add: demo_defs)
  then have "(demo_elf[5 := 3]) ! 5 \<notin> {1, 2}" by simp
  then show ?thesis using elf_init_refuses [OF c ok, of "demo_elf[5 := 3]"] by (simp del: nth_list_update_eq)
qed

end
