(* ===== verification/Emulator.thy ===== *)
theory Emulator
  imports Dispatch ElfInit
begin

text \<open>
  The fetch-decode-execute step (\<^verbatim>\<open>rvemu_step\<close> of \<^verbatim>\<open>src/emu.c\<close>), the
  interactive breakpoint loop, the main program (\<^verbatim>\<open>src/main.c\<close>) and the core dump of
  \<^verbatim>\<open>src/traceback.c\<close>.  The main loop may run forever, so it takes fuel, and \<open>None\<close> is
  running out of it.
\<close>

section \<open>One step\<close>

definition rvemu_step :: "host_env \<Rightarrow> rvstate \<Rightarrow> (bool \<times> rvstate) res" where
  "rvemu_step env st =
     (if suspended st then Inr (False, st)
      else let st = set_reg 0 0 st
        in rbind (rvstate_fetch st) (\<lambda>w. rbind (rvdec_insn st w) (\<lambda>(insn, st).
          if insn_ty insn = RV_INSN__INVALID
          then Inr (False, rvtrbk_error ''tried to decode invalid instruction'' st)
          else rbind (rvemu_dispatch env insn st) (\<lambda>st. Inr (True, st)))))"

section \<open>The core dump\<close>

text \<open>One event per printed line, without its newline.\<close>

definition hex08 :: "u32 \<Rightarrow> string" where
  "hex08 w = (let s = hex_u32 w in replicate (8 - length s) (CHR ''0'') @ s)"

definition dump_reg :: "rvstate \<Rightarrow> nat \<Rightarrow> string" where
  "dump_reg st i = repr_reg_abi_map ! i @ '' (x'' @ dec_nat i @ ''): '' @ hex_u32 (regs st ! i)"

definition dump_row :: "rvstate \<Rightarrow> nat \<Rightarrow> string" where
  "dump_row st i = dump_reg st i @ [CHR 0x09] @ dump_reg st (i + 1) @ [CHR 0x09]
     @ dump_reg st (i + 2) @ [CHR 0x09] @ dump_reg st (i + 3)"

definition dump_region :: "rvstate \<Rightarrow> nat \<Rightarrow> string" where
  "dump_region st i =
     (let r = load_regions (mem st) ! i
      in ''#'' @ dec_nat i @ '': 0x'' @ hex08 (vma_base r) @ [CHR 0x09] @ ''-> 0x''
        @ hex08 (vma_base r + sz_reserved r) @ '' (''
        @ (case tag r of Some t \<Rightarrow> t | None \<Rightarrow> ''untagged'') @ '')'')"

definition rvtrbk_print_dump :: "rvstate \<Rightarrow> rvstate" where
  "rvtrbk_print_dump st =
     st\<lparr>trace := trace st
       @ [Stdout (CHR 0x5C # ''-- CORE DUMP'')]
       @ map (\<lambda>i. Stdout (dump_row st i)) [0, 4, 8, 12, 16, 20, 24, 28]
       @ [Stdout (''pc: 0x'' @ hex_u32 (pc st - 4)),
          Stdout (''--- '' @ dec_nat (nr_regions (mem st)) @ '' memory region(s)'')]
       @ map (\<lambda>i. Stdout (dump_region st i)) [0..<nr_regions (mem st)]\<rparr>"

section \<open>The breakpoint prompt\<close>

text \<open>
  Standard input is the list of its characters.  \<^verbatim>\<open>fgets\<close> takes at most 31 of them, up
  to and including a newline, so a longer line is read in pieces; the command ends at a newline or a
  NUL.
\<close>

definition newline :: char where
  "newline = CHR 0x0A"

fun fgets :: "nat \<Rightarrow> string \<Rightarrow> string \<times> string" where
  "fgets 0 s = ([], s)"
| "fgets (Suc n) [] = ([], [])"
| "fgets (Suc n) (c # s) =
     (if c = newline then ([c], s) else let (l, s') = fgets n s in (c # l, s'))"

definition tolower :: "char \<Rightarrow> char" where
  "tolower c = (let n = (of_char c :: nat) in if 65 \<le> n \<and> n \<le> 90 then char_of (n + 32) else c)"

definition read_cmd :: "string \<Rightarrow> string \<times> string" where
  "read_cmd input =
     (let (l, rest) = fgets 31 input in (map tolower (takeWhile (\<lambda>c. c \<noteq> newline \<and> c \<noteq> CHR 0x00) l), rest))"

lemma fgets_shorter: "s \<noteq> [] \<Longrightarrow> length (snd (fgets (Suc n) s)) < length s"
proof -
  have le: "length (snd (fgets k t)) \<le> length t" for k t
    by (induction k t rule: fgets.induct) (auto split: prod.splits)
  then show "s \<noteq> [] \<Longrightarrow> length (snd (fgets (Suc n) s)) < length s"
    using le by (cases s) (auto simp: less_Suc_eq_le split: prod.splits, metis snd_conv)
qed

lemma read_cmd_shorter: "s \<noteq> [] \<Longrightarrow> length (snd (read_cmd s)) < length s"
  using fgets_shorter [of s 30] by (auto simp: read_cmd_def numeral_eq_Suc split: prod.splits)

lemma read_cmd_rest: "(cmd, rest) = read_cmd s \<Longrightarrow> s \<noteq> [] \<Longrightarrow> length rest < length s"
  using read_cmd_shorter [of s] by (metis snd_conv)

function bkpt_prompt :: "host_env \<Rightarrow> string \<Rightarrow> rvstate \<Rightarrow> (string \<times> rvstate) res" where
  "bkpt_prompt env input st =
     (let st = emit (Stdout ''> '') st in
      if input = [] then Inr (input, st)
      else let (cmd, rest) = read_cmd input in
        if cmd = ''c'' \<or> cmd = ''continue'' then Inr (rest, st)
        else if cmd = ''s'' \<or> cmd = ''step''
        then rbind (rvemu_step env st) (\<lambda>(_, st). bkpt_prompt env rest st)
        else if cmd = ''r'' \<or> cmd = ''regs'' then bkpt_prompt env rest (rvtrbk_print_dump st)
        else bkpt_prompt env rest (emit (Stdout ''Commands: c/continue, s/step, r/regs'') st))"
  by pat_completeness auto

termination
proof (relation "measure (\<lambda>(env, input, st). length input)")
  show "wf (measure (\<lambda>(env, input, st). length input))" by simp
qed (auto intro: read_cmd_rest)

declare bkpt_prompt.simps [simp del]

text \<open>The breakpoint that was hit is an argument the loop does not look at.\<close>

definition bkpt_user_loop :: "host_env \<Rightarrow> nat \<Rightarrow> string \<Rightarrow> rvstate \<Rightarrow> (string \<times> rvstate) res" where
  "bkpt_user_loop env ev input st =
     bkpt_prompt env input (emit (Stdout (''Breakpoint hit at 0x'' @ hex_u32 (pc st))) st)"

section \<open>The main loop\<close>

text \<open>One iteration: a step, and the prompt when a breakpoint was hit; \<open>None\<close> leaves the loop.\<close>

definition loop_body ::
    "host_env \<Rightarrow> string \<Rightarrow> rvstate \<Rightarrow> (bool \<times> string \<times> rvstate) res" where
  "loop_body env input st = rbind (rvemu_step env st) (\<lambda>(go, st).
     if \<not> go then Inr (False, input, st)
     else case rvbkpt_poll st of
         (None, st) \<Rightarrow> Inr (True, input, st)
       | (Some ev, st) \<Rightarrow> rbind (bkpt_user_loop env ev input st) (\<lambda>(input, st). Inr (True, input, st)))"

fun main_loop :: "nat \<Rightarrow> host_env \<Rightarrow> string \<Rightarrow> rvstate \<Rightarrow> rvstate res option" where
  "main_loop 0 env input st = None"
| "main_loop (Suc fuel) env input st = (case loop_body env input st of
       Inl e \<Rightarrow> Some (Inl e)
     | Inr (go, input', st') \<Rightarrow> if go then main_loop fuel env input' st' else Some (Inr st'))"

section \<open>The main program\<close>

text \<open>
  The argument parser's callback; \<open>Opt_S\<close>, \<open>Arg\<close> and \<open>End\<close> are the keys
  \<^verbatim>\<open>'S'\<close>, \<^verbatim>\<open>ARGP_KEY_ARG\<close> and \<^verbatim>\<open>ARGP_KEY_END\<close> with
  \<^verbatim>\<open>arg\<close> and \<^verbatim>\<open>arg_num\<close>; \<open>Usage\<close> is \<^verbatim>\<open>argp_usage\<close>, which exits.
\<close>

record arguments =
  input_file :: "string option"
  is_disasm :: bool
  disasm_path :: "string option"

datatype argp_key = Opt_S "string option" | Arg string nat | End nat | Other

datatype parse_result = Parsed arguments | Usage | Unknown

fun parse_opt :: "argp_key \<Rightarrow> arguments \<Rightarrow> parse_result" where
  "parse_opt (Opt_S arg) a = Parsed (case arg of
       None \<Rightarrow> a\<lparr>is_disasm := True\<rparr> | Some p \<Rightarrow> a\<lparr>is_disasm := True, disasm_path := Some p\<rparr>)"
| "parse_opt (Arg f n) a = (if n \<ge> 1 then Usage else Parsed (a\<lparr>input_file := Some f\<rparr>))"
| "parse_opt (End n) a = (if n < 1 then Usage else Parsed a)"
| "parse_opt Other a = Unknown"

text \<open>The breakpoint \<^verbatim>\<open>main\<close> installs.\<close>

definition entry_bkpt :: rvbkpt_ev where
  "entry_bkpt = bkpt_zero\<lparr>pc_cond := \<lparr>rc_val = 0x10954, rc_comp = BKPTCOMP_EQ, rc_sign = False\<rparr>,
     one_shot := True, active := True\<rparr>"

text \<open>
  \<open>opens\<close> says which paths the host lets the process create.  The context of 16 bytes is
  allocated first and released when the file cannot be opened.
\<close>

definition rvasm_init :: "(string \<Rightarrow> bool) \<Rightarrow> string \<Rightarrow> hheap \<Rightarrow> (bool \<times> hheap) res" where
  "rvasm_init opens path h =
     rbind (halloc ''failed to allocate RVASM context'' 16 h) (\<lambda>(_, h').
       Inr (if opens path then (True, h') else (False, h)))"

text \<open>
  \<open>files\<close> is the content of the file at a path, or \<open>None\<close> when it cannot be opened.  Reading
  returns all of it.
\<close>

definition main_init ::
    "(string \<Rightarrow> u8 list option) \<Rightarrow> (string \<Rightarrow> bool) \<Rightarrow> arguments \<Rightarrow> hheap \<Rightarrow> rvstate res" where
  "main_init files opens args h =
     (case Option.bind (input_file args) files of
        None \<Rightarrow> Inl (Fatal ''Failed to open binary file'')
      | Some bytes \<Rightarrow>
          rbind (halloc ''Failed to allocate memory region for code'' (length bytes) h) (\<lambda>(_, h).
          rbind (elf_init bytes h) (\<lambda>(elf_ctx, h).
            if bp elf_ctx = 0 then Inl (Fatal ''Failed to allocate stack/heap'')
            else rbind (rvstate_init elf_ctx h) (\<lambda>st.
              rbind (if \<not> is_disasm args then Inr st
                else let path = (case disasm_path args of
                        Some p \<Rightarrow> p | None \<Rightarrow> the (input_file args) @ ''.S'')
                  in rbind (rvasm_init opens path (host st)) (\<lambda>(opened, h).
                    if opened then Inr (st\<lparr>disasm := Some path, host := h\<rparr>)
                    else Inl (Fatal ''Failed to open file for disassembly context'')))
                (\<lambda>st. Inr (rvbkpt_add entry_bkpt st))))))"

definition main ::
    "nat \<Rightarrow> host_env \<Rightarrow> (string \<Rightarrow> u8 list option) \<Rightarrow> (string \<Rightarrow> bool) \<Rightarrow> string
     \<Rightarrow> arguments \<Rightarrow> hheap \<Rightarrow> rvstate res option" where
  "main fuel env files opens input args h = (case main_init files opens args h of
       Inl e \<Rightarrow> Some (Inl e)
     | Inr st \<Rightarrow> map_option (\<lambda>r. rbind r (\<lambda>st. Inr (rvtrbk_print_dump st))) (main_loop fuel env input st))"

section \<open>Invariants of a run\<close>

lemma diag_ext_trace: "diag_ext st (st\<lparr>trace := trace st @ es\<rparr>)"
  unfolding diag_ext_def by (rule exI [of _ False], rule exI [of _ es]) simp

lemma diag_ext_dump: "diag_ext st (rvtrbk_print_dump st)"
  unfolding rvtrbk_print_dump_def append_assoc by (rule diag_ext_trace)

text \<open>
  An invariant of decoding and dispatch that polling for breakpoints keeps is an invariant of
  every step, of the prompt and of the main loop.
\<close>

locale run_invariant = state_invariant +
  assumes keeps_poll: "P st \<Longrightarrow> P (snd (rvbkpt_poll st))"
begin

lemma keeps_trace: "P st \<Longrightarrow> P (emit e st)" "P st \<Longrightarrow> P (rvtrbk_print_dump st)"
  "P st \<Longrightarrow> P (rvtrbk_error m st)"
  using keeps_diag diag_ext_dump by blast+

lemma keeps_step:
  assumes "P st" and "rvemu_step env st = Inr (go, st')"
  shows "P st'"
proof (cases "suspended st")
  case True
  then show ?thesis using assms by (simp add: rvemu_step_def)
next
  case False
  have "P (set_reg 0 0 st)" using assms(1) by (rule keeps_reg)
  then show ?thesis
    using assms(2) False keeps_trace
    by (auto simp: rvemu_step_def Let_def rbind_eq_Inr split: if_splits
        dest: keeps_decode keeps_dispatch)
qed

lemma keeps_prompt: "P st \<Longrightarrow> bkpt_prompt env input st = Inr (rest, st') \<Longrightarrow> P st'"
proof (induction "length input" arbitrary: input st rule: less_induct)
  case less
  let ?st = "emit (Stdout ''> '') st"
  have p: "P ?st" using less.prems(1) by (rule keeps_trace)
  show ?case
  proof (cases "input = []")
    case True
    then show ?thesis using less.prems p by (subst (asm) bkpt_prompt.simps) simp
  next
    case False
    obtain cmd more where c: "read_cmd input = (cmd, more)" by fastforce
    then have "length more < length input" using read_cmd_shorter [OF False] by simp
    note IH = less.hyps [OF this]
    consider (quits) "st' = ?st" | (steps) "rbind (rvemu_step env ?st) (\<lambda>(_, st). bkpt_prompt env more st) = Inr (rest, st')"
      | (dump) "bkpt_prompt env more (rvtrbk_print_dump ?st) = Inr (rest, st')"
      | (usage) m where "bkpt_prompt env more (emit m ?st) = Inr (rest, st')"
      using less.prems(2) unfolding bkpt_prompt.simps [of env input st] Let_def c prod.case
      by (simp only: False if_False split: if_splits) blast+
    then show ?thesis
    proof cases
      case quits
      then show ?thesis using p by simp
    next
      case steps
      then obtain go st1 where "rvemu_step env ?st = Inr (go, st1)" "bkpt_prompt env more st1 = Inr (rest, st')"
        by (auto simp: rbind_eq_Inr)
      then show ?thesis using IH keeps_step [OF p] by blast
    next
      case dump
      then show ?thesis using IH keeps_trace(2) [OF p] by blast
    next
      case usage
      then show ?thesis using IH keeps_trace(1) [OF p] by blast
    qed
  qed
qed

lemma keeps_body:
  assumes "P st" and "loop_body env input st = Inr (go, rest, st')"
  shows "P st'"
proof -
  obtain go1 st1 where step: "rvemu_step env st = Inr (go1, st1)"
    using assms(2) by (auto simp: loop_body_def rbind_eq_Inr)
  then have p1: "P st1" using assms(1) keeps_step by blast
  obtain ev st2 where poll: "rvbkpt_poll st1 = (ev, st2)" by fastforce
  then have p2: "P st2" using keeps_poll [OF p1] by simp
  consider "st' = st1" | "st' = st2" | e where "bkpt_user_loop env e input st2 = Inr (rest, st')"
    using assms(2) by (auto simp: loop_body_def step poll rbind_eq_Inr split: if_splits option.splits)
  then show ?thesis
  proof cases
    case 3
    then show ?thesis
      unfolding bkpt_user_loop_def using keeps_prompt [OF keeps_trace(1) [OF p2]] by blast
  qed (simp_all add: p1 p2)
qed

lemma keeps_loop: "P st \<Longrightarrow> main_loop fuel env input st = Some (Inr st') \<Longrightarrow> P st'"
proof (induction fuel arbitrary: input st)
  case 0
  then show ?case by simp
next
  case (Suc fuel)
  then show ?case by (auto split: sum.splits if_splits dest: keeps_body)
qed

end

interpretation run_state_ok: run_invariant env state_ok for env
proof (intro run_invariant.intro state_ok.state_invariant_axioms run_invariant_axioms.intro)
  show "state_ok st \<Longrightarrow> state_ok (snd (rvbkpt_poll st))" for st
    using state_ok_poll [of st] by (metis prod.collapse)
qed

interpretation run_fixed_map: run_invariant env "\<lambda>st. address_map st = M" for env M
  by (intro run_invariant.intro fixed_map.state_invariant_axioms run_invariant_axioms.intro)
    (auto simp: rvbkpt_poll_def address_map_def split: prod.splits)

interpretation run_trace_grows: run_invariant env "\<lambda>st. \<exists>es. trace st = es0 @ es" for env es0
  by (intro run_invariant.intro trace_grows.state_invariant_axioms run_invariant_axioms.intro)
    (auto simp: rvbkpt_poll_def split: prod.splits)

end
