(* ===== verification/IsaSpec.thy ===== *)
theory IsaSpec
  imports Prelude "HOL-Library.Signed_Division"
begin

text \<open>
  The reference the emulator is held to: the forty instructions of RV32I, with \<^verbatim>\<open>FENCE\<close>,
  \<^verbatim>\<open>ECALL\<close> and \<^verbatim>\<open>EBREAK\<close>, and the M extension as the RISC-V unprivileged manual defines them, with their binary encoding and their effect on
  an abstract machine of 31 registers, a program counter and byte-addressed memory.  Nothing here
  is taken from the emulator.
\<close>

section \<open>Instructions\<close>

type_synonym regno = "5 word"

datatype rop = ADD | SUB | SLL | SLT | SLTU | XORr | SRL | SRA | ORr | ANDr
  | MUL | MULH | MULHSU | MULHU | DIV | DIVU | REM | REMU

datatype iop = ADDI | SLTI | SLTIU | XORI | ORI | ANDI

datatype shiftop = SLLI | SRLI | SRAI

datatype loadop = LB | LH | LW | LBU | LHU

datatype storeop = SB | SH | SW

datatype branchop = BEQ | BNE | BLT | BGE | BLTU | BGEU

text \<open>
  Branch and jump offsets are given in units of two bytes, as they are encoded.  The operand of
  \<^verbatim>\<open>FENCE\<close> is its mode and its predecessor and successor sets, four bits each.
\<close>

datatype instr =
    OpR rop regno regno regno
  | OpI iop regno regno "12 word"
  | OpShift shiftop regno regno "5 word"
  | OpLoad loadop regno regno "12 word"
  | OpStore storeop regno regno "12 word"
  | OpBranch branchop regno regno "12 word"
  | OpLui regno "20 word"
  | OpAuipc regno "20 word"
  | OpJal regno "20 word"
  | OpJalr regno regno "12 word"
  | OpFence "12 word"
  | OpEcall
  | OpEbreak

section \<open>Encoding\<close>

definition r_format :: "7 word \<Rightarrow> regno \<Rightarrow> 3 word \<Rightarrow> regno \<Rightarrow> regno \<Rightarrow> 7 word \<Rightarrow> u32" where
  "r_format opcode d f3 s1 s2 f7 = ucast opcode OR push_bit 7 (ucast d) OR push_bit 12 (ucast f3)
     OR push_bit 15 (ucast s1) OR push_bit 20 (ucast s2) OR push_bit 25 (ucast f7)"

definition i_format :: "7 word \<Rightarrow> regno \<Rightarrow> 3 word \<Rightarrow> regno \<Rightarrow> 12 word \<Rightarrow> u32" where
  "i_format opcode d f3 s1 im = ucast opcode OR push_bit 7 (ucast d) OR push_bit 12 (ucast f3)
     OR push_bit 15 (ucast s1) OR push_bit 20 (ucast im)"

text \<open>The upper seven and the lower five bits of a store offset surround the registers.\<close>

definition s_format :: "7 word \<Rightarrow> 3 word \<Rightarrow> regno \<Rightarrow> regno \<Rightarrow> 12 word \<Rightarrow> u32" where
  "s_format opcode f3 s1 s2 im =
     r_format opcode (ucast im) f3 s1 s2 (ucast (drop_bit 5 im))"

text \<open>\<open>im\<close> holds offset bits 12 to 1; bit 11 is encoded at position 7 and bit 12 at position 31.\<close>

definition b_format :: "7 word \<Rightarrow> 3 word \<Rightarrow> regno \<Rightarrow> regno \<Rightarrow> 12 word \<Rightarrow> u32" where
  "b_format opcode f3 s1 s2 im =
     ucast opcode OR push_bit 7 (ucast (ucast (drop_bit 10 im) :: 1 word))
     OR push_bit 8 (ucast (ucast im :: 4 word)) OR push_bit 12 (ucast f3)
     OR push_bit 15 (ucast s1) OR push_bit 20 (ucast s2)
     OR push_bit 25 (ucast (ucast (drop_bit 4 im) :: 6 word))
     OR push_bit 31 (ucast (ucast (drop_bit 11 im) :: 1 word))"

definition u_format :: "7 word \<Rightarrow> regno \<Rightarrow> 20 word \<Rightarrow> u32" where
  "u_format opcode d im = ucast opcode OR push_bit 7 (ucast d) OR push_bit 12 (ucast im)"

text \<open>\<open>im\<close> holds offset bits 20 to 1.\<close>

definition j_format :: "7 word \<Rightarrow> regno \<Rightarrow> 20 word \<Rightarrow> u32" where
  "j_format opcode d im = ucast opcode OR push_bit 7 (ucast d)
     OR push_bit 12 (ucast (ucast (drop_bit 11 im) :: 8 word))
     OR push_bit 20 (ucast (ucast (drop_bit 10 im) :: 1 word))
     OR push_bit 21 (ucast (ucast im :: 10 word))
     OR push_bit 31 (ucast (ucast (drop_bit 19 im) :: 1 word))"

text \<open>Minor opcodes, \<open>funct3\<close> with \<open>funct7\<close> where the format has it.\<close>

fun rop_code :: "rop \<Rightarrow> 3 word \<times> 7 word" where
  "rop_code ADD = (0, 0)" | "rop_code SUB = (0, 32)" | "rop_code SLL = (1, 0)"
| "rop_code SLT = (2, 0)" | "rop_code SLTU = (3, 0)" | "rop_code XORr = (4, 0)"
| "rop_code SRL = (5, 0)" | "rop_code SRA = (5, 32)" | "rop_code ORr = (6, 0)"
| "rop_code ANDr = (7, 0)" | "rop_code MUL = (0, 1)" | "rop_code MULH = (1, 1)"
| "rop_code MULHSU = (2, 1)" | "rop_code MULHU = (3, 1)" | "rop_code DIV = (4, 1)"
| "rop_code DIVU = (5, 1)" | "rop_code REM = (6, 1)" | "rop_code REMU = (7, 1)"

fun iop_code :: "iop \<Rightarrow> 3 word" where
  "iop_code ADDI = 0" | "iop_code SLTI = 2" | "iop_code SLTIU = 3" | "iop_code XORI = 4"
| "iop_code ORI = 6" | "iop_code ANDI = 7"

fun shiftop_code :: "shiftop \<Rightarrow> 3 word \<times> 7 word" where
  "shiftop_code SLLI = (1, 0)" | "shiftop_code SRLI = (5, 0)" | "shiftop_code SRAI = (5, 32)"

fun loadop_code :: "loadop \<Rightarrow> 3 word" where
  "loadop_code LB = 0" | "loadop_code LH = 1" | "loadop_code LW = 2" | "loadop_code LBU = 4"
| "loadop_code LHU = 5"

fun storeop_code :: "storeop \<Rightarrow> 3 word" where
  "storeop_code SB = 0" | "storeop_code SH = 1" | "storeop_code SW = 2"

fun branchop_code :: "branchop \<Rightarrow> 3 word" where
  "branchop_code BEQ = 0" | "branchop_code BNE = 1" | "branchop_code BLT = 4"
| "branchop_code BGE = 5" | "branchop_code BLTU = 6" | "branchop_code BGEU = 7"

fun encode :: "instr \<Rightarrow> u32" where
  "encode (OpR f d s1 s2) = r_format 0x33 d (fst (rop_code f)) s1 s2 (snd (rop_code f))"
| "encode (OpI f d s1 im) = i_format 0x13 d (iop_code f) s1 im"
| "encode (OpShift f d s1 sh) = r_format 0x13 d (fst (shiftop_code f)) s1 sh (snd (shiftop_code f))"
| "encode (OpLoad f d s1 im) = i_format 0x03 d (loadop_code f) s1 im"
| "encode (OpStore f s1 s2 im) = s_format 0x23 (storeop_code f) s1 s2 im"
| "encode (OpBranch f s1 s2 im) = b_format 0x63 (branchop_code f) s1 s2 im"
| "encode (OpLui d im) = u_format 0x37 d im"
| "encode (OpAuipc d im) = u_format 0x17 d im"
| "encode (OpJal d im) = j_format 0x6F d im"
| "encode (OpJalr d s1 im) = i_format 0x67 d 0 s1 im"
| "encode (OpFence im) = i_format 0x0F 0 0 0 im"
| "encode OpEcall = i_format 0x73 0 0 0 0"
| "encode OpEbreak = i_format 0x73 0 0 0 1"

section \<open>The abstract machine\<close>

record machine =
  xregs :: "regno \<Rightarrow> u32"
  xpc :: u32
  xmem :: "u32 \<Rightarrow> u8 option"

text \<open>Register 0 reads as zero, and a write to it has no effect.\<close>

definition xget :: "machine \<Rightarrow> regno \<Rightarrow> u32" where
  "xget m r = (if r = 0 then 0 else xregs m r)"

definition xset :: "regno \<Rightarrow> u32 \<Rightarrow> machine \<Rightarrow> machine" where
  "xset r v m = (if r = 0 then m else m\<lparr>xregs := (xregs m)(r := v)\<rparr>)"

definition xnext :: "machine \<Rightarrow> machine" where
  "xnext m = m\<lparr>xpc := xpc m + 4\<rparr>"

fun xload :: "(u32 \<Rightarrow> u8 option) \<Rightarrow> u32 \<Rightarrow> nat \<Rightarrow> u8 list option" where
  "xload mm a 0 = Some []"
| "xload mm a (Suc n) = (case mm a of
       None \<Rightarrow> None
     | Some b \<Rightarrow> map_option (\<lambda>bs. b # bs) (xload mm (a + 1) n))"

fun xstore :: "(u32 \<Rightarrow> u8 option) \<Rightarrow> u32 \<Rightarrow> u8 list \<Rightarrow> u32 \<Rightarrow> u8 option" where
  "xstore mm a [] = mm"
| "xstore mm a (b # bs) = (xstore mm (a + 1) bs)(a := Some b)"

text \<open>
  The high half of a product and the results of division by zero and of overflow are the
  manual's: the quotient of a division by zero has all bits set and the remainder is the dividend;
  the quotient of the most negative number by minus one is the dividend and the remainder zero.
\<close>

fun alu :: "rop \<Rightarrow> u32 \<Rightarrow> u32 \<Rightarrow> u32" where
  "alu ADD a b = a + b"
| "alu SUB a b = a - b"
| "alu SLL a b = push_bit (unat (b AND 31)) a"
| "alu SLT a b = (if sint a < sint b then 1 else 0)"
| "alu SLTU a b = (if a < b then 1 else 0)"
| "alu XORr a b = a XOR b"
| "alu SRL a b = drop_bit (unat (b AND 31)) a"
| "alu SRA a b = signed_drop_bit (unat (b AND 31)) a"
| "alu ORr a b = a OR b"
| "alu ANDr a b = a AND b"
| "alu MUL a b = a * b"
| "alu MULH a b = of_int (sint a * sint b div 2 ^ 32)"
| "alu MULHSU a b = of_int (sint a * uint b div 2 ^ 32)"
| "alu MULHU a b = of_int (uint a * uint b div 2 ^ 32)"
| "alu DIV a b = (if b = 0 then - 1 else of_int (sint a sdiv sint b))"
| "alu DIVU a b = (if b = 0 then - 1 else a div b)"
| "alu REM a b = (if b = 0 then a else of_int (sint a smod sint b))"
| "alu REMU a b = (if b = 0 then a else a mod b)"

fun alui :: "iop \<Rightarrow> u32 \<Rightarrow> u32 \<Rightarrow> u32" where
  "alui ADDI a k = a + k"
| "alui SLTI a k = (if sint a < sint k then 1 else 0)"
| "alui SLTIU a k = (if a < k then 1 else 0)"
| "alui XORI a k = a XOR k"
| "alui ORI a k = a OR k"
| "alui ANDI a k = a AND k"

fun shifter :: "shiftop \<Rightarrow> u32 \<Rightarrow> nat \<Rightarrow> u32" where
  "shifter SLLI a n = push_bit n a"
| "shifter SRLI a n = drop_bit n a"
| "shifter SRAI a n = signed_drop_bit n a"

fun load_size :: "loadop \<Rightarrow> nat" where
  "load_size LB = 1" | "load_size LH = 2" | "load_size LW = 4" | "load_size LBU = 1"
| "load_size LHU = 2"

fun load_value :: "loadop \<Rightarrow> u8 list \<Rightarrow> u32" where
  "load_value LB bs = scast (le_word bs :: u8)"
| "load_value LH bs = scast (le_word bs :: u16)"
| "load_value LW bs = le_word bs"
| "load_value LBU bs = ucast (le_word bs :: u8)"
| "load_value LHU bs = ucast (le_word bs :: u16)"

fun store_size :: "storeop \<Rightarrow> nat" where
  "store_size SB = 1" | "store_size SH = 2" | "store_size SW = 4"

fun taken :: "branchop \<Rightarrow> u32 \<Rightarrow> u32 \<Rightarrow> bool" where
  "taken BEQ a b \<longleftrightarrow> a = b"
| "taken BNE a b \<longleftrightarrow> a \<noteq> b"
| "taken BLT a b \<longleftrightarrow> sint a < sint b"
| "taken BGE a b \<longleftrightarrow> sint a \<ge> sint b"
| "taken BLTU a b \<longleftrightarrow> a < b"
| "taken BGEU a b \<longleftrightarrow> a \<ge> b"

definition half_offset :: "'a::len word \<Rightarrow> u32" where
  "half_offset im = push_bit 1 (scast im)"

text \<open>
  The step of one instruction; \<open>None\<close> is an access to memory that is not there, or a request to the
  execution environment, which answers it.  A fence orders the accesses of harts, and there is one.
\<close>

fun isa_exec :: "instr \<Rightarrow> machine \<Rightarrow> machine option" where
  "isa_exec (OpR f d s1 s2) m = Some (xnext (xset d (alu f (xget m s1) (xget m s2)) m))"
| "isa_exec (OpI f d s1 im) m = Some (xnext (xset d (alui f (xget m s1) (scast im)) m))"
| "isa_exec (OpShift f d s1 sh) m = Some (xnext (xset d (shifter f (xget m s1) (unat sh)) m))"
| "isa_exec (OpLoad f d s1 im) m =
     map_option (\<lambda>bs. xnext (xset d (load_value f bs) m))
       (xload (xmem m) (xget m s1 + scast im) (load_size f))"
| "isa_exec (OpStore f s1 s2 im) m =
     (let a = xget m s1 + scast im in
      if xload (xmem m) a (store_size f) = None then None
      else Some (xnext (m\<lparr>xmem := xstore (xmem m) a (le_bytes (store_size f) (xget m s2))\<rparr>)))"
| "isa_exec (OpBranch f s1 s2 im) m =
     Some (if taken f (xget m s1) (xget m s2) then m\<lparr>xpc := xpc m + half_offset im\<rparr> else xnext m)"
| "isa_exec (OpLui d im) m = Some (xnext (xset d (push_bit 12 (ucast im)) m))"
| "isa_exec (OpAuipc d im) m = Some (xnext (xset d (xpc m + push_bit 12 (ucast im)) m))"
| "isa_exec (OpJal d im) m =
     Some ((xset d (xpc m + 4) m)\<lparr>xpc := xpc m + half_offset im\<rparr>)"
| "isa_exec (OpJalr d s1 im) m =
     Some ((xset d (xpc m + 4) m)\<lparr>xpc := (xget m s1 + scast im) AND NOT 1\<rparr>)"
| "isa_exec (OpFence im) m = Some (xnext m)"
| "isa_exec OpEcall m = None"
| "isa_exec OpEbreak m = None"

end
