(* ===== verification/DecodeCorrect.thy ===== *)
theory DecodeCorrect
  imports Decoder IsaSpec
begin

text \<open>
  The decoder inverts the reference encoding: for every instruction of RV32I and of the M
  extension but the fences with operands of their own, decoding its 32-bit word gives the
  instruction with its operands and sign-extended immediate, and the only effect is the disassembly
  line.
\<close>

section \<open>Fields of the formats\<close>

lemma bits_below_0 [bitfield]:
  fixes x :: "'b::len word"
  shows "LENGTH('b) \<le> lo \<Longrightarrow> bits lo n (ucast x :: 'a::len word) = 0"
  using bits_below [where k = 0 and x = x and 'a = 'a] by simp

lemma bits_slice_0 [bitfield]:
  fixes x :: "'b::len word"
  shows "lo + n \<le> LENGTH('b) \<Longrightarrow> LENGTH('b) < LENGTH('a) \<Longrightarrow>
    bits lo n (ucast x :: 'a::len word) = ucast (bits lo n x)"
  using bits_slice [where k = 0 and x = x and 'a = 'a] by simp

lemmas format_fields = field_defs bitfield

lemma r_format_fields [simp]:
  "f_opcode (r_format op d f3 s1 s2 f7) = ucast op" "f_rd (r_format op d f3 s1 s2 f7) = ucast d"
  "f_funct3 (r_format op d f3 s1 s2 f7) = ucast f3" "f_rs1 (r_format op d f3 s1 s2 f7) = ucast s1"
  "f_rs2 (r_format op d f3 s1 s2 f7) = ucast s2" "f_funct7 (r_format op d f3 s1 s2 f7) = ucast f7"
  by (simp_all add: r_format_def format_fields)

lemma i_format_fields [simp]:
  "f_opcode (i_format op d f3 s1 im) = ucast op" "f_rd (i_format op d f3 s1 im) = ucast d"
  "f_funct3 (i_format op d f3 s1 im) = ucast f3" "f_rs1 (i_format op d f3 s1 im) = ucast s1"
  "i_imm__11_0 (i_format op d f3 s1 im) = ucast im"
  by (simp_all add: i_format_def format_fields)

lemma b_format_fields [simp]:
  "f_opcode (b_format op f3 s1 s2 im) = ucast op" "f_funct3 (b_format op f3 s1 s2 im) = ucast f3"
  "f_rs1 (b_format op f3 s1 s2 im) = ucast s1" "f_rs2 (b_format op f3 s1 s2 im) = ucast s2"
  "b_imm__11 (b_format op f3 s1 s2 im) = ucast (ucast (drop_bit 10 im) :: 1 word)"
  "b_imm__4_1 (b_format op f3 s1 s2 im) = ucast (ucast im :: 4 word)"
  "b_imm__10_5 (b_format op f3 s1 s2 im) = ucast (ucast (drop_bit 4 im) :: 6 word)"
  "b_imm__12 (b_format op f3 s1 s2 im) = ucast (ucast (drop_bit 11 im) :: 1 word)"
  by (simp_all add: b_format_def format_fields)

lemma u_format_fields [simp]:
  "f_opcode (u_format op d im) = ucast op" "f_rd (u_format op d im) = ucast d"
  "u_imm__31_12 (u_format op d im) = ucast im"
  by (simp_all add: u_format_def format_fields)

lemma j_format_fields [simp]:
  "f_opcode (j_format op d im) = ucast op" "f_rd (j_format op d im) = ucast d"
  "j_imm__19_12 (j_format op d im) = ucast (ucast (drop_bit 11 im) :: 8 word)"
  "j_imm__11 (j_format op d im) = ucast (ucast (drop_bit 10 im) :: 1 word)"
  "j_imm__10_1 (j_format op d im) = ucast (ucast im :: 10 word)"
  "j_imm__20 (j_format op d im) = ucast (ucast (drop_bit 19 im) :: 1 word)"
  by (simp_all add: j_format_def format_fields)

section \<open>Immediates\<close>

lemma SIGNEXT_bit: "bit (SIGNEXT w (push_bit k 1)) i \<longleftrightarrow>
    (bit w i \<or> bit w k \<and> k \<le> i \<and> i < 32)" if "k < 32"
proof -
  have "w AND push_bit k 1 \<noteq> 0 \<longleftrightarrow> bit w k"
    using bit_iff_and_push_bit_not_eq_0 [of w k] by simp
  moreover have "push_bit k 1 - 1 = (mask k :: u32)"
    by (simp add: mask_eq_exp_minus_1 push_bit_eq_mult)
  ultimately show ?thesis
    by (auto simp: SIGNEXT_def bit_simps not_less dest: bit_imp_le_length)
qed

text \<open>A word put together from fields is the sign extension when every bit agrees.\<close>

lemma signext_eqI:
  fixes im :: "'a::len word"
  assumes "k < 32" and "LENGTH('a) = Suc k" and "\<And>i. i < 32 \<Longrightarrow> bit w i = bit im i"
  shows "SIGNEXT w (push_bit k 1) = scast im"
proof (rule bit_word_eqI)
  fix i assume i: "i < LENGTH(32)"
  have "bit im i \<Longrightarrow> i \<le> k" using assms(2) by (auto dest: bit_imp_le_length)
  with i assms show "bit (SIGNEXT w (push_bit k 1)) i = bit (scast im :: u32) i"
    by (subst SIGNEXT_bit) (auto simp: bit_simps min_def)
qed

lemma signext_12: "SIGNEXT (ucast (im :: 12 word)) (push_bit 11 1) = scast im"
  by (rule signext_eqI) (simp_all add: bit_simps)

lemma signext_store:
  "SIGNEXT (push_bit 5 (ucast (ucast (drop_bit 5 im) :: 7 word)) OR ucast (ucast im :: 5 word)) (push_bit 11 1)
     = scast (im :: 12 word)"
proof (rule signext_eqI)
  fix i :: nat assume "i < 32"
  then show "bit (push_bit 5 (ucast (ucast (drop_bit 5 im) :: 7 word)) OR ucast (ucast im :: 5 word) :: u32) i
      = bit im i"
    by (auto simp: bit_simps dest: bit_imp_le_length)
qed simp_all

lemma bit_half_offset: "bit (half_offset im) i \<longleftrightarrow> i < 32 \<and> 0 < i \<and> bit (scast im :: u32) (i - 1)"
  by (simp only: half_offset_def bit_push_bit_iff possible_bit_word) auto

lemma signext_half_eqI:
  fixes im :: "'a::len word"
  assumes "k < 32" and "LENGTH('a) = k" and "\<And>i. i < 32 \<Longrightarrow> bit w i \<longleftrightarrow> 0 < i \<and> bit im (i - 1)"
  shows "SIGNEXT w (push_bit k 1) = half_offset im"
proof (rule bit_word_eqI)
  fix i assume i: "i < LENGTH(32)"
  have "bit im j \<Longrightarrow> j < k" for j using assms(2) by (auto dest: bit_imp_le_length)
  then have "bit im (i - 1) \<Longrightarrow> k - 1 \<le> i - 1 \<Longrightarrow> i - 1 = k - 1" by fastforce
  moreover have "k \<le> i \<Longrightarrow> 0 < i" using assms(2) len_gt_0 [where 'a = 'a] by linarith
  ultimately show "bit (SIGNEXT w (push_bit k 1)) i = bit (half_offset im) i"
    using i assms by (subst SIGNEXT_bit) (auto simp: bit_half_offset bit_signed_iff min_def)
qed

text \<open>Bit \<open>i\<close> of a field that holds the offset bits from \<open>p + 1\<close> on.\<close>

lemma bit_offset_field:
  fixes im :: "'a::len word"
  assumes "q = Suc p"
  shows "bit (push_bit q (ucast (ucast (drop_bit p im) :: 'n::len word)) :: u32) i \<longleftrightarrow>
    i < 32 \<and> p < i \<and> i \<le> p + LENGTH('n) \<and> bit im (i - 1)"
proof (cases "p < i")
  case True
  then have "p + (i - q) = i - 1" using assms by simp
  then show ?thesis
    unfolding bit_push_bit_iff bit_unsigned_iff bit_drop_bit_eq o_def using True assms
    by (auto dest: bit_imp_le_length)
next
  case False
  then show ?thesis unfolding bit_push_bit_iff using assms by simp
qed

lemma bit_offset_field_0:
  fixes im :: "'a::len word"
  shows "bit (push_bit 1 (ucast (ucast im :: 'n::len word)) :: u32) i \<longleftrightarrow>
    i < 32 \<and> 0 < i \<and> i \<le> LENGTH('n) \<and> bit im (i - 1)"
  using bit_offset_field [where q = 1 and p = 0 and im = im] by simp

lemma signext_branch:
  "SIGNEXT (push_bit 12 (ucast (ucast (drop_bit 11 im) :: 1 word))
      OR push_bit 11 (ucast (ucast (drop_bit 10 im) :: 1 word))
      OR push_bit 5 (ucast (ucast (drop_bit 4 im) :: 6 word))
      OR push_bit 1 (ucast (ucast im :: 4 word))) (push_bit 12 1) = half_offset (im :: 12 word)"
proof (rule signext_half_eqI)
  fix i :: nat assume i: "i < 32"
  have "bit im (i - 1) \<Longrightarrow> i \<le> 12" using bit_imp_le_length [of im "i - 1"] by simp
  moreover have "0 < i \<and> i \<le> 12 \<longleftrightarrow>
      11 < i \<and> i \<le> 12 \<or> 10 < i \<and> i \<le> 11 \<or> 4 < i \<and> i \<le> 10 \<or> 0 < i \<and> i \<le> 4" by arith
  ultimately show "bit (push_bit 12 (ucast (ucast (drop_bit 11 im) :: 1 word))
      OR push_bit 11 (ucast (ucast (drop_bit 10 im) :: 1 word))
      OR push_bit 5 (ucast (ucast (drop_bit 4 im) :: 6 word))
      OR push_bit 1 (ucast (ucast im :: 4 word)) :: u32) i \<longleftrightarrow> 0 < i \<and> bit im (i - 1)"
    unfolding bit_or_iff bit_offset_field_0 using i by (simp add: bit_offset_field) blast
qed simp_all

lemma signext_jump:
  "SIGNEXT (push_bit 20 (ucast (ucast (drop_bit 19 im) :: 1 word))
      OR push_bit 12 (ucast (ucast (drop_bit 11 im) :: 8 word))
      OR push_bit 11 (ucast (ucast (drop_bit 10 im) :: 1 word))
      OR push_bit 1 (ucast (ucast im :: 10 word))) (push_bit 20 1) = half_offset (im :: 20 word)"
proof (rule signext_half_eqI)
  fix i :: nat assume i: "i < 32"
  have "bit im (i - 1) \<Longrightarrow> i \<le> 20" using bit_imp_le_length [of im "i - 1"] by simp
  moreover have "0 < i \<and> i \<le> 20 \<longleftrightarrow>
      19 < i \<and> i \<le> 20 \<or> 11 < i \<and> i \<le> 19 \<or> 10 < i \<and> i \<le> 11 \<or> 0 < i \<and> i \<le> 10" by arith
  ultimately show "bit (push_bit 20 (ucast (ucast (drop_bit 19 im) :: 1 word))
      OR push_bit 12 (ucast (ucast (drop_bit 11 im) :: 8 word))
      OR push_bit 11 (ucast (ucast (drop_bit 10 im) :: 1 word))
      OR push_bit 1 (ucast (ucast im :: 10 word)) :: u32) i \<longleftrightarrow> 0 < i \<and> bit im (i - 1)"
    unfolding bit_or_iff bit_offset_field_0 using i by (simp add: bit_offset_field) blast
qed simp_all

section \<open>Decoding the encoding\<close>

fun rop_ty :: "rop \<Rightarrow> e_insn" where
  "rop_ty ADD = RV_INSN__ADD" | "rop_ty SUB = RV_INSN__SUB" | "rop_ty SLL = RV_INSN__SLL"
| "rop_ty SLT = RV_INSN__SLT" | "rop_ty SLTU = RV_INSN__SLTU" | "rop_ty XORr = RV_INSN__XOR"
| "rop_ty SRL = RV_INSN__SRL" | "rop_ty SRA = RV_INSN__SRA" | "rop_ty ORr = RV_INSN__OR"
| "rop_ty ANDr = RV_INSN__AND" | "rop_ty MUL = EXT_M RV_INSN__MUL"
| "rop_ty MULH = EXT_M RV_INSN__MULH" | "rop_ty MULHSU = EXT_M RV_INSN__MULHSU"
| "rop_ty MULHU = EXT_M RV_INSN__MULHU" | "rop_ty DIV = EXT_M RV_INSN__DIV"
| "rop_ty DIVU = EXT_M RV_INSN__DIVU" | "rop_ty REM = EXT_M RV_INSN__REM"
| "rop_ty REMU = EXT_M RV_INSN__REMU"

fun iop_ty :: "iop \<Rightarrow> e_insn" where
  "iop_ty ADDI = RV_INSN__ADDI" | "iop_ty SLTI = RV_INSN__SLTI" | "iop_ty SLTIU = RV_INSN__SLTIU"
| "iop_ty XORI = RV_INSN__XORI" | "iop_ty ORI = RV_INSN__ORI" | "iop_ty ANDI = RV_INSN__ANDI"

fun shiftop_ty :: "shiftop \<Rightarrow> e_insn" where
  "shiftop_ty SLLI = RV_INSN__SLLI" | "shiftop_ty SRLI = RV_INSN__SRLI" | "shiftop_ty SRAI = RV_INSN__SRAI"

fun loadop_ty :: "loadop \<Rightarrow> e_insn" where
  "loadop_ty LB = RV_INSN__LB" | "loadop_ty LH = RV_INSN__LH" | "loadop_ty LW = RV_INSN__LW"
| "loadop_ty LBU = RV_INSN__LBU" | "loadop_ty LHU = RV_INSN__LHU"

fun storeop_ty :: "storeop \<Rightarrow> e_insn" where
  "storeop_ty SB = RV_INSN__SB" | "storeop_ty SH = RV_INSN__SH" | "storeop_ty SW = RV_INSN__SW"

fun branchop_ty :: "branchop \<Rightarrow> e_insn" where
  "branchop_ty BEQ = RV_INSN__BEQ" | "branchop_ty BNE = RV_INSN__BNE" | "branchop_ty BLT = RV_INSN__BLT"
| "branchop_ty BGE = RV_INSN__BGE" | "branchop_ty BLTU = RV_INSN__BLTU" | "branchop_ty BGEU = RV_INSN__BGEU"

text \<open>The decoded form of an instruction; \<open>funct\<close> repeats the function bits.\<close>

fun decoded :: "instr \<Rightarrow> insn_t" where
  "decoded (OpR f d s1 s2) = insn_zero\<lparr>insn_ty := rop_ty f, rd := ucast d, rs1 := ucast s1, rs2 := ucast s2,
     funct := ucast (push_bit 3 (ucast (snd (rop_code f))) OR ucast (fst (rop_code f)) :: u32)\<rparr>"
| "decoded (OpI f d s1 im) = insn_zero\<lparr>insn_ty := iop_ty f, rd := ucast d, rs1 := ucast s1,
     funct := ucast (ucast (iop_code f) :: u32), imm := scast im\<rparr>"
| "decoded (OpShift f d s1 sh) = insn_zero\<lparr>insn_ty := shiftop_ty f, rd := ucast d, rs1 := ucast s1,
     funct := ucast (ucast (fst (shiftop_code f)) :: u32),
     imm := ucast sh OR push_bit 5 (ucast (snd (shiftop_code f)))\<rparr>"
| "decoded (OpLoad f d s1 im) = insn_zero\<lparr>insn_ty := loadop_ty f, rd := ucast d, rs1 := ucast s1,
     funct := ucast (ucast (loadop_code f) :: u32), imm := scast im\<rparr>"
| "decoded (OpStore f s1 s2 im) = insn_zero\<lparr>insn_ty := storeop_ty f, rs1 := ucast s1, rs2 := ucast s2,
     funct := ucast (ucast (storeop_code f) :: u32), imm := scast im\<rparr>"
| "decoded (OpBranch f s1 s2 im) = insn_zero\<lparr>insn_ty := branchop_ty f, rs1 := ucast s1, rs2 := ucast s2,
     funct := ucast (ucast (branchop_code f) :: u32), imm := half_offset im\<rparr>"
| "decoded (OpLui d im) = insn_zero\<lparr>insn_ty := RV_INSN__LUI, rd := ucast d, imm := ucast im\<rparr>"
| "decoded (OpAuipc d im) = insn_zero\<lparr>insn_ty := RV_INSN__AUIPC, rd := ucast d, imm := ucast im\<rparr>"
| "decoded (OpJal d im) = insn_zero\<lparr>insn_ty := RV_INSN__JAL, rd := ucast d, imm := half_offset im\<rparr>"
| "decoded (OpJalr d s1 im) = insn_zero\<lparr>insn_ty := RV_INSN__JALR, rd := ucast d, rs1 := ucast s1,
     imm := scast im\<rparr>"
| "decoded (OpFence im) = insn_zero\<lparr>insn_ty := RV_INSN__FENCE, imm := scast im\<rparr>"
| "decoded OpEcall = insn_zero\<lparr>insn_ty := RV_INSN__ECALL\<rparr>"
| "decoded OpEbreak = insn_zero\<lparr>insn_ty := RV_INSN__EBREAK, imm := 1\<rparr>"

text \<open>The only fence the decoder knows is the one of all accesses with all, \<^verbatim>\<open>fence iorw, iorw\<close>.\<close>

fun recognised :: "instr \<Rightarrow> bool" where
  "recognised (OpFence im) \<longleftrightarrow> im = 0xFF"
| "recognised _ \<longleftrightarrow> True"

text \<open>A format decoder whose group makes the instruction \<open>ty\<close> succeeds with one line printed.\<close>

definition decodes_to :: "rvstate \<Rightarrow> insn_t \<Rightarrow> (insn_t \<times> rvstate) res \<Rightarrow> bool" where
  "decodes_to st i r \<longleftrightarrow> (\<exists>line. r = Inr (i, emit (Disasm line) st))"

lemma decodes_to_finish:
  assumes "grp = make_insn ty a st" and "\<not> csr_argspec a" and "i = ops\<lparr>insn_ty := ty\<rparr>"
  shows "decodes_to st i (rvdec_finish ops grp)"
proof -
  obtain line where "rvasm_emit i a st = Inr (emit (Disasm line) st)"
    using rvasm_emit_ok [OF assms(2)] by blast
  then show ?thesis using assms by (auto simp: decodes_to_def)
qed

lemma i_imm_r_format:
  "i_imm__11_0 (r_format op d f3 s1 sh f7) = ucast sh OR push_bit 5 (ucast f7)"
proof -
  have "bits 20 12 (push_bit 20 (ucast sh) :: u32) = ucast sh"
    by (rule bit_word_eqI) (auto simp: bit_simps dest: bit_imp_le_length)
  moreover have "bits 20 12 (push_bit 25 (ucast f7) :: u32) = push_bit 5 (ucast f7)"
    by (rule bit_word_eqI) (auto simp: bit_simps dest: bit_imp_le_length)
  ultimately show ?thesis
    by (simp add: i_imm__11_0_def r_format_def bits_or bits_below bits_below_0 ac_simps)
qed

text \<open>The immediates of the three shifts do not reach the sign bit.\<close>

lemma signext_shift:
  "SIGNEXT (ucast (sh :: 5 word) OR push_bit 5 (ucast (snd (shiftop_code f)))) (push_bit 11 1)
     = ucast sh OR push_bit 5 (ucast (snd (shiftop_code f)))"
proof -
  have "\<not> bit (ucast sh OR push_bit 5 (ucast (snd (shiftop_code f))) :: u32) 11"
    by (cases f) (auto simp: bit_simps dest: bit_imp_le_length)
  then show ?thesis
    by (intro bit_word_eqI) (subst SIGNEXT_bit, simp_all)
qed

lemma s_format_fields [simp]:
  "f_opcode (s_format op f3 s1 s2 im) = ucast op" "f_funct3 (s_format op f3 s1 s2 im) = ucast f3"
  "f_rs1 (s_format op f3 s1 s2 im) = ucast s1" "f_rs2 (s_format op f3 s1 s2 im) = ucast s2"
  "s_imm__4_0 (s_format op f3 s1 s2 im) = ucast (ucast im :: 5 word)"
  "s_imm__11_5 (s_format op f3 s1 s2 im) = ucast (ucast (drop_bit 5 im) :: 7 word)"
  by (simp_all add: s_format_def s_imm__4_0_def s_imm__11_5_def r_format_fields [unfolded field_defs])

lemma reg_ucast [simp]: "(ucast (ucast (r :: 5 word) :: u32) :: u8) = ucast r"
  by (rule bit_word_eqI) (auto simp: bit_simps dest: bit_imp_le_length)

lemmas signext_simps = signext_12 [simplified] signext_store [simplified] signext_branch [simplified]
  signext_jump [simplified]

lemmas decode_defs = rvdec_insn_def opcond_defs format_defs group_defs i_imm_r_format

lemma decode_OpR: "decodes_to st (decoded (OpR f d s1 s2)) (rvdec_insn st (encode (OpR f d s1 s2)))"
  by (cases f; simp add: decode_defs del: rvdec_finish_make; rule decodes_to_finish [OF refl])
    (simp_all add: csr_argspec_def insn_zero_def)

lemma decode_OpI: "decodes_to st (decoded (OpI f d s1 im)) (rvdec_insn st (encode (OpI f d s1 im)))"
  by (cases f; simp add: decode_defs signext_simps del: rvdec_finish_make; rule decodes_to_finish [OF refl])
    (simp_all add: csr_argspec_def insn_zero_def)

lemma decode_OpShift:
  "decodes_to st (decoded (OpShift f d s1 sh)) (rvdec_insn st (encode (OpShift f d s1 sh)))"
  by (cases f; simp add: decode_defs signext_shift [of sh SLLI, simplified] signext_shift [of sh SRAI, simplified] del: rvdec_finish_make;
      rule decodes_to_finish [OF refl])
    (simp_all add: csr_argspec_def insn_zero_def)

lemma decode_OpLoad:
  "decodes_to st (decoded (OpLoad f d s1 im)) (rvdec_insn st (encode (OpLoad f d s1 im)))"
  by (cases f; simp add: decode_defs signext_simps del: rvdec_finish_make; rule decodes_to_finish [OF refl])
    (simp_all add: csr_argspec_def insn_zero_def)

lemma decode_OpStore:
  "decodes_to st (decoded (OpStore f s1 s2 im)) (rvdec_insn st (encode (OpStore f s1 s2 im)))"
  by (cases f; simp add: decode_defs signext_simps del: rvdec_finish_make; rule decodes_to_finish [OF refl])
    (simp_all add: csr_argspec_def insn_zero_def)

lemma decode_OpBranch:
  "decodes_to st (decoded (OpBranch f s1 s2 im)) (rvdec_insn st (encode (OpBranch f s1 s2 im)))"
  by (cases f; simp add: decode_defs signext_simps del: rvdec_finish_make; rule decodes_to_finish [OF refl])
    (simp_all add: csr_argspec_def insn_zero_def)

lemma decode_upper:
  "decodes_to st (decoded (OpLui d imu)) (rvdec_insn st (encode (OpLui d imu)))"
  "decodes_to st (decoded (OpAuipc d imu)) (rvdec_insn st (encode (OpAuipc d imu)))"
  "decodes_to st (decoded (OpJal d imu)) (rvdec_insn st (encode (OpJal d imu)))"
  "decodes_to st (decoded (OpJalr d s1 im)) (rvdec_insn st (encode (OpJalr d s1 im)))"
  by (simp add: decode_defs signext_simps del: rvdec_finish_make, rule decodes_to_finish [OF refl],
      simp add: csr_argspec_def, simp add: insn_zero_def)+

lemma decode_system:
  "decodes_to st (decoded (OpFence 0xFF)) (rvdec_insn st (encode (OpFence 0xFF)))"
  "decodes_to st (decoded OpEcall) (rvdec_insn st (encode OpEcall))"
  "decodes_to st (decoded OpEbreak) (rvdec_insn st (encode OpEbreak))"
  by (simp add: decode_defs SIGNEXT_def del: rvdec_finish_make, rule decodes_to_finish [OF refl],
      simp add: csr_argspec_def, simp add: insn_zero_def)+

lemma decodes_encode: "recognised i \<Longrightarrow> decodes_to st (decoded i) (rvdec_insn st (encode i))"
  by (cases i; simp only: decode_OpR decode_OpI decode_OpShift decode_OpLoad decode_OpStore
      decode_OpBranch decode_upper decode_system recognised.simps)

lemma reject_fence:
  assumes "im \<noteq> 0xFF"
  shows "\<exists>line. rvdec_insn st (encode (OpFence im))
    = Inr (insn_zero\<lparr>insn_ty := RV_INSN__INVALID, imm := scast im\<rparr>,
        emit (Disasm line) (rvtrbk_diagn ''unrecognised synch. instruction'' st))"
proof -
  have "uint (ucast im :: u32) = uint im" by (simp add: uint_up_ucast is_up)
  then have "(ucast im :: u32) \<noteq> 0xFF" using assms by (simp add: word_uint_eq_iff)
  moreover obtain line where "rvasm_emit (insn_zero\<lparr>insn_ty := RV_INSN__INVALID, imm := scast im\<rparr>) RV_ARGSPEC__NONE
      (rvtrbk_diagn ''unrecognised synch. instruction'' st)
      = Inr (emit (Disasm line) (rvtrbk_diagn ''unrecognised synch. instruction'' st))"
    using rvasm_emit_ok [of RV_ARGSPEC__NONE] by (auto simp: csr_argspec_def)
  ultimately show ?thesis
    by (intro exI [of _ line]) (simp add: decode_defs signext_simps rvdec_finish_def diagn_invalid_def INVALID_INSN_def insn_zero_def)
qed

text \<open>
  C4: the decoder inverts the encoding of the manual, except on fences.  The word of every
  instruction of RV32I (\<^verbatim>\<open>ECALL\<close> and \<^verbatim>\<open>EBREAK\<close> included) and of the M extension
  decodes to that instruction, with its registers and its sign-extended (branch and jump offsets in
  bytes) immediate, whatever the state, and the state gains one disassembly line; but of the fences
  only \<^verbatim>\<open>fence iorw, iorw\<close> does, and every other one is rejected as invalid with a
  diagnostic, which suspends the emulator.
\<close>
theorem decode_encode:
  "case i of
     OpFence im \<Rightarrow>
       if im = 0xFF then
         \<exists>line. rvdec_insn st (encode i)
           = Inr (insn_zero\<lparr>insn_ty := RV_INSN__FENCE, imm := 0xFF\<rparr>, st\<lparr>trace := trace st @ [Disasm line]\<rparr>)
       else
         \<exists>line. rvdec_insn st (encode i)
           = Inr (insn_zero\<lparr>insn_ty := RV_INSN__INVALID, imm := scast im\<rparr>,
               emit (Disasm line) (rvtrbk_diagn ''unrecognised synch. instruction'' st))
   | _ \<Rightarrow> \<exists>line. rvdec_insn st (encode i) = Inr (decoded i, st\<lparr>trace := trace st @ [Disasm line]\<rparr>)"
proof (cases i)
  case (OpFence im)
  then show ?thesis
    using decodes_encode [of "OpFence 0xFF" st] reject_fence [of im st]
    by (simp add: decodes_to_def emit_def del: encode.simps)
qed (use decodes_encode [of i st] in \<open>simp_all add: decodes_to_def emit_def del: encode.simps decoded.simps\<close>)

end
