(* ===== verification/GuestMemory.thy ===== *)
theory GuestMemory
  imports Machine IsaSpec
begin

text \<open>
  The emulator's memory as the byte-addressed memory of the reference machine: reading and writing
  through translated pointers refines \<open>xload\<close> and \<open>xstore\<close>.
\<close>

section \<open>Reference memory\<close>

lemma xload_Some_iff:
  "xload mm a n = Some bs \<longleftrightarrow> length bs = n \<and> (\<forall>i<n. mm (a + of_nat i) = Some (bs ! i))"
proof (induction n arbitrary: a bs)
  case 0
  then show ?case by auto
next
  case (Suc n)
  show ?case
  proof (cases bs)
    case Nil
    then show ?thesis by (simp split: option.splits)
  next
    case (Cons c cs)
    have "xload mm a (Suc n) = Some bs \<longleftrightarrow> mm a = Some c \<and> xload mm (a + 1) n = Some cs"
      by (auto simp: Cons split: option.splits)
    also have "\<dots> \<longleftrightarrow> length bs = Suc n \<and> (\<forall>i<Suc n. mm (a + of_nat i) = Some (bs ! i))"
      by (auto simp: Suc.IH Cons All_less_Suc2 add.assoc)
    finally show ?thesis .
  qed
qed

lemma xstore_apply:
  assumes "unat a + length bs \<le> 2 ^ 32"
  shows "xstore mm a bs x =
    (if unat a \<le> unat x \<and> unat x < unat a + length bs then Some (bs ! (unat x - unat a)) else mm x)"
  using assms
proof (induction bs arbitrary: a)
  case Nil
  then show ?case by auto
next
  case (Cons b bs)
  show ?case
  proof (cases "bs = []")
    case True
    then show ?thesis by (auto simp: word_unat_eq_iff)
  next
    case False
    then have lt: "unat a + 1 < 2 ^ 32" using Cons.prems by (cases bs) simp_all
    then have a1: "unat (a + 1) = unat a + 1" using unat_add_lem [of a 1] by simp
    show ?thesis
      using Cons.IH [of "a + 1"] Cons.prems
      by (auto simp: a1 word_unat_eq_iff nth_Cons')
  qed
qed

section \<open>Guest bytes\<close>

definition guest_byte :: "rvstate \<Rightarrow> u32 \<Rightarrow> u8 option" where
  "guest_byte st a = (case guest_read st a 1 of Inr [b] \<Rightarrow> Some b | _ \<Rightarrow> None)"

lemma guest_byte_Some: "guest_byte st a = Some b \<longleftrightarrow> guest_read st a 1 = Inr [b]"
  by (auto simp: guest_byte_def split: sum.splits list.splits)

lemma guest_byte_cong:
  "mem st' = mem st \<Longrightarrow> host st' = host st \<Longrightarrow> guest_byte st' = guest_byte st"
  by (rule ext) (simp add: guest_byte_def guest_read_def rvmem_at_def)

lemma access_okE:
  assumes "access_ok st a n"
  obtains r where "r \<in> set (load_regions (mem st))" "in_region r a n" "0 < n"
  using assms by (auto simp: access_ok_def list_ex_iff)

lemma access_ok_bound:
  assumes "layout_ok st" and "access_ok st a n"
  shows "unat a + n < 2 ^ 32"
  using assms(2)
proof (rule access_okE)
  fix r assume r: "r \<in> set (load_regions (mem st))" "in_region r a n"
  have "region_fits r" using assms(1) r(1) by (auto simp: layout_ok_def intro: guest_layout_fits)
  then show ?thesis using r(2) by (auto simp: region_fits_def in_region_def)
qed

lemma access_ok_translate:
  assumes "layout_ok st" and "access_ok st a n" and "i < n"
  shows "elf_vma_to_mem (mem st) (a + of_nat i) = elf_vma_to_mem (mem st) a + i"
    and "access_ok st (a + of_nat i) 1"
proof -
  obtain r where r: "r \<in> set (load_regions (mem st))" "in_region r a n"
    using assms(2) by (rule access_okE)
  show "elf_vma_to_mem (mem st) (a + of_nat i) = elf_vma_to_mem (mem st) a + i"
    unfolding elf_vma_to_mem_def
    using assms(1,3) r by (intro vma_to_mem_loop_span) (simp_all add: layout_ok_def)
  have "region_fits r" using assms(1) r(1) by (auto simp: layout_ok_def intro: guest_layout_fits)
  from in_region_offset(2) [OF this r(2) assms(3)] r(1) show "access_ok st (a + of_nat i) 1"
    by (auto simp: access_ok_def list_ex_iff)
qed

text \<open>An access inside a region reads the bytes of consecutive guest addresses.\<close>

lemma guest_read_xload:
  assumes "state_ok st" and "layout_ok st" and "access_ok st a n"
  shows "guest_read st a n = Inr bs \<longleftrightarrow> xload (guest_byte st) a n = Some bs"
proof -
  let ?p = "elf_vma_to_mem (mem st) a"
  have "0 < n" using assms(3) by (simp add: access_ok_def)
  obtain cs where "guest_read st a n = Inr cs" using access_ok_read [OF assms] by blast
  then have p: "?p \<noteq> 0" by (simp add: guest_read_eq_Inr)
  have "guest_byte st (a + of_nat i) = Some b \<longleftrightarrow> cells (host st) (?p + i) = Some b" if "i < n" for i b
    using access_ok_translate(1) [OF assms(2,3) that] p
    by (simp del: hread.simps add: guest_byte_Some guest_read_eq_Inr hread_eq_Inr)
  then show ?thesis
    using p by (auto simp: guest_read_eq_Inr hread_eq_Inr xload_Some_iff)
qed

text \<open>Outside every region there is no guest byte, whatever the host heap holds.\<close>

lemma guest_byte_outside:
  assumes "layout_ok st" and "\<not> access_ok st x 1"
  shows "guest_byte st x = None"
proof -
  have "elf_vma_to_mem (mem st) x = 0"
    unfolding elf_vma_to_mem_def using assms
    by (intro vma_to_mem_loop_miss) (auto simp: layout_ok_def guest_layout_def access_ok_def list_ex_iff)
  then show ?thesis by (simp add: guest_byte_def guest_read_def rvmem_at_def)
qed

lemma guest_write_mem: "guest_write st a bs = Inr st' \<Longrightarrow> mem st' = mem st"
  by (auto simp: guest_write_eq_Inr)

lemma guest_write_layout: "guest_write st a bs = Inr st' \<Longrightarrow> layout_ok st' = layout_ok st"
  by (simp add: layout_ok_def guest_write_mem)

lemma guest_write_access: "guest_write st a bs = Inr st' \<Longrightarrow> access_ok st' b n = access_ok st b n"
  by (simp add: access_ok_def guest_write_mem)

lemma guest_write_xstore:
  assumes ok: "state_ok st" "layout_ok st" and acc: "access_ok st a (length bs)"
    and w: "guest_write st a bs = Inr st'"
  shows "guest_byte st' = xstore (guest_byte st) a bs"
proof (rule ext)
  fix x
  have ok': "state_ok st'" "layout_ok st'" "access_ok st' a (length bs)"
    using state_ok_guest_write [OF w ok(1)] guest_write_layout [OF w] guest_write_access [OF w] ok acc
    by simp_all
  have bound: "unat a + length bs < 2 ^ 32" using ok(2) acc by (rule access_ok_bound)
  have "guest_read st' a (length bs) = Inr bs" using guest_bytes.read_written [OF w] .
  then have new: "\<forall>i<length bs. guest_byte st' (a + of_nat i) = Some (bs ! i)"
    using guest_read_xload [OF ok'] by (simp add: xload_Some_iff)
  show "guest_byte st' x = xstore (guest_byte st) a bs x"
  proof (cases "unat a \<le> unat x \<and> unat x < unat a + length bs")
    case True
    then have "x = a + of_nat (unat x - unat a)"
      by (simp add: word_unat_eq_iff unat_word_ariths unat_of_nat)
    with True new have "guest_byte st' x = Some (bs ! (unat x - unat a))"
      by (metis le_add_diff_inverse nat_add_left_cancel_less)
    with True bound show ?thesis by (simp add: xstore_apply)
  next
    case False
    have "guest_byte st' x = guest_byte st x"
    proof (cases "access_ok st x 1")
      case True
      with False ok acc have "guest_apart st a (length bs) x 1"
        by (auto simp: guest_apart_def ranges_apart_def)
      from guest_bytes.read_frame [OF w this] show ?thesis by (simp add: guest_byte_def)
    next
      case False
      then have "\<not> access_ok st' x 1" using guest_write_access [OF w] by simp
      with False guest_byte_outside ok(2) ok'(2) show ?thesis by simp
    qed
    with False bound show ?thesis by (auto simp: xstore_apply)
  qed
qed

lemma guest_write_total:
  assumes "state_ok st" and "layout_ok st" and "access_ok st a (length bs)"
  shows "\<exists>st'. guest_write st a bs = Inr st'"
proof -
  obtain cs where "guest_read st a (length bs) = Inr cs" using access_ok_read [OF assms] by blast
  from guest_bytes.write_total [OF this refl] show ?thesis .
qed

section \<open>Stores and loads\<close>

lemma load_stored:
  assumes "store_u32 a v st = Inr st'"
  shows "load_u32 st' a = Inr v"
  using guest_bytes.read_word_written [where n = 4 and w = v and a = a] assms
  by (simp add: load_u32_def store_u32_def take_bit_word_eq_self)

text \<open>
  C13: a word store inside a region succeeds, updates exactly the four guest bytes of the word as the
  byte memory of the reference machine does, and loading the word gives it back; the state stays well
  formed with the same regions.
\<close>
theorem store_load_word:
  assumes "state_ok st" and "layout_ok st" and "access_ok st a 4"
  shows "\<exists>st'. store_u32 a v st = Inr st' \<and> load_u32 st' a = Inr v
    \<and> guest_byte st' = xstore (guest_byte st) a (le_bytes 4 v) \<and> state_ok st' \<and> layout_ok st'"
proof -
  have acc: "access_ok st a (length (le_bytes 4 v))" using assms(3) by simp
  obtain st' where w: "guest_write st a (le_bytes 4 v) = Inr st'"
    using guest_write_total [OF assms(1,2) acc] by blast
  then have "store_u32 a v st = Inr st'" by (simp add: store_u32_def)
  with load_stored guest_write_xstore [OF assms(1,2) acc w] state_ok_guest_write [OF w assms(1)]
    guest_write_layout [OF w] assms(2) show ?thesis by blast
qed

theorem store_load_word_witness:
  "\<exists>st'. store_u32 0x1004 0xDEADBEEF small_state = Inr st' \<and> load_u32 st' 0x1004 = Inr 0xDEADBEEF"
proof -
  have "access_ok small_state 0x1004 4"
    by (simp add: small_state_def access_ok_def in_region_def)
  from store_load_word [OF small_state_ok this] show ?thesis by blast
qed

text \<open>
  \<open>rvmem_at\<close> checks only the first byte of an access.  A word load that starts in a region and runs
  over its end is not refused: when the block ends with the region, the host reads memory it never
  allocated, although the same address can be read as a byte.
\<close>

lemma load_runs_over:
  assumes "state_ok st" and "layout_ok st" and "r \<in> set (load_regions (mem st))" and "in_region r a 1"
    and "unat (vma_base r) + unat (sz_reserved r) < unat a + 4"
    and "\<not> live (host st) (mem_base r + unat (sz_reserved r))"
  shows "load_u32 st a = Inl (Undefined ''read outside an allocation'') \<and> (\<exists>b. load_u8 st a = Inr b)"
proof -
  let ?p = "elf_vma_to_mem (mem st) a" and ?k = "unat (vma_base r) + unat (sz_reserved r) - unat a"
  have acc: "access_ok st a 1" using assms(3,4) by (auto simp: access_ok_def list_ex_iff)
  obtain bs where bs: "guest_read st a 1 = Inr bs" using access_ok_read [OF assms(1,2) acc] by blast
  then have p0: "?p \<noteq> 0" by (simp add: guest_read_eq_Inr)
  have "?p = mem_base r + (unat a - unat (vma_base r))"
    unfolding elf_vma_to_mem_def using assms(2,3,4)
    by (intro vma_to_mem_loop_in_region) (simp_all add: layout_ok_def)
  then have "?p + ?k = mem_base r + unat (sz_reserved r)" using assms(4) by (auto simp: in_region_def)
  moreover have "?k < 4" using assms(5) by simp
  ultimately have "\<not> (\<forall>i<4. live (host st) (?p + i))" using assms(6) by metis
  then obtain e where "hread (host st) ?p 4 = Inl e"
    using hread_defined by (metis sum.exhaust)
  then have "load_u32 st a = Inl (Undefined ''read outside an allocation'')"
    using p0 hread_error by (fastforce simp: load_u32_def guest_read_def rvmem_at_def)
  with bs show ?thesis by (auto simp: load_u8_def)
qed

end
