(* ===== verification/Refinement.thy ===== *)
theory Refinement
  imports Emulator DecodeCorrect GuestMemory
begin

text \<open>
  The emulator refines the reference machine: one \<^verbatim>\<open>rvemu_step\<close> on the word of an RV32IM
  instruction does to the abstract machine what the manual says, outside the operand ranges where
  the C code's arithmetic departs from it.
\<close>

section \<open>Abstraction\<close>

definition reg_view :: "u32 list \<Rightarrow> regno \<Rightarrow> u32" where
  "reg_view rs r = (if r = 0 then 0 else rs ! unat r)"

definition abs_machine :: "rvstate \<Rightarrow> machine" where
  "abs_machine st = \<lparr>xregs = reg_view (regs st), xpc = pc st, xmem = guest_byte st\<rparr>"

lemma unat_regno: "unat (ucast (r :: regno) :: u8) = unat r"
  by (simp add: unsigned_ucast_eq take_bit_nat_eq_self_iff order.strict_trans2 [OF unsigned_less]
      nat_take_bit_eq [symmetric])

text \<open>\<open>good\<close>: a running, well-formed state that represents \<open>m\<close>; \<open>ready\<close>: in which \<open>x0\<close> was just cleared.\<close>

definition good :: "rvstate \<Rightarrow> machine \<Rightarrow> bool" where
  "good st m \<longleftrightarrow> state_ok st \<and> layout_ok st \<and> \<not> suspended st \<and> abs_machine st = m"

definition ready :: "rvstate \<Rightarrow> machine \<Rightarrow> bool" where
  "ready st m \<longleftrightarrow> good st m \<and> regs st ! 0 = 0"

lemma ready_reg: "ready st m \<Longrightarrow> rvmem_reg st (ucast r) = xget m r"
  by (auto simp: ready_def good_def rvmem_reg_def abs_machine_def xget_def reg_view_def unat_regno)

lemma good_pc: "good st m \<Longrightarrow> pc st = xpc m"
  by (auto simp: good_def abs_machine_def)

lemma good_mem: "good st m \<Longrightarrow> xmem m = guest_byte st"
  by (auto simp: good_def abs_machine_def)

lemma guest_byte_simps [simp]:
  "guest_byte (set_reg r v st) = guest_byte st" "guest_byte (st\<lparr>pc := t\<rparr>) = guest_byte st"
  "guest_byte (emit e st) = guest_byte st" "guest_byte (st\<lparr>regs := rs\<rparr>) = guest_byte st"
  "guest_byte (rvbkpt_check_insn i st) = guest_byte st"
  by (rule guest_byte_cong; simp add: set_reg_def emit_def rvbkpt_check_insn_def)+

lemma layout_ok_simps [simp]:
  "layout_ok (set_reg r v st) = layout_ok st" "layout_ok (st\<lparr>pc := t\<rparr>) = layout_ok st"
  "layout_ok (emit e st) = layout_ok st" "layout_ok (rvbkpt_check_insn i st) = layout_ok st"
  by (simp_all add: layout_ok_def set_reg_def emit_def rvbkpt_check_insn_def)

lemma good_pc_update: "good st m \<Longrightarrow> good (st\<lparr>pc := t\<rparr>) (m\<lparr>xpc := t\<rparr>)"
  by (auto simp: good_def abs_machine_def)

lemma reg_view_update:
  assumes "length rs = 32"
  shows "reg_view (rs[unat d := v]) = (if d = 0 then reg_view rs else (reg_view rs)(d := v))"
proof
  fix r :: regno
  have "unat d < length rs" using unsigned_less [of d] assms by simp
  then show "reg_view (rs[unat d := v]) r = (if d = 0 then reg_view rs else (reg_view rs)(d := v)) r"
    by (auto simp: reg_view_def nth_list_update word_unat_eq_iff)
qed

lemma good_regs: "good st m \<Longrightarrow> length (regs st) = 32"
  by (simp add: good_def state_ok_def regs_wf_def RISCV_REGCOUNT_def)

lemma abs_set_reg:
  "length (regs st) = 32 \<Longrightarrow> abs_machine (set_reg (ucast (d :: regno)) v st) = xset d v (abs_machine st)"
  by (simp add: abs_machine_def xset_def set_reg_def unat_regno reg_view_update)

lemma suspended_set_reg: "suspended (set_reg r v st) = suspended st"
  by (simp add: set_reg_def)

lemma good_set_reg: "good st m \<Longrightarrow> good (set_reg (ucast d) v st) (xset d v m)"
  using abs_set_reg [OF good_regs, of st m d v] by (auto simp: good_def suspended_set_reg)

lemma ready_before_dispatch:
  assumes "good st m"
  shows "ready (rvbkpt_check_insn i (emit e (set_reg 0 0 st))) m"
proof -
  have len: "length (regs st) = 32" using assms by (rule good_regs)
  then have "regs (rvbkpt_check_insn i (emit e (set_reg 0 0 st))) = (regs st)[0 := 0]"
    "pc (rvbkpt_check_insn i (emit e (set_reg 0 0 st))) = pc st"
    "suspended (rvbkpt_check_insn i (emit e (set_reg 0 0 st))) = suspended st"
    by (simp_all add: rvbkpt_check_insn_def emit_def set_reg_def)
  moreover have "reg_view ((regs st)[0 := 0]) = reg_view (regs st)"
    using reg_view_update [OF len, of 0 0] by simp
  ultimately show ?thesis
    using assms len by (auto simp: ready_def good_def abs_machine_def)
qed

section \<open>Ends of cases\<close>

definition exec_refines :: "machine \<Rightarrow> exec \<Rightarrow> bool" where
  "exec_refines m e \<longleftrightarrow> (\<exists>fl. e = Inr fl \<and> good (flow_end fl) m)"

lemma refines_fall: "good st m \<Longrightarrow> exec_refines (xnext m) (fall st)"
  using good_pc_update [of st m "pc st + 4"] good_pc [of st m]
  by (simp add: exec_refines_def fall_def xnext_def RISCV_INSNLEN_def)

lemma refines_jump: "good st m \<Longrightarrow> exec_refines (m\<lparr>xpc := t\<rparr>) (jump t st)"
  using good_pc_update [of st m t] by (simp add: exec_refines_def jump_def)

lemma refines_assign: "ready st m \<Longrightarrow> exec_refines (xnext (xset d v m)) (assign (ucast d) v st)"
  by (simp add: assign_def refines_fall good_set_reg ready_def)

section \<open>Instruction by instruction\<close>

text \<open>The operands on which the multiplication and division of the C code agree with the manual.\<close>

fun alu_agrees :: "rop \<Rightarrow> u32 \<Rightarrow> u32 \<Rightarrow> bool" where
  "alu_agrees MULH a b \<longleftrightarrow> 0 \<le> sint a \<and> 0 \<le> sint b"
| "alu_agrees MULHSU a b \<longleftrightarrow> 0 \<le> sint a"
| "alu_agrees DIV a b \<longleftrightarrow> b \<noteq> 0 \<and> \<not> (sint a = - (2 ^ 31) \<and> sint b = - 1)"
| "alu_agrees REM a b \<longleftrightarrow> b \<noteq> 0 \<and> \<not> (sint a = - (2 ^ 31) \<and> sint b = - 1)"
| "alu_agrees DIVU a b \<longleftrightarrow> b \<noteq> 0"
| "alu_agrees REMU a b \<longleftrightarrow> b \<noteq> 0"
| "alu_agrees _ a b \<longleftrightarrow> True"

lemma sint_nonneg: "0 \<le> sint (a :: u32) \<Longrightarrow> sint a = uint a \<and> uint a < 2 ^ 31"
proof -
  assume "0 \<le> sint a"
  then have "\<not> bit a 31" using bit_last_iff [of a] by simp
  then have "sint a = uint a"
    by (intro bit_eqI) (auto simp: bit_sint_iff bit_uint_iff min_def dest: bit_imp_le_length)
  with sint_lt [of a] show ?thesis by simp
qed

lemma mulhu_value:
  "(ucast (signed_drop_bit 32 (ucast a * ucast b :: u64)) :: u32) = of_int (uint (a :: u32) * uint (b :: u32) div 2 ^ 32)"
proof (rule bit_word_eqI)
  fix n assume "n < LENGTH(32)"
  then have n: "n < 32" by simp
  have w: "(ucast a * ucast b :: u64) = of_int (uint a * uint b)" by simp
  show "bit (ucast (signed_drop_bit 32 (ucast a * ucast b :: u64)) :: u32) n
      = bit (of_int (uint a * uint b div 2 ^ 32) :: u32) n"
    unfolding w using n
    by (simp only: bit_unsigned_iff bit_signed_drop_bit_iff bit_word_of_int_iff bit_drop_bit_eq
        drop_bit_eq_div [symmetric] o_def) auto
qed

lemmas exec_defs = dispatch_switch_def exec_arith_def exec_mem_def exec_branch_def exec_upper_def
  exec_env_def exec_m_def

lemma div_i32_agrees:
  "b \<noteq> 0 \<Longrightarrow> \<not> (sint a = - (2 ^ 31) \<and> sint b = - 1) \<Longrightarrow> div_i32 f a b = Inr (of_int (f (sint a) (sint b)))"
  by (simp only: div_i32_def if_False)

lemma div_u32_agrees: "b \<noteq> 0 \<Longrightarrow> div_u32 f a b = Inr (f a b)"
  by (simp add: div_u32_def)

lemma mul_i64_agrees:
  assumes "0 \<le> sint (a :: u32)" and "0 \<le> sint (b :: u32)"
  shows "mul_i64 (uint a) (uint b) = Inr (sint a * sint b)"
proof -
  have "uint a * uint b \<le> 2 ^ 31 * 2 ^ 31"
    using sint_nonneg [OF assms(1)] sint_nonneg [OF assms(2)] by (intro mult_mono) simp_all
  then have "uint a * uint b < 2 ^ 63" by simp
  moreover have "- (2 ^ 63) \<le> uint a * uint b"
    by (rule order.trans [of _ 0]) simp_all
  ultimately show ?thesis
    using sint_nonneg [OF assms(1)] sint_nonneg [OF assms(2)] by (simp add: mul_i64_def)
qed

lemma refines_OpR:
  assumes "ready st m" and "alu_agrees f (xget m s1) (xget m s2)"
  shows "exec_refines (xnext (xset d (alu f (xget m s1) (xget m s2)) m))
    (dispatch_switch env (decoded (OpR f d s1 s2)) st)"
proof (cases "f = MULHSU")
  case True
  have "uint (xget m s1) = sint (xget m s1)" using assms(2) True sint_nonneg by simp
  then show ?thesis
    using assms True by (simp add: exec_defs ready_reg refines_assign mulhu_value insn_zero_def)
next
  case False
  then show ?thesis
    using assms
    by (cases f) (simp_all add: exec_defs ready_reg truth_def refines_assign mulhu_value Let_def
        div_i32_agrees [simplified] div_u32_agrees mul_i64_agrees drop_bit_eq_div insn_zero_def)
qed

lemma refines_OpI:
  assumes "ready st m"
  shows "exec_refines (xnext (xset d (alui f (xget m s1) (scast im)) m))
    (dispatch_switch env (decoded (OpI f d s1 im)) st)"
  using assms by (cases f) (simp_all add: exec_defs ready_reg truth_def refines_assign insn_zero_def Let_def)

lemma shift_amount: "unat ((ucast (sh :: 5 word) OR push_bit 5 w) AND 0x1f :: u32) = unat sh"
proof -
  have "(ucast sh OR push_bit 5 w) AND 0x1f = take_bit 5 (ucast sh OR push_bit 5 w)"
    by (simp add: take_bit_eq_mask mask_eq_exp_minus_1)
  also have "\<dots> = ucast sh"
    by (rule bit_word_eqI) (auto simp: bit_simps dest: bit_imp_le_length)
  finally show ?thesis by (simp add: unsigned_ucast_eq take_bit_nat_eq_self unsigned_less [THEN order.strict_trans2])
qed

lemma refines_OpShift:
  assumes "ready st m"
  shows "exec_refines (xnext (xset d (shifter f (xget m s1) (unat sh)) m))
    (dispatch_switch env (decoded (OpShift f d s1 sh)) st)"
  using assms shift_amount [of sh 0] shift_amount [of sh 32]
  by (cases f) (simp_all add: exec_defs ready_reg refines_assign insn_zero_def Let_def)

lemma refines_OpLoad:
  assumes r: "ready st m" and acc: "access_ok st (xget m s1 + scast im) (load_size f)"
  shows "\<exists>bs. xload (xmem m) (xget m s1 + scast im) (load_size f) = Some bs
    \<and> exec_refines (xnext (xset d (load_value f bs) m)) (dispatch_switch env (decoded (OpLoad f d s1 im)) st)"
proof -
  have ok: "state_ok st" "layout_ok st" "good st m" using r by (simp_all add: ready_def good_def)
  obtain bs where rd: "guest_read st (xget m s1 + scast im) (load_size f) = Inr bs"
    using access_ok_read [OF ok(1,2) acc] by blast
  then have "xload (xmem m) (xget m s1 + scast im) (load_size f) = Some bs"
    using guest_read_xload [OF ok(1,2) acc] good_mem [OF ok(3)] by simp
  moreover have "exec_refines (xnext (xset d (load_value f bs) m))
      (dispatch_switch env (decoded (OpLoad f d s1 im)) st)"
    using r rd by (cases f) (simp_all add: exec_defs ready_reg refines_assign insn_zero_def load_defs)
  ultimately show ?thesis by blast
qed

lemma le_bytes_truncate:
  "le_bytes 1 (ucast (w :: u32) :: u8) = le_bytes 1 w" "le_bytes 2 (ucast (w :: u32) :: u16) = le_bytes 2 w"
proof -
  have low: "ucast (ucast w :: u8) = (ucast w :: u8)" "ucast (ucast w :: u16) = (ucast w :: u8)"
    by (rule bit_word_eqI, simp add: bit_simps)+
  have high: "(ucast (drop_bit 8 (ucast w :: u16)) :: u8) = ucast (drop_bit 8 w)"
    by (rule bit_word_eqI) (auto simp: bit_simps)
  from low high show "le_bytes 1 (ucast (w :: u32) :: u8) = le_bytes 1 w"
    "le_bytes 2 (ucast (w :: u32) :: u16) = le_bytes 2 w"
    by (simp_all add: numeral_eq_Suc)
qed

lemma refines_OpStore:
  assumes r: "ready st m" and acc: "access_ok st (xget m s1 + scast im) (store_size f)"
  shows "xload (xmem m) (xget m s1 + scast im) (store_size f) \<noteq> None
    \<and> exec_refines (xnext (m\<lparr>xmem := xstore (xmem m) (xget m s1 + scast im)
        (le_bytes (store_size f) (xget m s2))\<rparr>)) (dispatch_switch env (decoded (OpStore f s1 s2 im)) st)"
proof -
  let ?a = "xget m s1 + scast im" and ?bs = "le_bytes (store_size f) (xget m s2)"
  have ok: "state_ok st" "layout_ok st" "good st m" using r by (simp_all add: ready_def good_def)
  have acc': "access_ok st ?a (length ?bs)" using acc by simp
  obtain cs where "guest_read st ?a (store_size f) = Inr cs" using access_ok_read [OF ok(1,2) acc] by blast
  then have "xload (xmem m) ?a (store_size f) = Some cs"
    using guest_read_xload [OF ok(1,2) acc] good_mem [OF ok(3)] by simp
  moreover obtain st' where w: "guest_write st ?a ?bs = Inr st'"
    using guest_write_total [OF ok(1,2) acc'] by blast
  have "dispatch_switch env (decoded (OpStore f s1 s2 im)) st = fall st'"
    using r w by (cases f) (simp_all add: exec_defs ready_reg insn_zero_def store_defs le_bytes_truncate)
  moreover have "good st' (m\<lparr>xmem := xstore (xmem m) ?a ?bs\<rparr>)"
    using guest_write_xstore [OF ok(1,2) acc' w] state_ok_guest_write [OF w ok(1)] guest_write_layout [OF w]
      ok w by (auto simp: good_def abs_machine_def guest_write_eq_Inr)
  ultimately show ?thesis by (simp add: refines_fall)
qed

lemma refines_branch_if:
  "good st m \<Longrightarrow> exec_refines (if c then m\<lparr>xpc := xpc m + k\<rparr> else xnext m) (branch_if c k st)"
  using refines_jump [of st m "xpc m + k"] by (simp add: branch_if_def refines_fall good_pc)

lemma refines_OpBranch:
  assumes "ready st m"
  shows "exec_refines (if taken f (xget m s1) (xget m s2) then m\<lparr>xpc := xpc m + half_offset im\<rparr> else xnext m)
    (dispatch_switch env (decoded (OpBranch f s1 s2 im)) st)"
proof -
  have "dispatch_switch env (decoded (OpBranch f s1 s2 im)) st
      = branch_if (taken f (xget m s1) (xget m s2)) (half_offset im) st"
    using assms by (cases f) (simp_all add: exec_defs ready_reg insn_zero_def Let_def)
  then show ?thesis using assms by (simp only: refines_branch_if ready_def)
qed

lemma refines_upper:
  assumes "ready st m"
  shows "exec_refines (xnext (xset d (push_bit 12 (ucast imu)) m)) (dispatch_switch env (decoded (OpLui d imu)) st)"
    and "exec_refines (xnext (xset d (xpc m + push_bit 12 (ucast imu)) m))
      (dispatch_switch env (decoded (OpAuipc d imu)) st)"
  using assms good_pc [of st m]
  by (simp_all add: exec_defs refines_assign insn_zero_def Let_def ready_def)

lemma refines_jumps:
  assumes "ready st m"
  shows "exec_refines ((xset d (xpc m + 4) m)\<lparr>xpc := xpc m + half_offset imu\<rparr>)
      (dispatch_switch env (decoded (OpJal d imu)) st)"
    and "exec_refines ((xset d (xpc m + 4) m)\<lparr>xpc := (xget m s1 + scast im) AND NOT 1\<rparr>)
      (dispatch_switch env (decoded (OpJalr d s1 im)) st)"
proof -
  have g: "good st m" and pc: "pc st = xpc m" using assms good_pc by (simp_all add: ready_def)
  have "pc (set_reg (ucast d) v st) = pc st" for v by (simp add: set_reg_def)
  then show "exec_refines ((xset d (xpc m + 4) m)\<lparr>xpc := xpc m + half_offset imu\<rparr>)
      (dispatch_switch env (decoded (OpJal d imu)) st)"
    using refines_jump [OF good_set_reg [OF g, of d "xpc m + 4"], of "xpc m + half_offset imu"]
    by (simp add: exec_defs insn_zero_def Let_def RISCV_INSNLEN_def pc)
  show "exec_refines ((xset d (xpc m + 4) m)\<lparr>xpc := (xget m s1 + scast im) AND NOT 1\<rparr>)
      (dispatch_switch env (decoded (OpJalr d s1 im)) st)"
    using refines_jump [OF good_set_reg [OF g, of d "xpc m + 4"], of "(xget m s1 + scast im) AND NOT 1"]
    by (simp add: exec_defs insn_zero_def Let_def RISCV_INSNLEN_def pc ready_reg [OF assms])
qed

section \<open>One step\<close>

text \<open>
  The instruction's word lies in one region, its memory operand too, and its operands are ones on
  which the arithmetic agrees.  A fence suspends the emulator, \<^verbatim>\<open>EBREAK\<close> is ignored, and
  \<^verbatim>\<open>ECALL\<close> is answered as the theory \<open>Process\<close> describes; none of the three is a step of
  the machine on its own.
\<close>

fun operands_covered :: "rvstate \<Rightarrow> instr \<Rightarrow> bool" where
  "operands_covered st (OpR f d s1 s2) \<longleftrightarrow> alu_agrees f (xget (abs_machine st) s1) (xget (abs_machine st) s2)"
| "operands_covered st (OpLoad f d s1 im) \<longleftrightarrow>
     access_ok st (xget (abs_machine st) s1 + scast im) (load_size f)"
| "operands_covered st (OpStore f s1 s2 im) \<longleftrightarrow>
     access_ok st (xget (abs_machine st) s1 + scast im) (store_size f)"
| "operands_covered st (OpFence im) \<longleftrightarrow> False"
| "operands_covered st OpEcall \<longleftrightarrow> False"
| "operands_covered st OpEbreak \<longleftrightarrow> False"
| "operands_covered st _ \<longleftrightarrow> True"

text \<open>The instructions that only compute: no fence and no request to the environment.\<close>

fun computes :: "instr \<Rightarrow> bool" where
  "computes (OpFence im) \<longleftrightarrow> False"
| "computes OpEcall \<longleftrightarrow> False"
| "computes OpEbreak \<longleftrightarrow> False"
| "computes _ \<longleftrightarrow> True"

lemma computes_OpR: "computes (OpR f d s1 s2)"
  by simp

lemma covered_computes: "operands_covered st i \<Longrightarrow> computes i"
  by (cases i) simp_all

lemma computes_recognised: "computes i \<Longrightarrow> recognised i"
  by (cases i) simp_all

definition covered :: "rvstate \<Rightarrow> instr \<Rightarrow> bool" where
  "covered st i \<longleftrightarrow> access_ok st (pc st) 4 \<and> operands_covered st i"

lemma dispatch_refines:
  assumes "ready st m" and "m = abs_machine st0" and "mem st = mem st0" and "operands_covered st0 i"
  shows "\<exists>m'. isa_exec i m = Some m' \<and> exec_refines m' (dispatch_switch env (decoded i) st)"
proof (cases i)
  case (OpR f d s1 s2)
  then show ?thesis using refines_OpR [OF assms(1)] assms by simp
next
  case (OpI f d s1 im)
  then show ?thesis using refines_OpI [OF assms(1)] by simp
next
  case (OpShift f d s1 sh)
  then show ?thesis using refines_OpShift [OF assms(1)] by simp
next
  case (OpLoad f d s1 im)
  then have "access_ok st (xget m s1 + scast im) (load_size f)" using assms by (simp add: access_ok_def)
  from refines_OpLoad [OF assms(1) this, of d env] obtain bs where
    "xload (xmem m) (xget m s1 + scast im) (load_size f) = Some bs"
    "exec_refines (xnext (xset d (load_value f bs) m)) (dispatch_switch env (decoded (OpLoad f d s1 im)) st)"
    by blast
  then show ?thesis by (simp add: OpLoad)
next
  case (OpStore f s1 s2 im)
  then have "access_ok st (xget m s1 + scast im) (store_size f)" using assms by (simp add: access_ok_def)
  from refines_OpStore [OF assms(1) this] OpStore show ?thesis by (auto simp: Let_def)
next
  case (OpBranch f s1 s2 im)
  then show ?thesis using refines_OpBranch [OF assms(1)] by simp
next
  case (OpLui d im)
  then show ?thesis using refines_upper(1) [OF assms(1)] by simp
next
  case (OpAuipc d im)
  then show ?thesis using refines_upper(2) [OF assms(1)] by simp
next
  case (OpJal d im)
  then show ?thesis using refines_jumps(1) [OF assms(1)] by simp
next
  case (OpJalr d s1 im)
  then show ?thesis using refines_jumps(2) [OF assms(1)] by simp
qed (use assms(4) in simp_all)

lemma rvstate_fetch_cong:
  "mem st' = mem st \<Longrightarrow> host st' = host st \<Longrightarrow> pc st' = pc st \<Longrightarrow> rvstate_fetch st' = rvstate_fetch st"
  by (simp only: rvstate_fetch_def)

lemma decoded_valid: "insn_ty (decoded i) \<noteq> RV_INSN__INVALID"
proof (cases i)
  case (OpR f d s1 s2) then show ?thesis by (cases f) simp_all
next
  case (OpI f d s1 im) then show ?thesis by (cases f) simp_all
next
  case (OpShift f d s1 sh) then show ?thesis by (cases f) simp_all
next
  case (OpLoad f d s1 im) then show ?thesis by (cases f) simp_all
next
  case (OpStore f s1 s2 im) then show ?thesis by (cases f) simp_all
next
  case (OpBranch f s1 s2 im) then show ?thesis by (cases f) simp_all
qed simp_all

text \<open>
  A step on the word of an integer instruction, in terms of the switch on the decoded instruction.
\<close>

lemma step_of_encoding:
  assumes g: "good st (abs_machine st)" and f: "rvstate_fetch st = Inr (encode i)" and i: "computes i"
  obtains s line where "ready s (abs_machine st)" "mem s = mem st" "fregs s = fregs st"
    "trace s = trace st @ [Disasm line]" "rvemu_step env st = rbind (dispatch_switch env (decoded i) s) (\<lambda>fl. Inr (True, flow_end fl))"
proof -
  let ?z = "set_reg 0 0 st"
  have f: "rvstate_fetch ?z = Inr (encode i)"
    using f rvstate_fetch_cong [of ?z st] by (simp add: set_reg_def)
  obtain line where d: "rvdec_insn ?z (encode i) = Inr (decoded i, emit (Disasm line) ?z)"
    using decodes_encode [OF computes_recognised [OF i], of ?z] by (auto simp: decodes_to_def)
  let ?s = "rvbkpt_check_insn (decoded i) (emit (Disasm line) ?z)"
  have "\<not> suspended st" using g by (simp add: good_def)
  then have "rvemu_step env st = rbind (dispatch_switch env (decoded i) ?s) (\<lambda>fl. Inr (True, flow_end fl))"
    by (simp add: rvemu_step_def f d rvemu_dispatch_def rbind_assoc decoded_valid)
  moreover have "mem ?s = mem st" "fregs ?s = fregs st" "trace ?s = trace st @ [Disasm line]"
    by (simp_all add: rvbkpt_check_insn_def emit_def set_reg_def)
  ultimately show ?thesis using ready_before_dispatch [OF g] by (intro that)
qed

lemma step_refines:
  assumes g: "good st (abs_machine st)" and f: "rvstate_fetch st = Inr (encode i)" and c: "operands_covered st i"
  shows "\<exists>st'. rvemu_step env st = Inr (True, st') \<and> isa_exec i (abs_machine st) = Some (abs_machine st')
    \<and> good st' (abs_machine st')"
proof -
  obtain s where r: "ready s (abs_machine st)" "mem s = mem st"
    and step: "rvemu_step env st = rbind (dispatch_switch env (decoded i) s) (\<lambda>fl. Inr (True, flow_end fl))"
    using step_of_encoding [OF g f covered_computes [OF c]] by blast
  from dispatch_refines [OF r(1) refl r(2) c, of env] obtain m' fl where
    "isa_exec i (abs_machine st) = Some m'" and fl: "dispatch_switch env (decoded i) s = Inr fl" "good (flow_end fl) m'"
    by (auto simp: exec_refines_def)
  moreover have "abs_machine (flow_end fl) = m'" using fl(2) by (simp add: good_def)
  ultimately show ?thesis by (simp add: step)
qed

text \<open>An integer instruction leaves the regions and the float registers alone and prints nothing else.\<close>

lemma dispatch_integer_frame:
  assumes "dispatch_switch env (decoded i) st = Inr fl" and "computes i"
  shows "mem (flow_end fl) = mem st \<and> fregs (flow_end fl) = fregs st \<and> trace (flow_end fl) = trace st"
proof -
  note simps = exec_defs insn_zero_def assign_def fall_def jump_def branch_if_def set_reg_def rbind_eq_Inr
    store_defs guest_write_eq_Inr Let_def
  show ?thesis
  proof (cases i)
    case (OpR f d s1 s2)
    with assms show ?thesis by (cases f) (auto simp: simps)
  next
    case (OpI f d s1 im)
    with assms show ?thesis by (cases f) (auto simp: simps)
  next
    case (OpShift f d s1 sh)
    with assms show ?thesis by (cases f) (auto simp: simps)
  next
    case (OpLoad f d s1 im)
    with assms show ?thesis by (cases f) (auto simp: simps)
  next
    case (OpStore f s1 s2 im)
    with assms show ?thesis by (cases f) (auto simp: simps)
  next
    case (OpBranch f s1 s2 im)
    with assms show ?thesis by (cases f) (auto simp: simps split: if_splits)
  qed (use assms in \<open>auto simp: simps\<close>)
qed

lemma step_frame:
  assumes "good st (abs_machine st)" and "rvstate_fetch st = Inr (encode i)"
    and "rvemu_step env st = Inr (True, st')" and c: "computes i"
  shows "mem st' = mem st \<and> fregs st' = fregs st \<and> (\<exists>line. trace st' = trace st @ [Disasm line])"
proof -
  obtain s line where s: "mem s = mem st" "fregs s = fregs st" "trace s = trace st @ [Disasm line]"
    "rvemu_step env st = rbind (dispatch_switch env (decoded i) s) (\<lambda>fl. Inr (True, flow_end fl))"
    using step_of_encoding [OF assms(1,2) c] by metis
  from assms(3) obtain fl where "dispatch_switch env (decoded i) s = Inr fl" "st' = flow_end fl"
    by (auto simp: s(4) rbind_eq_Inr)
  with dispatch_integer_frame [OF this(1) c] s(1-3) show ?thesis by simp
qed

section \<open>Runs\<close>

definition xfetch :: "machine \<Rightarrow> u32 option" where
  "xfetch m = map_option le_word (xload (xmem m) (xpc m) 4)"

text \<open>The instructions the reference machine executes from \<open>m\<close>, and those the emulator executes.\<close>

inductive isa_run :: "machine \<Rightarrow> instr list \<Rightarrow> machine \<Rightarrow> bool" where
  isa_stop: "isa_run m [] m"
| isa_go: "xfetch m = Some (encode i) \<Longrightarrow> isa_exec i m = Some m' \<Longrightarrow> isa_run m' is m'' \<Longrightarrow>
    isa_run m (i # is) m''"

inductive emu_run :: "host_env \<Rightarrow> rvstate \<Rightarrow> instr list \<Rightarrow> rvstate \<Rightarrow> bool" for env where
  emu_stop: "emu_run env st [] st"
| emu_go: "rvstate_fetch st = Inr (encode i) \<Longrightarrow> covered st i \<Longrightarrow> rvemu_step env st = Inr (True, st') \<Longrightarrow>
    emu_run env st' is st'' \<Longrightarrow> emu_run env st (i # is) st''"

inductive_cases emu_run_ConsE: "emu_run env st (i # is) st'"
inductive_simps isa_run_Nil [simp]: "isa_run m [] m'"
inductive_simps isa_run_Cons: "isa_run m (i # is) m'"

lemma fetch_refines:
  assumes "good st (abs_machine st)" and "access_ok st (pc st) 4" and "rvstate_fetch st = Inr w"
  shows "xfetch (abs_machine st) = Some w"
proof -
  obtain bs where bs: "guest_read st (pc st) 4 = Inr bs" "w = le_word bs"
    using assms(3) by (auto simp: rvstate_fetch_def Let_def rbind_eq_Inr guest_read_eq_Inr split: if_splits)
  have "state_ok st" "layout_ok st" using assms(1) by (simp_all add: good_def)
  then have "xload (guest_byte st) (pc st) 4 = Some bs"
    using guest_read_xload assms(2) bs(1) by blast
  then show ?thesis by (simp add: xfetch_def abs_machine_def bs(2))
qed

lemma run_refines:
  "emu_run env st is st' \<Longrightarrow> good st (abs_machine st) \<Longrightarrow>
     isa_run (abs_machine st) is (abs_machine st') \<and> good st' (abs_machine st')"
proof (induction rule: emu_run.induct)
  case (emu_stop st)
  then show ?case by simp
next
  case (emu_go st i st' "is" st'')
  have acc: "access_ok st (pc st) 4" and c: "operands_covered st i" using emu_go.hyps(2) by (simp_all add: covered_def)
  obtain st1 where s: "rvemu_step env st = Inr (True, st1)" "isa_exec i (abs_machine st) = Some (abs_machine st1)"
    "good st1 (abs_machine st1)" using step_refines [OF emu_go.prems emu_go.hyps(1) c] by blast
  with emu_go.hyps(3) have "st1 = st'" by simp
  with s emu_go.IH fetch_refines [OF emu_go.prems acc emu_go.hyps(1)] show ?case
    by (auto simp: isa_run_Cons)
qed

text \<open>The small machine with \<open>ADDI t0, zero, 7\<close> at its program counter.\<close>

definition prog_byte :: "nat \<Rightarrow> u8" where
  "prog_byte a = (if a = 16 then 0x93 else if a = 17 then 0x02 else if a = 18 then 0x70 else 0)"

definition prog_state :: rvstate where
  "prog_state = small_state\<lparr>host := (host small_state)\<lparr>cells :=
     (\<lambda>a. if 16 \<le> a \<and> a < 80 then Some (prog_byte a) else None)\<rparr>\<rparr>"

lemma prog_state_ok: "state_ok prog_state" "layout_ok prog_state" "\<not> suspended prog_state"
  "access_ok prog_state (pc prog_state) 4"
  by (simp_all add: prog_state_def small_state_def blank_state_def state_ok_def layout_ok_def regs_wf_def
      fregs_wf_def RISCV_REGCOUNT_def context_zero_def heap_ok_def live_def regions_backed_def
      region_backed_def guest_layout_def region_fits_def access_ok_def in_region_def)

lemma hread_4: "hread h p 4 = hread h p (Suc (Suc (Suc (Suc 0))))"
  by (simp add: numeral_eq_Suc)

lemma prog_fetch: "rvstate_fetch prog_state = Inr (encode (OpI ADDI 5 0 7))"
  by (simp add: rvstate_fetch_def prog_state_def small_state_def context_zero_def
      elf_vma_to_mem_def vma_outside_def hread_4 prog_byte_def i_format_def)

text \<open>
  C3: one step of the emulator refines the manual, on the operands \<open>operands_covered\<close> admits.
  When the word at the program counter encodes an RV32I or M instruction other than
  \<^verbatim>\<open>FENCE\<close>, \<^verbatim>\<open>ECALL\<close> and \<^verbatim>\<open>EBREAK\<close>, the step succeeds and the machine it
  leaves is the one the manual prescribes, in every register, in the program counter and in every
  byte of memory, provided that a load or store lies in one region, a division has a nonzero divisor
  and does not overflow, \<open>MULH\<close> has no negative operand and \<open>MULHSU\<close> no negative first operand.
\<close>
theorem rvemu_step_refines:
  assumes "state_ok st" and "layout_ok st" and "\<not> suspended st"
    and "rvstate_fetch st = Inr (encode i)" and "operands_covered st i"
  shows "\<exists>st'. rvemu_step env st = Inr (True, st')
    \<and> isa_exec i (abs_machine st) = Some (abs_machine st')
    \<and> state_ok st' \<and> layout_ok st' \<and> \<not> suspended st'"
proof -
  have "good st (abs_machine st)" using assms by (simp add: good_def)
  from step_refines [OF this assms(4,5), of env] show ?thesis by (auto simp: good_def)
qed

theorem rvemu_step_refines_witness:
  "\<exists>st'. rvemu_step demo_env prog_state = Inr (True, st')
    \<and> isa_exec (OpI ADDI 5 0 7) (abs_machine prog_state) = Some (abs_machine st')
    \<and> xget (abs_machine st') 5 = 7 \<and> xpc (abs_machine st') = 0x1004"
proof -
  have "pc prog_state = 0x1000" by (simp add: prog_state_def small_state_def)
  then have "isa_exec (OpI ADDI 5 0 7) (abs_machine prog_state)
      = Some ((abs_machine prog_state)\<lparr>xregs := (xregs (abs_machine prog_state))(5 := 7), xpc := 0x1004\<rparr>)"
    by (simp add: xget_def xnext_def xset_def abs_machine_def)
  with rvemu_step_refines [OF prog_state_ok(1-3) prog_fetch, of demo_env] obtain st' where
    "rvemu_step demo_env prog_state = Inr (True, st')"
    "isa_exec (OpI ADDI 5 0 7) (abs_machine prog_state) = Some (abs_machine st')"
    "abs_machine st' = (abs_machine prog_state)\<lparr>xregs := (xregs (abs_machine prog_state))(5 := 7), xpc := 0x1004\<rparr>"
    by auto
  then show ?thesis by (intro exI [of _ st']) (simp add: xget_def)
qed

text \<open>
  C6: a run of the emulator over covered instructions is a run of the manual's machine over the same
  instructions, fetched from the same memory, however many there are.
\<close>
theorem emu_run_refines:
  assumes "emu_run env st is st'" and "state_ok st" and "layout_ok st" and "\<not> suspended st"
  shows "isa_run (abs_machine st) is (abs_machine st')"
proof -
  have "good st (abs_machine st)" using assms by (simp add: good_def)
  with run_refines [OF assms(1)] show ?thesis by simp
qed

theorem emu_run_refines_witness:
  "\<exists>st'. emu_run demo_env prog_state [OpI ADDI 5 0 7] st'
    \<and> isa_run (abs_machine prog_state) [OpI ADDI 5 0 7] (abs_machine st')"
proof -
  have "good prog_state (abs_machine prog_state)" using prog_state_ok by (simp add: good_def)
  from step_refines [OF this prog_fetch, of demo_env] obtain st' where
    "rvemu_step demo_env prog_state = Inr (True, st')" by auto
  then have "emu_run demo_env prog_state [OpI ADDI 5 0 7] st'"
    using prog_fetch prog_state_ok(4) by (auto simp: covered_def intro: emu_go emu_stop)
  with emu_run_refines [OF this prog_state_ok(1-3)] show ?thesis by blast
qed

end
