(* ===== verification/Program.thy ===== *)
theory Program
  imports Emulator Refinement
begin

text \<open>
  Properties of whole runs: what every instruction keeps, the state the main program starts from,
  fuel, and how a run ends.
\<close>

lemma loop_body_suspended: "suspended st \<Longrightarrow> loop_body env input st = Inr (False, input, st)"
  by (simp add: loop_body_def rvemu_step_def)

lemma main_loop_suspended: "suspended st \<Longrightarrow> main_loop (Suc n) env input st = Some (Inr st)"
  by (simp add: loop_body_suspended)

section \<open>Invariants of one instruction and of a run\<close>

text \<open>
  C8: executing any instruction that returns keeps the state well formed and its regions backed by
  host memory of their own, leaves the map from guest addresses to host memory as it was, and only
  appends to the output.
\<close>
theorem rvemu_dispatch_invariant:
  assumes "rvemu_dispatch env i st = Inr st'" and "state_ok st"
  shows "state_ok st' \<and> address_map st' = address_map st \<and> (\<exists>es. trace st' = trace st @ es)"
  using state_ok.keeps_dispatch [OF assms(2,1)] fixed_map.keeps_dispatch [OF refl assms(1)]
    trace_grows.keeps_dispatch [OF _ assms(1), of "trace st"] by simp

theorem rvemu_dispatch_invariant_witness:
  "\<exists>st'. rvemu_dispatch demo_env (insn_zero\<lparr>insn_ty := RV_INSN__ADDI\<rparr>) small_state = Inr st' \<and> state_ok st'"
proof -
  obtain st' where "rvemu_dispatch demo_env (insn_zero\<lparr>insn_ty := RV_INSN__ADDI\<rparr>) small_state = Inr st'"
    by (simp add: rvemu_dispatch_def dispatch_switch_def exec_arith_def assign_def fall_def)
  with rvemu_dispatch_invariant [OF this small_state_ok(1)] show ?thesis by blast
qed

lemma address_map_eq_translate:
  "address_map st' = address_map st \<Longrightarrow> elf_vma_to_mem (mem st') = elf_vma_to_mem (mem st)"
  by (rule ext) (rule address_map_translation)

text \<open>
  C9: the same for the main loop, breakpoint prompt included: whenever it returns, after any number of
  iterations and whatever the user typed, the state is well formed, guest addresses translate as they
  did at the start, regions overlap only if they did at the start, and nothing that was output is lost.
  (A fault ends the process and leaves no state.)
\<close>
theorem main_loop_invariant:
  assumes "main_loop fuel env input st = Some (Inr st')" and "state_ok st"
  shows "state_ok st' \<and> elf_vma_to_mem (mem st') = elf_vma_to_mem (mem st)
    \<and> layout_ok st' = layout_ok st \<and> (\<exists>es. trace st' = trace st @ es)"
proof -
  have "address_map st' = address_map st" using run_fixed_map.keeps_loop [OF refl assms(1)] .
  from address_map_eq_translate [OF this] address_map_layout [OF this]
    run_state_ok.keeps_loop [OF assms(2,1)] run_trace_grows.keeps_loop [OF _ assms(1), of "trace st"]
  show ?thesis by simp
qed

section \<open>Fuel\<close>

text \<open>The fuel only bounds how far the model looks: with more of it the loop gives the same result.\<close>

lemma main_loop_more_fuel:
  assumes "main_loop n env input st = Some r" and "n \<le> m"
  shows "main_loop m env input st = Some r"
  using assms
proof (induction n arbitrary: m input st)
  case (Suc n)
  then obtain k where m: "m = Suc k" by (cases m) auto
  with Suc show ?case by (auto split: sum.splits if_splits)
qed simp

section \<open>The end of a run\<close>

lemma bkpt_prompt_suspended:
  "suspended st \<Longrightarrow> \<exists>rest st'. bkpt_prompt env input st = Inr (rest, st') \<and> suspended st'"
proof (induction "length input" arbitrary: input st rule: less_induct)
  case less
  let ?st = "emit (Stdout ''> '') st"
  have s: "suspended ?st" "suspended (rvtrbk_print_dump ?st)" "suspended (emit e ?st)" for e
    using less.prems by (simp_all add: emit_def rvtrbk_print_dump_def)
  show ?case
  proof (cases "input = []")
    case True
    with s show ?thesis by (subst bkpt_prompt.simps) simp
  next
    case False
    obtain cmd more where c: "read_cmd input = (cmd, more)" by fastforce
    then have len: "length more < length input" using read_cmd_shorter [OF False] by simp
    have step: "rvemu_step env ?st = Inr (False, ?st)" using s by (simp add: rvemu_step_def)
    from less.hyps [OF len s(1)] less.hyps [OF len s(2)] less.hyps [OF len s(3)] s(1) show ?thesis
      unfolding bkpt_prompt.simps [of env input st] Let_def c prod.case step
      by (simp add: False)
  qed
qed

lemma decode_ecall:
  "rvdec_insn st 0x73 = Inr (insn_zero\<lparr>insn_ty := RV_INSN__ECALL\<rparr>, emit (Disasm ''ECALL'') st)"
  by (simp add: rvdec_insn_def Let_def opcond_defs rvdec_Ity_def rvdec_Ity__5_def field_defs bits_def
      i_imm__11_0_def SIGNEXT_def rvasm_emit_def rvasm_line_def INSN_def repr_insn_map_def insn_zero_def)

lemma step_ecall_exit:
  assumes "\<not> suspended st" and "rvstate_fetch st = Inr 0x73" and "regs st ! 17 = RV_SYSCALL__EXIT"
  obtains st' where "rvemu_step env st = Inr (True, st')" "suspended st'"
    "trace st' = trace st @ [Disasm ''ECALL'', ExitNotice (regs st ! 10)]"
proof -
  let ?i = "insn_zero\<lparr>insn_ty := RV_INSN__ECALL\<rparr>"
  let ?st = "rvbkpt_check_insn ?i (emit (Disasm ''ECALL'') (set_reg 0 0 st))"
  have f: "rvstate_fetch (set_reg 0 0 st) = Inr 0x73"
    using assms(2) rvstate_fetch_cong [of "set_reg 0 0 st" st] by (simp add: set_reg_def)
  have r: "regs ?st ! 17 = RV_SYSCALL__EXIT" "regs ?st ! 10 = regs st ! 10"
    using assms(3) by (simp_all add: rvbkpt_check_insn_def emit_def set_reg_def)
  define st2 where "st2 = (emit (ExitNotice (regs st ! 10)) ?st)\<lparr>suspended := True\<rparr>"
  have "rvemu_dispatch_syscall env ?st = Inr st2"
    using r by (simp add: rvemu_dispatch_syscall_def syscall_number_defs rvsysc_exit_def REGARGPn_def st2_def)
  then have "rvemu_step env st = Inr (True, st2\<lparr>pc := pc st2 + 4\<rparr>)"
    using assms(1) by (simp add: rvemu_step_def f decode_ecall rvemu_dispatch_def dispatch_switch_def exec_arith_def
        exec_mem_def exec_branch_def exec_upper_def exec_env_def fall_def RISCV_INSNLEN_def Let_def)
  then show ?thesis
    by (rule that) (simp_all add: st2_def emit_def rvbkpt_check_insn_def set_reg_def)
qed

lemma exit_stops:
  assumes "\<not> suspended st" and "rvstate_fetch st = Inr 0x73" and "regs st ! 17 = RV_SYSCALL__EXIT"
  shows "\<exists>st' es. main_loop (Suc (Suc n)) env input st = Some (Inr st') \<and> suspended st'
    \<and> trace st' = trace st @ [Disasm ''ECALL'', ExitNotice (regs st ! 10)] @ es"
proof -
  obtain st1 where st1: "rvemu_step env st = Inr (True, st1)" "suspended st1"
    "trace st1 = trace st @ [Disasm ''ECALL'', ExitNotice (regs st ! 10)]"
    using step_ecall_exit [OF assms, of env] by blast
  have "\<exists>rest st'. loop_body env input st = Inr (True, rest, st') \<and> suspended st'"
  proof (cases "rvbkpt_poll st1")
    case (Pair ev st2)
    then have s2: "suspended st2" using st1(2) by (auto simp: rvbkpt_poll_def split: prod.splits)
    then obtain rest st3 where "bkpt_user_loop env e input st2 = Inr (rest, st3)" "suspended st3" for e
      using bkpt_prompt_suspended [of "emit (Stdout (''Breakpoint hit at 0x'' @ hex_u32 (pc st2))) st2" env input]
      by (auto simp: bkpt_user_loop_def emit_def)
    with s2 Pair st1(1) show ?thesis by (cases ev) (simp_all add: loop_body_def)
  qed
  then obtain rest st' where body: "loop_body env input st = Inr (True, rest, st')" "suspended st'" by blast
  have "\<exists>es. trace st' = trace st1 @ es"
  proof -
    let ?P = "\<lambda>s. \<exists>es. trace s = trace st1 @ es"
    obtain ev st2 where poll: "rvbkpt_poll st1 = (ev, st2)" by fastforce
    have "?P st2" using run_trace_grows.keeps_poll [of st1 "trace st1"] poll by simp
    show ?thesis
    proof (cases ev)
      case None
      with body(1) st1(1) poll have "st' = st2" by (simp add: loop_body_def)
      with \<open>?P st2\<close> show ?thesis by simp
    next
      case (Some e)
      then have "bkpt_user_loop env e input st2 = Inr (rest, st')"
        using body(1) st1(1) poll by (auto simp: loop_body_def rbind_eq_Inr)
      then have "bkpt_prompt env input (emit (Stdout (''Breakpoint hit at 0x'' @ hex_u32 (pc st2))) st2)
          = Inr (rest, st')" by (simp only: bkpt_user_loop_def)
      from run_trace_grows.keeps_prompt [OF run_trace_grows.keeps_trace(1) [OF \<open>?P st2\<close>] this]
      show ?thesis .
    qed
  qed
  moreover have "main_loop (Suc (Suc n)) env input st = Some (Inr st')"
    using body by (simp add: loop_body_suspended)
  ultimately show ?thesis using body(2) st1(3) by fastforce
qed

text \<open>
  C10: a program that calls \<open>exit\<close> ends the run: when the next instruction is \<open>ecall\<close> with 93 in
  \<open>a7\<close>, two more iterations of the main loop are enough, whatever the breakpoints and the rest of the
  input; the emulator is suspended and has printed the exit code of \<open>a0\<close> right after the instruction.
\<close>
theorem exit_ends_run:
  assumes "\<not> suspended st" and "rvstate_fetch st = Inr 0x73" and "regs st ! 17 = RV_SYSCALL__EXIT"
  shows "\<exists>st' es. main_loop (Suc (Suc n)) env input st = Some (Inr st') \<and> suspended st'
    \<and> trace st' = trace st @ [Disasm ''ECALL'', ExitNotice (regs st ! 10)] @ es"
  using assms by (rule exit_stops)

text \<open>The small machine with \<open>ecall\<close> at its program counter, about to exit with code 5.\<close>

definition exit_state :: rvstate where
  "exit_state = small_state\<lparr>regs := (replicate 32 0)[10 := 5, 17 := 93],
     host := (host small_state)\<lparr>cells := (\<lambda>a. if a = 16 then Some 0x73 else if 16 < a \<and> a < 80 then Some 0 else None)\<rparr>\<rparr>"

lemma exit_state_runs:
  "\<not> suspended exit_state" "regs exit_state ! 17 = RV_SYSCALL__EXIT" "regs exit_state ! 10 = 5"
  "trace exit_state = []" "rvstate_fetch exit_state = Inr 0x73" "state_ok exit_state" "layout_ok exit_state"
proof -
  show "\<not> suspended exit_state" "regs exit_state ! 17 = RV_SYSCALL__EXIT" "regs exit_state ! 10 = 5" "trace exit_state = []"
    by (simp_all add: exit_state_def small_state_def blank_state_def RV_SYSCALL__EXIT_def)
  show "rvstate_fetch exit_state = Inr 0x73"
    by (simp add: rvstate_fetch_def exit_state_def small_state_def context_zero_def elf_vma_to_mem_def
        vma_outside_def hread_4)
  show "state_ok exit_state" "layout_ok exit_state"
    by (simp_all add: exit_state_def small_state_def blank_state_def state_ok_def layout_ok_def regs_wf_def
        fregs_wf_def RISCV_REGCOUNT_def context_zero_def heap_ok_def live_def regions_backed_def
        region_backed_def guest_layout_def region_fits_def)
qed

theorem exit_ends_run_witness:
  "\<exists>st' es. main_loop 2 demo_env ''x'' exit_state = Some (Inr st') \<and> suspended st'
    \<and> trace st' = [Disasm ''ECALL'', ExitNotice 5] @ es"
  using exit_ends_run [OF exit_state_runs(1,5,2), of 0 demo_env "''x''"]
  by (simp add: numeral_2_eq_2 exit_state_runs)

theorem main_loop_invariant_witness:
  "\<exists>st' es. main_loop 2 demo_env ''x'' exit_state = Some (Inr st') \<and> suspended st' \<and> state_ok st' \<and> layout_ok st'
    \<and> elf_vma_to_mem (mem st') 0x1000 = 16 \<and> trace st' = Disasm ''ECALL'' # es"
proof -
  obtain st' es where st': "main_loop 2 demo_env ''x'' exit_state = Some (Inr st')" "suspended st'"
    "trace st' = Disasm ''ECALL'' # es"
    using exit_stops [OF exit_state_runs(1,5,2), of 0 demo_env "''x''"]
    by (auto simp: numeral_2_eq_2 exit_state_runs)
  have "elf_vma_to_mem (mem exit_state) 0x1000 = 16"
    by (simp add: exit_state_def small_state_def context_zero_def elf_vma_to_mem_def vma_outside_def)
  with main_loop_invariant [OF st'(1) exit_state_runs(6)] st' exit_state_runs(7) show ?thesis by simp
qed

section \<open>The breakpoint prompt\<close>

text \<open>What \<open>n\<close> commands \<open>s\<close> do: each is preceded by the prompt and executes one instruction.\<close>

fun prompt_steps :: "host_env \<Rightarrow> nat \<Rightarrow> rvstate \<Rightarrow> rvstate res" where
  "prompt_steps env 0 st = Inr st"
| "prompt_steps env (Suc n) st =
     rbind (rvemu_step env (emit (Stdout ''> '') st)) (\<lambda>(_, st). prompt_steps env n st)"

lemma read_line:
  assumes "newline \<notin> set l" and "CHR 0x00 \<notin> set l" and "length l < 31"
  shows "read_cmd (l @ newline # rest) = (map tolower l, rest)"
proof -
  have f: "newline \<notin> set l \<Longrightarrow> length l < n \<Longrightarrow> fgets n (l @ newline # rest) = (l @ [newline], rest)" for n l
  proof (induction l arbitrary: n)
    case Nil
    then show ?case by (cases n) simp_all
  next
    case (Cons c l)
    then show ?case by (cases n) auto
  qed
  have "takeWhile (\<lambda>c. c \<noteq> newline \<and> c \<noteq> CHR 0x00) (l @ [newline]) = l"
    using assms(1,2) by (induction l) auto
  with f [OF assms(1,3)] show ?thesis by (simp add: read_cmd_def)
qed

lemma read_command:
  "read_cmd (CHR ''s'' # newline # rest) = (''s'', rest)" "read_cmd (CHR ''c'' # newline # rest) = (''c'', rest)"
proof -
  have "tolower (CHR ''s'') = CHR ''s''" "tolower (CHR ''c'') = CHR ''c''" by (simp_all add: tolower_def)
  then show "read_cmd (CHR ''s'' # newline # rest) = (''s'', rest)"
    "read_cmd (CHR ''c'' # newline # rest) = (''c'', rest)"
    using read_line [of "''s''" rest] read_line [of "''c''" rest] by (simp_all add: newline_def)
qed

text \<open>
  C22: at the prompt, \<open>n\<close> lines \<open>s\<close> and a line \<open>c\<close> execute exactly \<open>n\<close> instructions, one after each
  prompt, and give control back to the main loop with the rest of the input unread; an instruction that
  stops the process stops it here too.
\<close>
theorem prompt_single_steps:
  "bkpt_prompt env (concat (replicate n [CHR ''s'', newline]) @ [CHR ''c'', newline] @ rest) st =
     rbind (prompt_steps env n st) (\<lambda>st. Inr (rest, emit (Stdout ''> '') st))"
proof (induction n arbitrary: st)
  case 0
  then show ?case by (subst bkpt_prompt.simps) (simp add: read_command)
next
  case (Suc n)
  have "bkpt_prompt env (concat (replicate (Suc n) [CHR ''s'', newline]) @ [CHR ''c'', newline] @ rest) st =
      rbind (rvemu_step env (emit (Stdout ''> '') st)) (\<lambda>(_, st).
        bkpt_prompt env (concat (replicate n [CHR ''s'', newline]) @ [CHR ''c'', newline] @ rest) st)"
    by (subst bkpt_prompt.simps) (simp add: read_command)
  also have "\<dots> = rbind (prompt_steps env (Suc n) st) (\<lambda>st. Inr (rest, emit (Stdout ''> '') st))"
    by (simp only: Suc.IH prompt_steps.simps rbind_assoc case_prod_unfold)
  finally show ?case .
qed

section \<open>Start-up\<close>

text \<open>A later heap: the earlier blocks, and the gaps between them, are as they were.\<close>

definition later_heap :: "hheap \<Rightarrow> hheap \<Rightarrow> bool" where
  "later_heap h h' \<longleftrightarrow> heap_ok h' \<and> next_addr h \<le> next_addr h'
     \<and> (\<forall>a<next_addr h. cells h' a = cells h a)"

lemma later_heap_refl: "heap_ok h \<Longrightarrow> later_heap h h"
  by (simp add: later_heap_def)

lemma later_heap_calloc:
  assumes "later_heap h h1" and "calloc n h1 = Some (p, h2)"
  shows "later_heap h h2"
proof -
  have "heap_ok h2" using assms heap.alloc_ok by (auto simp: later_heap_def)
  with assms show ?thesis by (auto simp: later_heap_def calloc_def split: if_splits)
qed

lemma later_heap_live: "later_heap h h' \<Longrightarrow> a < next_addr h \<Longrightarrow> live h' a = live h a"
  by (simp add: later_heap_def live_def)

lemma later_heap_backed:
  assumes "later_heap h h'" and "heap_ok h" and "regions_backed h rs"
  shows "regions_backed h' rs"
proof -
  have "live h' a" if "live h a" for a
    using that assms(2) later_heap_live [OF assms(1)] by (auto simp: heap_ok_def)
  with assms(3) show ?thesis by (auto simp: regions_backed_def region_backed_def list_all_iff)
qed

text \<open>What a successful start-up did.\<close>

lemma main_initE:
  assumes "main_init files opens args h = Inr st" and "heap_ok h"
  obtains bytes h1 ctx h2 d h3 where
    "Option.bind (input_file args) files = Some bytes" "heap_ok h1" "elf_init bytes h1 = Inr (ctx, h2)"
    "bp ctx \<noteq> 0" "heap_ok h2 \<Longrightarrow> later_heap h2 h3"
    "st = \<lparr>disasm = d, fregs = replicate 32 0, regs = (replicate 32 0)[2 := sp ctx],
       bkpt_ev_arr = entry_bkpt # replicate 15 bkpt_zero, mem = ctx, pc = entry_point ctx,
       suspended = False, host = h3, trace = []\<rparr>"
proof -
  from assms(1) obtain bytes p h1 ctx h2 st1 st2 where
    b: "Option.bind (input_file args) files = Some bytes" and c: "calloc (length bytes) h = Some (p, h1)"
    and e: "elf_init bytes h1 = Inr (ctx, h2)" "bp ctx \<noteq> 0" and i: "rvstate_init ctx h2 = Inr st1"
    and d: "st2 = st1 \<or> (\<exists>q h3 pa. calloc 16 (host st1) = Some (q, h3) \<and> st2 = st1\<lparr>disasm := Some pa, host := h3\<rparr>)"
    and st: "st = rvbkpt_add entry_bkpt st2"
    by (auto simp: main_init_def rvasm_init_def Let_def rbind_eq_Inr split: option.splits if_splits) blast+
  obtain q h3 where q: "calloc 1176 h2 = Some (q, h3)"
    and st1: "st1 = \<lparr>disasm = None, fregs = replicate 32 0, regs = (replicate RISCV_REGCOUNT 0)[2 := sp ctx],
         bkpt_ev_arr = replicate MAX_BKPT bkpt_zero, mem = ctx, pc = entry_point ctx,
         suspended = False, host = h3, trace = []\<rparr>"
    using i by (auto simp: rvstate_init_def rbind_eq_Inr)
  have "later_heap h2 (host st2)" if "heap_ok h2"
    using d later_heap_calloc [OF later_heap_refl [OF that] q] later_heap_calloc by (auto simp: st1)
  moreover have "heap_ok h1" using heap.alloc_ok [OF assms(2) c] .
  moreover have "st = \<lparr>disasm = disasm st2, fregs = replicate 32 0, regs = (replicate 32 0)[2 := sp ctx],
       bkpt_ev_arr = entry_bkpt # replicate 15 bkpt_zero, mem = ctx, pc = entry_point ctx,
       suspended = False, host = host st2, trace = []\<rparr>"
    using d by (auto simp: st st1 rvbkpt_add_def MAX_BKPT_def RISCV_REGCOUNT_def numeral_eq_Suc bkpt_zero_def)
  ultimately show ?thesis using b e that by blast
qed

text \<open>The stack \<open>elf_init\<close> adds last, in a block of its own that ends where the stack ends.\<close>

lemma elf_init_stack:
  assumes "elf_init bytes h = Inr (ctx, h')" and "heap_ok h" and "bp ctx \<noteq> 0"
  obtains rs stack where "load_regions ctx = rs @ [stack]" "entry_point ctx = e_entry (ehdr_of bytes)"
    "vma_base stack = bp ctx" "sz_reserved stack = 0x100000" "sp ctx = bp ctx + 0xFFFFF"
    "heap_ok h'" "mem_base stack \<noteq> 0 \<Longrightarrow>
      \<not> live h' (mem_base stack + 0x100000) \<and> mem_base stack + 0x100000 < next_addr h'"
  using assms(1,2)
proof (cases rule: elf_initE)
  case (refused p)
  then show ?thesis using assms(3) by (simp add: context_zero_def)
next
  case (loaded bss h1 rs h2 p h3)
  have "load_inv ([], h1)" and "image_inv bytes (ehdr_of bytes) ([], h1)"
    using loaded(4) by (simp_all add: load_inv_def image_inv_def regions_backed_def)
  from load_segments_inv [OF loaded(5) this] have h3: "heap_ok h3"
    using heap.alloc_ok loaded(6) by (auto simp: load_inv_def)
  have c: "(ctx, h') = add_heap_stack bss (e_entry (ehdr_of bytes)) (rs, h3)"
    using loaded(7) assms(3) by (simp add: context_zero_def split: if_splits)
  obtain hb h4 where hp: "calloc_unchecked PROG_HEAP_SIZE h3 = (hb, h4)" by fastforce
  obtain sb h5 where sk: "calloc_unchecked PROG_STACK_SIZE h4 = (sb, h5)" by fastforce
  have ok: "heap_ok h''" if "calloc_unchecked n g = (b, h'')" "heap_ok g" for n g b h''
    using that heap.alloc_ok by (auto simp: calloc_unchecked_def split: option.splits)
  define sr where "sr = \<lparr>vma_base = fst bss + snd bss + of_nat PROG_HEAP_SIZE, mem_base = sb, sz_alloc = 0,
    sz_reserved = of_nat PROG_STACK_SIZE, tag = Some REGION_TAG_STACK\<rparr>"
  have h4: "heap_ok h4" using ok hp h3 by blast
  have "h' = h5" using c by (simp add: add_heap_stack_def hp sk Let_def)
  moreover have "\<not> live h5 (sb + PROG_STACK_SIZE) \<and> sb + PROG_STACK_SIZE < next_addr h5" if "sb \<noteq> 0"
  proof -
    have s: "calloc PROG_STACK_SIZE h4 = Some (sb, h5)"
      using sk that by (auto simp: calloc_unchecked_def split: option.splits)
    with heap.alloc_end [OF h4 s] show ?thesis by (auto simp: calloc_def split: if_splits)
  qed
  moreover define hr where "hr = \<lparr>vma_base = fst bss + snd bss, mem_base = hb, sz_alloc = 0,
    sz_reserved = of_nat PROG_HEAP_SIZE, tag = Some REGION_TAG_HEAP\<rparr>"
  have ctx: "load_regions ctx = (rs @ [hr]) @ [sr]" "entry_point ctx = e_entry (ehdr_of bytes)"
    "vma_base sr = bp ctx" "sp ctx = bp ctx + sz_reserved sr - 1"
    using c by (simp_all add: add_heap_stack_def hp sk Let_def sr_def hr_def)
  have "sz_reserved sr = 0x100000" "mem_base sr = sb"
    by (simp_all add: sr_def PROG_STACK_SIZE_def)
  ultimately show ?thesis
    using ok [OF sk h4] by (intro that [OF ctx(1-3)]) (simp_all add: ctx(4) PROG_STACK_SIZE_def)
qed

lemma check_event_idle: "check_event p i bkpt_zero = bkpt_zero"
  by (simp add: check_event_def bkpt_zero_def)

lemma poll_loop_idle: "poll_loop (replicate n bkpt_zero) k = (None, replicate n bkpt_zero)"
  by (induction n arbitrary: k) (simp_all add: bkpt_zero_def)

lemma check_entry_bkpt: "check_event p i entry_bkpt = entry_bkpt\<lparr>triggered := (p = 0x10954)\<rparr>"
  by (simp add: check_event_def entry_bkpt_def bkpt_zero_def pc_match_def insn_zero_def zero_e_insn_def)

text \<open>The state the main program starts with is well formed, if the heap and the stack were allocated.\<close>

lemma main_init_state_ok:
  assumes "main_init files opens args h = Inr st" and "heap_ok h"
    and "\<forall>r\<in>set (load_regions (mem st)). sz_reserved r \<noteq> 0 \<longrightarrow> mem_base r \<noteq> 0"
  shows "state_ok st \<and> \<not> suspended st"
  using assms(1,2)
proof (cases rule: main_initE)
  case (1 bytes h1 ctx h2 d h3)
  from elf_init_stack [OF 1(3,2,4)] have e: "heap_ok h2" by blast
  from elf_init_regions_backed [OF 1(3,2)] assms(3) have "regions_backed h2 (load_regions ctx)"
    by (simp add: 1(6))
  with 1(5) e have "regions_backed h3 (load_regions ctx)" "heap_ok h3"
    using later_heap_backed by (auto simp: later_heap_def)
  then show ?thesis
    by (simp add: 1(6) state_ok_def regs_wf_def fregs_wf_def RISCV_REGCOUNT_def MAX_BKPT_def)
qed

text \<open>
  C12: what the main program starts the emulator with, when every allocation succeeded: a well-formed
  state that runs, the program counter at the entry point of the file, every register zero but the
  stack pointer, no output, and one breakpoint; it stops at 0x10954 whatever the entry point is.
\<close>
theorem main_init_ok:
  assumes "main_init files opens args h = Inr st" and "heap_ok h"
    and "\<forall>r\<in>set (load_regions (mem st)). sz_reserved r \<noteq> 0 \<longrightarrow> mem_base r \<noteq> 0"
  shows "state_ok st \<and> \<not> suspended st \<and> trace st = [] \<and> regs st = (replicate 32 0)[2 := sp (mem st)]
    \<and> (\<exists>bytes. Option.bind (input_file args) files = Some bytes \<and> pc st = e_entry (ehdr_of bytes))
    \<and> fst (rvbkpt_poll (rvbkpt_check_insn i (st\<lparr>pc := p\<rparr>))) = (if p = 0x10954 then Some 0 else None)"
  using assms(1,2)
proof (cases rule: main_initE)
  case (1 bytes h1 ctx h2 d h3)
  from elf_init_stack [OF 1(3,2,4)] have e: "entry_point ctx = e_entry (ehdr_of bytes)" by blast
  have "fst (rvbkpt_poll (rvbkpt_check_insn i (st\<lparr>pc := p\<rparr>))) = (if p = 0x10954 then Some 0 else None)"
    by (simp add: 1(6) rvbkpt_poll_def rvbkpt_check_insn_def check_entry_bkpt check_event_idle poll_loop_idle)
      (simp add: entry_bkpt_def bkpt_zero_def)
  with main_init_state_ok [OF assms] show ?thesis using 1(1) e by (simp add: 1(6))
qed

text \<open>
  C36: the stack pointer the emulator starts with points at the last byte of the stack, so the first
  word a program reads at \<open>sp\<close> lies outside the stack's block: undefined behaviour in the host, while
  the byte at \<open>sp\<close> can be read.
\<close>
theorem initial_stack_top:
  assumes "main_init files opens args h = Inr st" and "heap_ok h"
    and "\<forall>r\<in>set (load_regions (mem st)). sz_reserved r \<noteq> 0 \<longrightarrow> mem_base r \<noteq> 0" and "layout_ok st"
  shows "load_u32 st (regs st ! 2) = Inl (Undefined ''read outside an allocation'')
    \<and> (\<exists>b. load_u8 st (regs st ! 2) = Inr b)"
  using assms(1,2)
proof (cases rule: main_initE)
  case (1 bytes h1 ctx h2 d h3)
  from elf_init_stack [OF 1(3,2,4)] obtain rs stack where ctx: "load_regions ctx = rs @ [stack]"
    "vma_base stack = bp ctx" "sz_reserved stack = 0x100000" "sp ctx = bp ctx + 0xFFFFF" "heap_ok h2"
    "mem_base stack \<noteq> 0 \<Longrightarrow> \<not> live h2 (mem_base stack + 0x100000) \<and> mem_base stack + 0x100000 < next_addr h2"
    by metis
  have stack: "stack \<in> set (load_regions (mem st))" by (simp add: 1(6) ctx(1))
  then have "mem_base stack \<noteq> 0" using assms(3) ctx(3) by force
  with ctx(6) have "\<not> live h3 (mem_base stack + 0x100000)"
    using later_heap_live [OF 1(5) [OF ctx(5)]] by blast
  then have gap: "\<not> live (host st) (mem_base stack + unat (sz_reserved stack))"
    by (simp add: 1(6) ctx(3))
  have ok: "state_ok st" using main_init_state_ok [OF assms(1-3)] by blast
  have "region_fits stack" using assms(4) stack by (auto simp: layout_ok_def intro: guest_layout_fits)
  then have "unat (bp ctx) + 0x100000 < 2 ^ 32" by (simp add: region_fits_def ctx(2,3))
  then have sp: "unat (sp ctx) = unat (bp ctx) + 0xFFFFF"
    by (simp add: ctx(4) unat_word_ariths)
  then have "in_region stack (sp ctx) 1" by (simp add: in_region_def ctx(2,3))
  from load_runs_over [OF ok assms(4) stack this _ gap] sp show ?thesis
    by (simp add: 1(6) ctx(2,3))
qed

section \<open>The example program, from its file to its exit code\<close>

definition demo_args :: arguments where
  "demo_args = \<lparr>input_file = Some ''demo'', is_disasm = False, disasm_path = None\<rparr>"

text \<open>The address space of the example when the file was read into the first block of the heap.\<close>

definition demo_space :: elf_context where
  "demo_space = \<lparr>load_regions =
      [\<lparr>vma_base = 0x1000, mem_base = 376, sz_alloc = 0, sz_reserved = 16, tag = Some ''LOAD''\<rparr>,
       \<lparr>vma_base = 0x2010, mem_base = 520, sz_alloc = 0, sz_reserved = 0x100000, tag = Some ''HEAP''\<rparr>,
       \<lparr>vma_base = 0x102010, mem_base = 1049112, sz_alloc = 0, sz_reserved = 0x100000, tag = Some ''STACK''\<rparr>],
     entry_point = 0x1000, bp = 0x102010, sp = 0x20200F\<rparr>"

lemma demo_elf_init_next:
  "\<exists>h'. elf_init demo_elf \<lparr>cells = c, next_addr = 216, limit = 16777216\<rparr> = Inr (demo_space, h')
     \<and> next_addr h' = 2097704 \<and> limit h' = 16777216"
  by (simp add: elf_init_def demo_length sizeof_ehdr_def demo_accepted demo_find_bss halloc_def calloc_def)
    (simp add: demo_ehdr_of demo_load [unfolded demo_ehdr_of, simplified] load_segment_def demo_phdr_fields
      demo_length file_slice_def halloc_def calloc_def demo_code_def add_heap_stack_def
      calloc_unchecked_def PROG_HEAP_SIZE_def PROG_STACK_SIZE_def demo_space_def
      REGION_TAG_HEAP_def REGION_TAG_STACK_def)

lemma demo_main_init:
  "\<exists>st. main_init (\<lambda>_. Some demo_elf) opens demo_args demo_host = Inr st \<and> mem st = demo_space"
proof -
  obtain h' where h': "elf_init demo_elf
      \<lparr>cells = (\<lambda>a. if 16 \<le> a \<and> a < 200 then Some 0 else None), next_addr = 216, limit = 16777216\<rparr>
      = Inr (demo_space, h')" "next_addr h' = 2097704" "limit h' = 16777216"
    using demo_elf_init_next by blast
  have "calloc 184 demo_host = Some (16,
      \<lparr>cells = (\<lambda>a. if 16 \<le> a \<and> a < 200 then Some 0 else None), next_addr = 216, limit = 16777216\<rparr>)"
    by (auto simp: calloc_def demo_host_def heap_init_def)
  with h' show ?thesis
    by (simp add: main_init_def demo_args_def demo_length halloc_def rvstate_init_def calloc_def)
      (simp add: demo_space_def rvbkpt_add_def)
qed

lemma demo_host_ok: "heap_ok demo_host"
  by (simp add: demo_host_def heap_ok_init)

lemma demo_space_mapped: "\<forall>r\<in>set (load_regions demo_space). sz_reserved r \<noteq> 0 \<longrightarrow> mem_base r \<noteq> 0"
  by (simp add: demo_space_def)

theorem main_init_ok_witness:
  "\<exists>st. main_init (\<lambda>_. Some demo_elf) (\<lambda>_. True) demo_args demo_host = Inr st \<and> state_ok st \<and> pc st = 0x1000"
proof -
  obtain st where st: "main_init (\<lambda>_. Some demo_elf) (\<lambda>_. True) demo_args demo_host = Inr st" "mem st = demo_space"
    using demo_main_init by blast
  from main_init_ok [OF st(1) demo_host_ok] demo_space_mapped st show ?thesis
    by (simp add: demo_args_def demo_ehdr_of)
qed

theorem initial_stack_top_witness:
  "\<exists>st. main_init (\<lambda>_. Some demo_elf) (\<lambda>_. True) demo_args demo_host = Inr st
     \<and> load_u32 st (regs st ! 2) = Inl (Undefined ''read outside an allocation'')"
proof -
  obtain st where st: "main_init (\<lambda>_. Some demo_elf) (\<lambda>_. True) demo_args demo_host = Inr st" "mem st = demo_space"
    using demo_main_init by blast
  have "layout_ok st"
    by (simp add: layout_ok_def st(2) demo_space_def guest_layout_def region_fits_def vmas_apart_def ranges_apart_def)
  from initial_stack_top [OF st(1) demo_host_ok _ this] demo_space_mapped st show ?thesis by simp
qed

end
