(* ===== verification/FloatRefinement.thy ===== *)
theory FloatRefinement
  imports Refinement
begin

text \<open>
  The part of the F and D extensions that the emulator executes as the manual says: loads, stores,
  moves between the register files and conversions between the two precisions, with their encoding
  and effect as a reference and the refinement of one step.
\<close>

section \<open>The reference\<close>

datatype finstr =
    FLW regno regno "12 word" | FLD regno regno "12 word"
  | FSW regno regno "12 word" | FSD regno regno "12 word"
  | FMV_X_W regno regno | FMV_W_X regno regno
  | FCVT_S_D regno regno | FCVT_D_S regno regno

text \<open>The conversions round to nearest (rounding mode 0).\<close>

fun fencode :: "finstr \<Rightarrow> u32" where
  "fencode (FLW d s1 im) = i_format 0x07 d 2 s1 im"
| "fencode (FLD d s1 im) = i_format 0x07 d 3 s1 im"
| "fencode (FSW s1 s2 im) = s_format 0x27 2 s1 s2 im"
| "fencode (FSD s1 s2 im) = s_format 0x27 3 s1 s2 im"
| "fencode (FMV_X_W d s) = r_format 0x53 d 0 s 0 0x70"
| "fencode (FMV_W_X d s) = r_format 0x53 d 0 s 0 0x78"
| "fencode (FCVT_S_D d s) = r_format 0x53 d 0 s 1 0x20"
| "fencode (FCVT_D_S d s) = r_format 0x53 d 0 s 0 0x21"

text \<open>
  A machine with 32 float registers of 64 bits.  A single-precision value is boxed: its upper half
  is all ones, and a register that is not so boxed reads as the canonical NaN.
\<close>

type_synonym fmachine = "machine \<times> (regno \<Rightarrow> u64)"

definition box :: "u32 \<Rightarrow> u64" where
  "box w = push_bit 32 (mask 32) OR ucast w"

definition unbox :: "u64 \<Rightarrow> u32" where
  "unbox v = (if drop_bit 32 v = mask 32 then ucast v else 0x7FC00000)"

definition widen :: "u32 \<Rightarrow> u64" where
  "widen w = of_nat (fconvert binary32 binary64 (\<lambda>_. 0x7FF8000000000000) (unat w))"

definition narrow :: "u64 \<Rightarrow> u32" where
  "narrow v = of_nat (fconvert binary64 binary32 (\<lambda>_. 0x7FC00000) (unat v))"

fun fexec :: "finstr \<Rightarrow> fmachine \<Rightarrow> fmachine option" where
  "fexec (FLW d s1 im) (m, F) =
     map_option (\<lambda>bs. (xnext m, F(d := box (le_word bs)))) (xload (xmem m) (xget m s1 + scast im) 4)"
| "fexec (FLD d s1 im) (m, F) =
     map_option (\<lambda>bs. (xnext m, F(d := le_word bs))) (xload (xmem m) (xget m s1 + scast im) 8)"
| "fexec (FSW s1 s2 im) (m, F) = (let a = xget m s1 + scast im in
     if xload (xmem m) a 4 = None then None
     else Some (xnext (m\<lparr>xmem := xstore (xmem m) a (le_bytes 4 (F s2))\<rparr>), F))"
| "fexec (FSD s1 s2 im) (m, F) = (let a = xget m s1 + scast im in
     if xload (xmem m) a 8 = None then None
     else Some (xnext (m\<lparr>xmem := xstore (xmem m) a (le_bytes 8 (F s2))\<rparr>), F))"
| "fexec (FMV_X_W d s) (m, F) = Some (xnext (xset d (ucast (F s)) m), F)"
| "fexec (FMV_W_X d s) (m, F) = Some (xnext m, F(d := box (xget m s)))"
| "fexec (FCVT_S_D d s) (m, F) = Some (xnext m, F(d := box (narrow (F s))))"
| "fexec (FCVT_D_S d s) (m, F) = Some (xnext m, F(d := widen (unbox (F s))))"

section \<open>Decoding\<close>

fun fdecoded :: "finstr \<Rightarrow> insn_t" where
  "fdecoded (FLW d s1 im) = insn_zero\<lparr>insn_ty := EXT_FD RV_INSN__FLx, rd := ucast d, rs1 := ucast s1,
     funct := 2, imm := scast im\<rparr>"
| "fdecoded (FLD d s1 im) = insn_zero\<lparr>insn_ty := EXT_FD RV_INSN__FLx, rd := ucast d, rs1 := ucast s1,
     funct := 3, imm := scast im\<rparr>"
| "fdecoded (FSW s1 s2 im) = insn_zero\<lparr>insn_ty := EXT_FD RV_INSN__FSx, rs1 := ucast s1, rs2 := ucast s2,
     funct := 2, imm := scast im\<rparr>"
| "fdecoded (FSD s1 s2 im) = insn_zero\<lparr>insn_ty := EXT_FD RV_INSN__FSx, rs1 := ucast s1, rs2 := ucast s2,
     funct := 3, imm := scast im\<rparr>"
| "fdecoded (FMV_X_W d s) = insn_zero\<lparr>insn_ty := EXT_FD RV_INSN__FMV_X_W, rd := ucast d, rs1 := ucast s,
     funct := 0x380\<rparr>"
| "fdecoded (FMV_W_X d s) = insn_zero\<lparr>insn_ty := EXT_FD RV_INSN__FMV_W_X, rd := ucast d, rs1 := ucast s,
     funct := 0x3C0\<rparr>"
| "fdecoded (FCVT_S_D d s) = insn_zero\<lparr>insn_ty := EXT_FD RV_INSN__FCVT_S_D, rd := ucast d, rs1 := ucast s,
     rs2 := 1, funct := 0x100\<rparr>"
| "fdecoded (FCVT_D_S d s) = insn_zero\<lparr>insn_ty := EXT_FD RV_INSN__FCVT_D_S, rd := ucast d, rs1 := ucast s,
     funct := 0x108\<rparr>"

lemma fdecodes_fencode: "decodes_to st (fdecoded i) (rvdec_insn st (fencode i))"
  by (cases i; simp add: decode_defs signext_simps RISCV_FLTFUNC_SINGLE_def RISCV_FLTFUNC_DOUBLE_def
        del: rvdec_finish_make; rule decodes_to_finish [OF refl])
    (simp_all add: csr_argspec_def insn_zero_def)

section \<open>Abstraction\<close>

definition float_view :: "rvstate \<Rightarrow> regno \<Rightarrow> u64" where
  "float_view st r = fregs st ! unat r"

definition abs_fmachine :: "rvstate \<Rightarrow> fmachine" where
  "abs_fmachine st = (abs_machine st, float_view st)"

lemma float_view_cong: "fregs st' = fregs st \<Longrightarrow> float_view st' = float_view st"
  by (rule ext) (simp add: float_view_def)

lemma freg_view: "rvmem_freg st (ucast r) = float_view st r"
  by (simp add: rvmem_freg_def float_view_def unat_regno)

lemma float_view_set_freg:
  assumes "state_ok st"
  shows "float_view (set_freg (ucast d) v st) = (float_view st)(d := v)"
proof
  fix r :: regno
  have "unat d < length (fregs st)"
    using unsigned_less [of d] assms by (simp add: state_ok_def fregs_wf_def)
  then show "float_view (set_freg (ucast d) v st) r = ((float_view st)(d := v)) r"
    by (auto simp: float_view_def set_freg_def unat_regno nth_list_update word_unat_eq_iff)
qed

lemma good_set_freg: "good st m \<Longrightarrow> good (set_freg r v st) m"
proof -
  have "guest_byte (set_freg r v st) = guest_byte st"
    by (rule guest_byte_cong) (simp_all add: set_freg_def)
  moreover have "regs (set_freg r v st) = regs st" "pc (set_freg r v st) = pc st"
    "layout_ok (set_freg r v st) = layout_ok st" "suspended (set_freg r v st) = suspended st"
    by (simp_all add: set_freg_def layout_ok_def)
  ultimately show "good st m \<Longrightarrow> good (set_freg r v st) m"
    by (simp add: good_def abs_machine_def)
qed

text \<open>The end of a case in a state that represents the machine and the float registers.\<close>

definition fexec_refines :: "fmachine \<Rightarrow> exec \<Rightarrow> bool" where
  "fexec_refines mF e \<longleftrightarrow> (\<exists>fl. e = Inr fl \<and> good (flow_end fl) (fst mF) \<and> float_view (flow_end fl) = snd mF)"

lemma frefines_fall: "good st m \<Longrightarrow> F = float_view st \<Longrightarrow> fexec_refines (xnext m, F) (fall st)"
  using refines_fall [of st m] float_view_cong [of "st\<lparr>pc := pc st + 4\<rparr>" st]
  by (simp add: fexec_refines_def exec_refines_def fall_def RISCV_INSNLEN_def)

lemma frefines_fassign:
  assumes "good st m"
  shows "fexec_refines (xnext m, (float_view st)(d := v)) (fassign (ucast d) v st)"
proof -
  have "state_ok st" using assms by (simp add: good_def)
  from frefines_fall [OF good_set_freg [OF assms] float_view_set_freg [OF this, symmetric]] show ?thesis
    by (simp add: fassign_def)
qed

lemma frefines_assign:
  assumes "good st m"
  shows "fexec_refines (xnext (xset d v m), float_view st) (assign (ucast d) v st)"
  unfolding assign_def
  by (rule frefines_fall [OF good_set_reg [OF assms]], rule float_view_cong [symmetric]) (simp add: set_reg_def)

section \<open>Boxing and the conversions\<close>

lemma saturate_box: "rvfloat_nanbox_saturate w = box w"
  by (simp add: rvfloat_nanbox_saturate_def box_def mask_eq_exp_minus_1 or.commute)

lemma unpack_low: "(ucast (rvfloat_nanbox_unpack v) :: u32) = ucast v"
proof -
  have "(v AND 0xffffffff) = take_bit 32 v" by (simp add: take_bit_eq_mask mask_eq_exp_minus_1)
  then show ?thesis
    unfolding rvfloat_nanbox_unpack_def by (simp only:) (rule bit_word_eqI, auto simp: bit_simps)
qed

lemma fconvert_not_nan:
  "fdecode F b \<noteq> FNaN \<Longrightarrow> fconvert F G nan b = fconvert F G nan' b"
  by (cases "fdecode F b") (simp_all add: fconvert_def)

lemma widen_read:
  assumes "drop_bit 32 v = mask 32" and "fdecode binary32 (unat (ucast v :: u32)) \<noteq> FNaN"
  shows "f32_to_f64 env (rvfloat_as_f32 (ucast (rvfloat_nanbox_unpack v))) = widen (unbox v)"
  using assms(1) fconvert_not_nan [OF assms(2), of binary64 "nan64 env" "\<lambda>_. 0x7FF8000000000000"]
  by (simp add: f32_to_f64_def widen_def unbox_def rvfloat_as_f32_def unpack_low)

lemma narrow_read:
  "fdecode binary64 (unat v) \<noteq> FNaN \<Longrightarrow> f64_to_f32 env v = narrow v"
  using fconvert_not_nan [of binary64 "unat v" binary32 "nan32 env" "\<lambda>_. 0x7FC00000"]
  by (simp add: f64_to_f32_def narrow_def)

lemma le_bytes_low: "le_bytes 4 (ucast (v :: u64) :: u32) = le_bytes 4 v"
proof -
  have "(ucast (drop_bit k (ucast v :: u32)) :: u8) = ucast (drop_bit k v)" if "k \<le> 24" for k
    by (rule bit_word_eqI) (use that in \<open>auto simp: bit_simps\<close>)
  from this [of 0] this [of 8] this [of 16] this [of 24] show ?thesis
    by (simp add: numeral_eq_Suc)
qed

section \<open>One step\<close>

text \<open>
  The accesses lie in one region, and a converted value is a properly boxed number: which NaN the
  host's conversion of a NaN returns is not the manual's canonical one.
\<close>

fun fcovered :: "rvstate \<Rightarrow> finstr \<Rightarrow> bool" where
  "fcovered st (FLW d s1 im) \<longleftrightarrow> access_ok st (xget (abs_machine st) s1 + scast im) 4"
| "fcovered st (FLD d s1 im) \<longleftrightarrow> access_ok st (xget (abs_machine st) s1 + scast im) 8"
| "fcovered st (FSW s1 s2 im) \<longleftrightarrow> access_ok st (xget (abs_machine st) s1 + scast im) 4"
| "fcovered st (FSD s1 s2 im) \<longleftrightarrow> access_ok st (xget (abs_machine st) s1 + scast im) 8"
| "fcovered st (FCVT_S_D d s) \<longleftrightarrow> fdecode binary64 (unat (float_view st s)) \<noteq> FNaN"
| "fcovered st (FCVT_D_S d s) \<longleftrightarrow> drop_bit 32 (float_view st s) = mask 32
     \<and> fdecode binary32 (unat (ucast (float_view st s) :: u32)) \<noteq> FNaN"
| "fcovered st _ \<longleftrightarrow> True"

lemma fd_switch:
  "insn_ty i = EXT_FD f \<Longrightarrow> dispatch_switch env i st = exec_fd env f i st"
  by (simp add: dispatch_switch_def exec_arith_def exec_mem_def exec_branch_def exec_upper_def exec_env_def)

lemmas fd_exec_defs = fd_switch exec_fd_def fd_defs fmt_switch_def RISCV_FLTFUNC_SINGLE_def
  RISCV_FLTFUNC_DOUBLE_def insn_zero_def

lemma frefines_load:
  assumes r: "ready st m" and acc: "access_ok st a n"
  shows "\<exists>bs. xload (xmem m) a n = Some bs \<and> guest_read st a n = Inr bs"
proof -
  have ok: "state_ok st" "layout_ok st" "good st m" using r by (simp_all add: ready_def good_def)
  obtain bs where "guest_read st a n = Inr bs" using access_ok_read [OF ok(1,2) acc] by blast
  with guest_read_xload [OF ok(1,2) acc] good_mem [OF ok(3)] show ?thesis by metis
qed

lemma frefines_store:
  assumes r: "ready st m" and acc: "access_ok st a (length bs)"
  shows "\<exists>st'. guest_write st a bs = Inr st'
    \<and> fexec_refines (xnext (m\<lparr>xmem := xstore (xmem m) a bs\<rparr>), float_view st) (fall st')"
proof -
  have ok: "state_ok st" "layout_ok st" "good st m" using r by (simp_all add: ready_def good_def)
  obtain st' where w: "guest_write st a bs = Inr st'" using guest_write_total [OF ok(1,2) acc] by blast
  have "good st' (m\<lparr>xmem := xstore (xmem m) a bs\<rparr>)"
    using guest_write_xstore [OF ok(1,2) acc w] state_ok_guest_write [OF w ok(1)] guest_write_layout [OF w]
      ok w by (auto simp: good_def abs_machine_def guest_write_eq_Inr)
  moreover have "float_view st = float_view st'"
    using w by (intro float_view_cong) (auto simp: guest_write_eq_Inr)
  ultimately have "fexec_refines (xnext (m\<lparr>xmem := xstore (xmem m) a bs\<rparr>), float_view st) (fall st')"
    by (rule frefines_fall)
  with w show ?thesis by blast
qed

lemma fdispatch_refines:
  assumes r: "ready st m" and m: "m = abs_machine st0" and "mem st = mem st0" and F: "float_view st0 = float_view st"
    and c: "fcovered st0 i"
  shows "\<exists>mF. fexec i (m, float_view st) = Some mF \<and> fexec_refines mF (dispatch_switch env (fdecoded i) st)"
proof -
  have g: "good st m" using r by (simp add: ready_def)
  have acc: "access_ok st a n = access_ok st0 a n" for a n using assms(3) by (simp add: access_ok_def)
  show ?thesis
  proof (cases i)
    case (FLW d s1 im)
    with c have "access_ok st (xget m s1 + scast im) 4" by (simp add: acc m)
    from frefines_load [OF r this] obtain bs where bs: "xload (xmem m) (xget m s1 + scast im) 4 = Some bs"
      "guest_read st (xget m s1 + scast im) 4 = Inr bs" by blast
    then show ?thesis using frefines_fassign [OF g]
      by (simp add: FLW fd_exec_defs ready_reg [OF r] load_u32_def saturate_box)
  next
    case (FLD d s1 im)
    with c have "access_ok st (xget m s1 + scast im) 8" by (simp add: acc m)
    from frefines_load [OF r this] obtain bs where bs: "xload (xmem m) (xget m s1 + scast im) 8 = Some bs"
      "guest_read st (xget m s1 + scast im) 8 = Inr bs" by blast
    then show ?thesis using frefines_fassign [OF g]
      by (simp add: FLD fd_exec_defs ready_reg [OF r] load_u64_def)
  next
    case (FSW s1 s2 im)
    let ?a = "xget m s1 + scast im" and ?bs = "le_bytes 4 (float_view st s2)"
    have a: "access_ok st ?a 4" using c FSW by (simp add: acc m)
    then obtain st' where "guest_write st ?a ?bs = Inr st'"
      "fexec_refines (xnext (m\<lparr>xmem := xstore (xmem m) ?a ?bs\<rparr>), float_view st) (fall st')"
      using frefines_store [OF r, of ?a ?bs] by auto
    with frefines_load [OF r a] show ?thesis
      by (auto simp: FSW fd_exec_defs ready_reg [OF r] store_u32_def freg_view unpack_low le_bytes_low Let_def)
  next
    case (FSD s1 s2 im)
    let ?a = "xget m s1 + scast im" and ?bs = "le_bytes 8 (float_view st s2)"
    have a: "access_ok st ?a 8" using c FSD by (simp add: acc m)
    then obtain st' where "guest_write st ?a ?bs = Inr st'"
      "fexec_refines (xnext (m\<lparr>xmem := xstore (xmem m) ?a ?bs\<rparr>), float_view st) (fall st')"
      using frefines_store [OF r, of ?a ?bs] by auto
    with frefines_load [OF r a] show ?thesis
      by (auto simp: FSD fd_exec_defs ready_reg [OF r] store_u64_def freg_view Let_def)
  next
    case (FMV_X_W d s)
    then show ?thesis using frefines_assign [OF g]
      by (simp add: fd_exec_defs freg_view unpack_low)
  next
    case (FMV_W_X d s)
    then show ?thesis using frefines_fassign [OF g]
      by (simp add: fd_exec_defs ready_reg [OF r] saturate_box)
  next
    case (FCVT_S_D d s)
    with c have "f64_to_f32 env (float_view st s) = narrow (float_view st s)"
      by (simp add: narrow_read F)
    then show ?thesis using frefines_fassign [OF g]
      by (simp add: FCVT_S_D fd_exec_defs freg_view assign_f32_def fassign_def rvfloat_write_f32_def
          rvfloat_read_f64_def float_view_defs saturate_box)
  next
    case (FCVT_D_S d s)
    with c widen_read [of "float_view st s" env]
    have "f32_to_f64 env (rvfloat_as_f32 (ucast (rvfloat_nanbox_unpack (float_view st s)))) = widen (unbox (float_view st s))"
      by (simp add: F)
    then show ?thesis using frefines_fassign [OF g]
      by (simp add: FCVT_D_S fd_exec_defs freg_view assign_f64_def fassign_def rvfloat_write_f64_def
          rvfloat_read_f32_def rvfloat_as_u64_def)
  qed
qed

lemma fstep_of_encoding:
  assumes g: "good st (abs_machine st)" and f: "rvstate_fetch st = Inr (fencode i)"
  obtains s line where "ready s (abs_machine st)" "mem s = mem st" "float_view s = float_view st"
    "trace s = trace st @ [Disasm line]"
    "rvemu_step env st = rbind (dispatch_switch env (fdecoded i) s) (\<lambda>fl. Inr (True, flow_end fl))"
proof -
  let ?z = "set_reg 0 0 st"
  have f: "rvstate_fetch ?z = Inr (fencode i)"
    using f rvstate_fetch_cong [of ?z st] by (simp add: set_reg_def)
  obtain line where d: "rvdec_insn ?z (fencode i) = Inr (fdecoded i, emit (Disasm line) ?z)"
    using fdecodes_fencode [of ?z i] by (auto simp: decodes_to_def)
  let ?s = "rvbkpt_check_insn (fdecoded i) (emit (Disasm line) ?z)"
  have "insn_ty (fdecoded i) \<noteq> RV_INSN__INVALID" by (cases i) simp_all
  moreover have "\<not> suspended st" using g by (simp add: good_def)
  ultimately have "rvemu_step env st = rbind (dispatch_switch env (fdecoded i) ?s) (\<lambda>fl. Inr (True, flow_end fl))"
    by (simp add: rvemu_step_def f d rvemu_dispatch_def rbind_assoc)
  moreover have "mem ?s = mem st" "trace ?s = trace st @ [Disasm line]"
    by (simp_all add: rvbkpt_check_insn_def emit_def set_reg_def)
  moreover have "float_view ?s = float_view st"
    by (rule float_view_cong) (simp add: rvbkpt_check_insn_def emit_def set_reg_def)
  ultimately show ?thesis using ready_before_dispatch [OF g] by (intro that)
qed

lemma fstep_refines:
  assumes g: "good st (abs_machine st)" and f: "rvstate_fetch st = Inr (fencode i)" and c: "fcovered st i"
  shows "\<exists>st'. rvemu_step env st = Inr (True, st') \<and> fexec i (abs_fmachine st) = Some (abs_fmachine st')
    \<and> good st' (abs_machine st')"
proof -
  obtain s where s: "ready s (abs_machine st)" "mem s = mem st" "float_view s = float_view st"
    "rvemu_step env st = rbind (dispatch_switch env (fdecoded i) s) (\<lambda>fl. Inr (True, flow_end fl))"
    using fstep_of_encoding [OF g f] by metis
  from fdispatch_refines [OF s(1) refl s(2) s(3) [symmetric] c, of env] obtain mF fl where
    "fexec i (abs_fmachine st) = Some mF" and fl: "dispatch_switch env (fdecoded i) s = Inr fl"
      "good (flow_end fl) (fst mF)" "float_view (flow_end fl) = snd mF"
    by (auto simp: fexec_refines_def abs_fmachine_def s(3))
  moreover have "abs_machine (flow_end fl) = fst mF" using fl(2) by (simp add: good_def)
  ultimately show ?thesis by (simp add: s(4) abs_fmachine_def)
qed

lemma fstep_frame:
  assumes "good st (abs_machine st)" and "rvstate_fetch st = Inr (fencode i)"
    and "rvemu_step env st = Inr (True, st')"
  shows "mem st' = mem st \<and> (\<exists>line. trace st' = trace st @ [Disasm line])"
proof -
  obtain s line where s: "mem s = mem st" "trace s = trace st @ [Disasm line]"
    "rvemu_step env st = rbind (dispatch_switch env (fdecoded i) s) (\<lambda>fl. Inr (True, flow_end fl))"
    using fstep_of_encoding [OF assms(1,2)] by metis
  from assms(3) obtain fl where fl: "dispatch_switch env (fdecoded i) s = Inr fl" "st' = flow_end fl"
    by (auto simp: s(3) rbind_eq_Inr)
  have "mem (flow_end fl) = mem s \<and> trace (flow_end fl) = trace s"
    using fl(1) by (cases i) (auto simp: fd_exec_defs assign_def fassign_def fall_def set_reg_def set_freg_def
        rbind_eq_Inr store_defs guest_write_eq_Inr Let_def assign_f32_def assign_f64_def rvfloat_write_f32_def
        rvfloat_write_f64_def)
  with s(1,2) fl(2) show ?thesis by simp
qed

text \<open>
  C5: one step of the emulator refines the manual on the float loads, stores, register moves and
  precision conversions: when the word at the program counter encodes one of them and it is covered
  (the access lies in one region; the converted value is not NaN and, when it is widened, is properly
  boxed), the step succeeds and leaves the machine and the float registers the manual prescribes.
\<close>
theorem rvemu_float_step_refines:
  assumes "state_ok st" and "layout_ok st" and "\<not> suspended st"
    and "rvstate_fetch st = Inr (fencode i)" and "fcovered st i"
  shows "\<exists>st'. rvemu_step env st = Inr (True, st') \<and> fexec i (abs_fmachine st) = Some (abs_fmachine st')
    \<and> state_ok st' \<and> layout_ok st' \<and> \<not> suspended st'"
  using fstep_refines [of st i env] assms by (auto simp: good_def)

text \<open>The small machine with \<open>FMV.W.X ft1, zero\<close> at its program counter.\<close>

definition float_byte :: "nat \<Rightarrow> u8" where
  "float_byte a = (if a = 16 then 0xD3 else if a = 19 then 0xF0 else 0)"

definition float_state :: rvstate where
  "float_state = small_state\<lparr>host := (host small_state)\<lparr>cells :=
     (\<lambda>a. if 16 \<le> a \<and> a < 80 then Some (float_byte a) else None)\<rparr>\<rparr>"

theorem rvemu_float_step_refines_witness:
  "\<exists>st'. rvemu_step demo_env float_state = Inr (True, st')
    \<and> fexec (FMV_W_X 1 0) (abs_fmachine float_state) = Some (abs_fmachine st')"
proof -
  have ok: "state_ok float_state" "layout_ok float_state" "\<not> suspended float_state"
    by (simp_all add: float_state_def small_state_def blank_state_def state_ok_def layout_ok_def
        regs_wf_def fregs_wf_def RISCV_REGCOUNT_def context_zero_def heap_ok_def live_def
        regions_backed_def region_backed_def guest_layout_def region_fits_def)
  have "rvstate_fetch float_state = Inr (fencode (FMV_W_X 1 0))"
    by (simp add: rvstate_fetch_def float_state_def small_state_def context_zero_def
        elf_vma_to_mem_def vma_outside_def hread_4 float_byte_def r_format_def)
  from rvemu_float_step_refines [OF ok this, of demo_env] show ?thesis by auto
qed

end
