(* ===== verification/Process.thy ===== *)
theory Process
  imports Program FloatRefinement
begin

text \<open>
  A user-mode process as the emulator's guest sees it: the manual's machine with its float
  registers, the program break, the bytes written and the exit code, with the system calls as its only contact with the host; and the
  proof that the emulator's iterations are steps of that process.
\<close>

section \<open>The process\<close>

record process =
  cpu :: machine
  fpu :: "regno \<Rightarrow> u64"
  brk_at :: nat
  written :: "(u32 \<times> u8 list) list"
  exited :: "u32 option"

text \<open>
  The effect of a system call; \<open>lo\<close> and \<open>hi\<close> bound the program break.  What \<^verbatim>\<open>write\<close>
  and \<^verbatim>\<open>fstat\<close> answer is the host's choice.  Reading is not supported and reads nothing.
\<close>

inductive sys_call :: "nat \<Rightarrow> nat \<Rightarrow> process \<Rightarrow> process \<Rightarrow> bool" for lo hi where
  call_read: "xget (cpu p) 17 = 63 \<Longrightarrow>
    sys_call lo hi p (p\<lparr>cpu := xnext (xset 10 0 (cpu p))\<rparr>)"
| call_write: "xget (cpu p) 17 = 64 \<Longrightarrow>
    xload (xmem (cpu p)) (xget (cpu p) 11) (unat (xget (cpu p) 12)) = Some bs \<Longrightarrow>
    sys_call lo hi p (p\<lparr>cpu := xnext (xset 10 v (cpu p)), written := written p @ [(xget (cpu p) 10, bs)]\<rparr>)"
| call_fstat_failed: "xget (cpu p) 17 = 80 \<Longrightarrow> v \<noteq> 0 \<Longrightarrow>
    sys_call lo hi p (p\<lparr>cpu := xnext (xset 10 v (cpu p))\<rparr>)"
| call_fstat: "xget (cpu p) 17 = 80 \<Longrightarrow> xload (xmem (cpu p)) (xget (cpu p) 11) (length bs) \<noteq> None \<Longrightarrow>
    sys_call lo hi p (p\<lparr>cpu := xnext (xset 10 0
      ((cpu p)\<lparr>xmem := xstore (xmem (cpu p)) (xget (cpu p) 11) bs\<rparr>))\<rparr>)"
| call_exit: "xget (cpu p) 17 = 93 \<Longrightarrow>
    sys_call lo hi p (p\<lparr>cpu := xnext (cpu p), exited := Some (xget (cpu p) 10)\<rparr>)"
| call_brk: "xget (cpu p) 17 = 214 \<Longrightarrow> b = brk_spec lo hi (brk_at p) (unat (xget (cpu p) 10)) \<Longrightarrow>
    sys_call lo hi p (p\<lparr>cpu := xnext (xset 10 (of_nat b) (cpu p)), brk_at := b\<rparr>)"

text \<open>One step of a process that has not exited: an instruction or, on \<open>ecall\<close>, a system call.\<close>

inductive process_step :: "nat \<Rightarrow> nat \<Rightarrow> process \<Rightarrow> process \<Rightarrow> bool" for lo hi where
  step_instr: "exited p = None \<Longrightarrow> xfetch (cpu p) = Some (encode i) \<Longrightarrow> isa_exec i (cpu p) = Some m \<Longrightarrow>
    process_step lo hi p (p\<lparr>cpu := m\<rparr>)"
| step_float: "exited p = None \<Longrightarrow> xfetch (cpu p) = Some (fencode f) \<Longrightarrow>
    fexec f (cpu p, fpu p) = Some (m, F) \<Longrightarrow> process_step lo hi p (p\<lparr>cpu := m, fpu := F\<rparr>)"
| step_call: "exited p = None \<Longrightarrow> xfetch (cpu p) = Some 0x73 \<Longrightarrow> sys_call lo hi p p' \<Longrightarrow>
    process_step lo hi p p'"

inductive process_run :: "nat \<Rightarrow> nat \<Rightarrow> process \<Rightarrow> nat \<Rightarrow> process \<Rightarrow> bool" for lo hi where
  run_stop: "process_run lo hi p 0 p"
| run_go: "process_step lo hi p p' \<Longrightarrow> process_run lo hi p' n p'' \<Longrightarrow> process_run lo hi p (Suc n) p''"

inductive_simps process_run_0 [simp]: "process_run lo hi p 0 p'"
inductive_simps process_run_Suc: "process_run lo hi p (Suc n) p'"

section \<open>Abstraction\<close>

definition host_writes :: "event list \<Rightarrow> (u32 \<times> u8 list) list" where
  "host_writes es = List.map_filter (\<lambda>e. case e of HostWrite fd bs \<Rightarrow> Some (fd, bs) | _ \<Rightarrow> None) es"

definition exit_codes :: "event list \<Rightarrow> u32 list" where
  "exit_codes es = List.map_filter (\<lambda>e. case e of ExitNotice c \<Rightarrow> Some c | _ \<Rightarrow> None) es"

lemma host_writes_append [simp]: "host_writes (es @ fs) = host_writes es @ host_writes fs"
  by (simp add: host_writes_def List.map_filter_def)

lemma exit_codes_append [simp]: "exit_codes (es @ fs) = exit_codes es @ exit_codes fs"
  by (simp add: exit_codes_def List.map_filter_def)

lemma event_views [simp]:
  "host_writes [] = []" "exit_codes [] = []"
  "host_writes (e # es) = (case e of HostWrite fd bs \<Rightarrow> [(fd, bs)] | _ \<Rightarrow> []) @ host_writes es"
  "exit_codes (e # es) = (case e of ExitNotice c \<Rightarrow> [c] | _ \<Rightarrow> []) @ exit_codes es"
  by (simp_all add: host_writes_def exit_codes_def List.map_filter_def split: event.split)

text \<open>The state of the emulator represents a process.\<close>

definition represents :: "rvstate \<Rightarrow> process \<Rightarrow> bool" where
  "represents st p \<longleftrightarrow> state_ok st \<and> layout_ok st \<and> brk_inv st \<and> abs_machine st = cpu p
     \<and> float_view st = fpu p \<and> brk_pos st = brk_at p \<and> host_writes (trace st) = written p
     \<and> suspended st = (exited p \<noteq> None)
     \<and> exit_codes (trace st) = (case exited p of None \<Rightarrow> [] | Some c \<Rightarrow> [c])"

section \<open>System calls\<close>

lemma good_emit: "good st m \<Longrightarrow> good (emit e st) m"
  by (simp add: good_def abs_machine_def) (simp add: emit_def)

lemma brk_cong:
  "mem st' = mem st \<Longrightarrow> brk_inv st' = brk_inv st \<and> brk_pos st' = brk_pos st \<and> brk_lo st' = brk_lo st
     \<and> brk_hi st' = brk_hi st"
  by (simp add: brk_inv_def brk_pos_def brk_lo_def brk_hi_def heap_region_def)

text \<open>A good state that shares the regions with one that represents a process.\<close>

lemma represents_good:
  assumes "represents st p" and "exited p = None" and "good s m" and "mem s = mem st"
    and "fregs s = fregs st" and "trace s = trace st @ es" and "exit_codes es = []"
  shows "represents s (p\<lparr>cpu := m, written := written p @ host_writes es\<rparr>)"
  using assms brk_cong [OF assms(4)] float_view_cong [OF assms(5)] by (simp add: represents_def good_def)

lemma represents_is_good: "represents st p \<Longrightarrow> exited p = None \<Longrightarrow> good st (cpu p)"
  by (simp add: represents_def good_def)

text \<open>The argument and the number of a call.\<close>

lemma ready_regs:
  assumes "ready s m"
  shows "regs s ! 10 = xget m 10" "regs s ! 11 = xget m 11" "regs s ! 12 = xget m 12" "regs s ! 17 = xget m 17"
  using ready_reg [OF assms, of 10] ready_reg [OF assms, of 11] ready_reg [OF assms, of 12]
    ready_reg [OF assms, of 17] by (simp_all add: rvmem_reg_def)

text \<open>A call that answers puts its result in \<open>a0\<close>, and the dispatcher moves on.\<close>

definition answered :: "u32 \<Rightarrow> rvstate \<Rightarrow> rvstate" where
  "answered v st = st\<lparr>regs := (regs st)[10 := v], pc := pc st + 4\<rparr>"

lemma good_answered:
  assumes "good st m"
  shows "good (answered v st) (xnext (xset 10 v m))"
proof -
  have "answered v st = (set_reg (ucast (10 :: regno)) v st)\<lparr>pc := pc (set_reg (ucast (10 :: regno)) v st) + 4\<rparr>"
    by (simp add: answered_def set_reg_def)
  moreover have "good (set_reg (ucast (10 :: regno)) v st) (xset 10 v m)" using assms by (rule good_set_reg)
  ultimately show ?thesis
    using good_pc_update [of _ "xset 10 v m"] good_pc by (simp add: xnext_def)
qed

lemma answered_frame [simp]:
  "mem (answered v st) = mem st" "fregs (answered v st) = fregs st" "trace (answered v st) = trace st"
  by (simp_all add: answered_def)

text \<open>The program break moves without moving guest memory.\<close>

lemma rvsysc_brk_good:
  assumes "rvsysc_brk x s = Inr (v, t)" and "good s m"
  shows "good t m \<and> fregs t = fregs s \<and> trace t = trace s"
proof -
  have t: "regs t = regs s" "host t = host s" "pc t = pc s" "suspended t = suspended s"
    "fregs t = fregs s" "trace t = trace s"
    using assms(1) by (auto simp: rvsysc_brk_def Let_def split: option.splits if_splits)
  note map = address_map_brk [OF assms(1)]
  have "guest_byte t = guest_byte s"
    by (rule ext) (simp add: guest_byte_def guest_read_def rvmem_at_def t address_map_translation [OF map])
  then show ?thesis
    using assms(2) state_ok_rvsysc_brk [OF assms(1)] address_map_layout [OF map]
    by (simp add: good_def abs_machine_def t)
qed

text \<open>
  The calls whose buffer lies in one region; the buffer of \<^verbatim>\<open>fstat\<close> has room for what the
  host stores.
\<close>

definition covered_call :: "host_env \<Rightarrow> rvstate \<Rightarrow> bool" where
  "covered_call env st \<longleftrightarrow>
     (let n = regs st ! 17; buf = regs st ! 11
      in n = RV_SYSCALL__EXIT \<or> n = RV_SYSCALL__BRK
         \<or> n = RV_SYSCALL__READ \<and> access_ok st buf 1
         \<or> n = RV_SYSCALL__WRITE \<and> access_ok st buf (unat (regs st ! 12))
         \<or> n = RV_SYSCALL__FSTAT
           \<and> access_ok st buf (max 1 (length (snd (he_fstat env (trace st) (regs st ! 10))))))"

text \<open>What a call of the emulator refines, once the next instruction is due.\<close>

definition call_refines :: "rvstate \<Rightarrow> process \<Rightarrow> rvstate res \<Rightarrow> bool" where
  "call_refines s p r \<longleftrightarrow> (\<exists>s' p'. r = Inr s' \<and> sys_call (brk_lo s) (brk_hi s) p p'
     \<and> represents (s'\<lparr>pc := pc s' + 4\<rparr>) p')"

lemma call_answers:
  "r = Inr (t\<lparr>regs := (regs t)[10 := v]\<rparr>) \<Longrightarrow> represents (answered v t) p' \<Longrightarrow>
     sys_call (brk_lo s) (brk_hi s) p p' \<Longrightarrow> call_refines s p r"
  by (auto simp: call_refines_def answered_def)

lemma access_ok_at:
  assumes "good s m" and "access_ok s a n"
  obtains q where "rvmem_at s a = Inr q"
proof -
  have "state_ok s" "layout_ok s" using assms(1) by (simp_all add: good_def)
  then obtain bs where "guest_read s a n = Inr bs" using access_ok_read assms(2) by blast
  then show ?thesis using that by (auto simp: guest_read_def rbind_eq_Inr)
qed

lemma access_ok_shorter: "access_ok s a n \<Longrightarrow> 0 < k \<Longrightarrow> k \<le> n \<Longrightarrow> access_ok s a k"
  by (auto simp: access_ok_def list_ex_iff in_region_def)

text \<open>A state about to dispatch a call of a running process.\<close>

definition calling :: "rvstate \<Rightarrow> process \<Rightarrow> bool" where
  "calling s p \<longleftrightarrow> represents s p \<and> exited p = None \<and> ready s (cpu p)"

lemma calling_good: "calling s p \<Longrightarrow> good s (cpu p)"
  by (simp add: calling_def ready_def)

lemmas call_defs = rvemu_dispatch_syscall_def REGARGPn_def set_result_def syscall_number_defs

lemma represents_answered:
  assumes "calling s p" and "good t m" and "mem t = mem s" and "fregs t = fregs s" and "trace t = trace s @ es" and "exit_codes es = []"
  shows "represents (answered v t) (p\<lparr>cpu := xnext (xset 10 v m), written := written p @ host_writes es\<rparr>)"
  using assms by (intro represents_good [where st = s] good_answered) (simp_all add: calling_def)

lemma refines_read:
  assumes c: "calling s p" and "regs s ! 17 = RV_SYSCALL__READ" and "access_ok s (regs s ! 11) 1"
  shows "call_refines s p (rvemu_dispatch_syscall env s)"
proof -
  note regs = ready_regs [of s "cpu p"]
  obtain q where q: "rvmem_at s (regs s ! 11) = Inr q" using access_ok_at [OF calling_good [OF c] assms(3)] .
  let ?e = "ReadNotice (regs s ! 10) q (regs s ! 12)"
  have "represents (answered 0 (emit ?e s)) (p\<lparr>cpu := xnext (xset 10 0 (cpu p)), written := written p @ host_writes [?e]\<rparr>)"
    by (rule represents_answered [OF c good_emit [OF calling_good [OF c]]]) (simp_all add: emit_def)
  then have "represents (answered 0 (emit ?e s)) (p\<lparr>cpu := xnext (xset 10 0 (cpu p))\<rparr>)" by simp
  moreover have "sys_call lo hi p (p\<lparr>cpu := xnext (xset 10 0 (cpu p))\<rparr>)" for lo hi
    using assms(2) c regs(4) by (intro call_read) (simp add: RV_SYSCALL__READ_def calling_def)
  ultimately show ?thesis
    using assms(2) by (intro call_answers) (simp_all add: call_defs q rvsysc_read_def)
qed

lemma refines_write:
  assumes c: "calling s p" and "regs s ! 17 = RV_SYSCALL__WRITE"
    and acc: "access_ok s (regs s ! 11) (unat (regs s ! 12))"
  shows "call_refines s p (rvemu_dispatch_syscall env s)"
proof -
  note g = calling_good [OF c]
  have ok: "state_ok s" "layout_ok s" using g by (simp_all add: good_def)
  have r: "ready s (cpu p)" using c by (simp add: calling_def)
  obtain bs where bs: "guest_read s (regs s ! 11) (unat (regs s ! 12)) = Inr bs"
    and d: "rvemu_dispatch_syscall env s = Inr (s\<lparr>trace := trace s @ [HostWrite (regs s ! 10) bs],
      regs := (regs s)[10 := he_write env (trace s) (regs s ! 10) bs]\<rparr>)"
    using dispatch_write [OF ok assms(2) acc] by blast
  have load: "xload (xmem (cpu p)) (regs s ! 11) (unat (regs s ! 12)) = Some bs"
    unfolding good_mem [OF g] using bs guest_read_xload [OF ok acc] by blast
  let ?e = "HostWrite (regs s ! 10) bs" and ?v = "he_write env (trace s) (regs s ! 10) bs"
  have "represents (answered ?v (emit ?e s))
      (p\<lparr>cpu := xnext (xset 10 ?v (cpu p)), written := written p @ host_writes [?e]\<rparr>)"
    by (rule represents_answered [OF c good_emit [OF g]]) (simp_all add: emit_def)
  moreover have "sys_call lo hi p (p\<lparr>cpu := xnext (xset 10 ?v (cpu p)), written := written p @ [(regs s ! 10, bs)]\<rparr>)"
    for lo hi
    unfolding ready_regs(1) [OF r] using assms(2) load
    by (intro call_write) (simp_all add: RV_SYSCALL__WRITE_def ready_regs [OF r])
  ultimately show ?thesis
    by (intro call_answers [where t = "emit ?e s" and v = ?v]) (simp_all add: d, simp add: emit_def)
qed

lemma refines_brk:
  assumes c: "calling s p" and "regs s ! 17 = RV_SYSCALL__BRK"
  shows "call_refines s p (rvemu_dispatch_syscall env s)"
proof -
  note g = calling_good [OF c]
  have r: "ready s (cpu p)" and rep: "represents s p" using c by (simp_all add: calling_def)
  then have inv: "brk_inv s" "brk_pos s = brk_at p" by (simp_all add: represents_def)
  obtain v t where t: "rvsysc_brk (regs s ! 10) s = Inr (v, t)" using rvsysc_brk_total [OF inv(1)] by blast
  from rvsysc_brk_step [OF inv(1) t] have b: "brk_inv t" "unat v = brk_pos t"
    "brk_pos t = brk_spec (brk_lo s) (brk_hi s) (brk_at p) (unat (xget (cpu p) 10))"
    by (simp_all add: inv(2) ready_regs(1) [OF r])
  have v: "v = of_nat (brk_pos t)" unfolding b(2) [symmetric] by simp
  have gt: "good t (cpu p)" "fregs t = fregs s" "trace t = trace s" using rvsysc_brk_good [OF t g] by simp_all
  have "represents (answered v t) (p\<lparr>cpu := xnext (xset 10 v (cpu p)), brk_at := brk_pos t\<rparr>)"
    using good_answered [OF gt(1), of v] rep c b(1) gt(2,3) brk_cong [of "answered v t" t]
      float_view_cong [of "answered v t" s]
    by (simp add: represents_def good_def calling_def)
  moreover have "sys_call (brk_lo s) (brk_hi s) p (p\<lparr>cpu := xnext (xset 10 v (cpu p)), brk_at := brk_pos t\<rparr>)"
    unfolding v using assms(2) b(3)
    by (intro call_brk) (simp_all add: ready_regs [OF r, symmetric] RV_SYSCALL__BRK_def)
  moreover have "rvemu_dispatch_syscall env s = Inr (t\<lparr>regs := (regs t)[10 := v]\<rparr>)"
    using assms(2) by (simp add: call_defs t)
  ultimately show ?thesis by (intro call_answers)
qed

lemma refines_exit:
  assumes c: "calling s p" and "regs s ! 17 = RV_SYSCALL__EXIT"
  shows "call_refines s p (rvemu_dispatch_syscall env s)"
proof -
  have r: "ready s (cpu p)" and rep: "represents s p" using c by (simp_all add: calling_def)
  then have m: "cpu p = abs_machine s" by (simp add: represents_def)
  let ?s = "(emit (ExitNotice (regs s ! 10)) s)\<lparr>suspended := True\<rparr>"
  let ?p = "p\<lparr>cpu := xnext (cpu p), exited := Some (xget (cpu p) 10)\<rparr>"
  have d: "rvemu_dispatch_syscall env s = Inr ?s"
    using assms(2) by (simp add: call_defs rvsysc_exit_def)
  have "guest_byte (?s\<lparr>pc := pc ?s + 4\<rparr>) = guest_byte s"
    by (rule guest_byte_cong) (simp_all add: emit_def)
  then have "abs_machine (?s\<lparr>pc := pc ?s + 4\<rparr>) = xnext (cpu p)"
    by (simp add: m abs_machine_def xnext_def) (simp add: emit_def)
  then have "represents (?s\<lparr>pc := pc ?s + 4\<rparr>) ?p"
    using rep c brk_cong [of "?s\<lparr>pc := pc ?s + 4\<rparr>" s] float_view_cong [of "?s\<lparr>pc := pc ?s + 4\<rparr>" s]
    by (simp add: represents_def calling_def emit_def state_ok_def layout_ok_def regs_wf_def fregs_wf_def
        ready_regs [OF r])
  moreover have "sys_call lo hi p ?p" for lo hi
    using assms(2) by (intro call_exit) (simp add: ready_regs [OF r, symmetric] RV_SYSCALL__EXIT_def)
  ultimately show ?thesis using d by (auto simp: call_refines_def)
qed

lemma refines_fstat:
  assumes c: "calling s p" and n: "regs s ! 17 = RV_SYSCALL__FSTAT"
    and acc: "access_ok s (regs s ! 11) (max 1 (length (snd (he_fstat env (trace s) (regs s ! 10)))))"
  shows "call_refines s p (rvemu_dispatch_syscall env s)"
proof -
  note g = calling_good [OF c]
  then have m: "cpu p = abs_machine s" by (simp add: good_def)
  have ok: "state_ok s" "layout_ok s" using g by (simp_all add: good_def)
  have r: "ready s (cpu p)" using c by (simp add: calling_def)
  obtain v bs where f: "he_fstat env (trace s) (regs s ! 10) = (v, bs)" by fastforce
  obtain q where q: "rvmem_at s (regs s ! 11) = Inr q" using access_ok_at [OF g acc] .
  let ?mm = "xstore (xmem (cpu p)) (regs s ! 11) bs"
  have call: "rvemu_dispatch_syscall env s = set_result (if v = 0
      then rbind (guest_write s (regs s ! 11) bs) (\<lambda>t. Inr (v, t)) else Inr (v, s))"
    using n by (simp add: call_defs q rvsysc_fstat_def f guest_write_def rbind_assoc)
  show ?thesis
  proof (cases "v = 0")
    case False
    have "represents (answered v s) (p\<lparr>cpu := xnext (xset 10 v (cpu p)), written := written p @ host_writes []\<rparr>)"
      by (rule represents_answered [OF c g]) simp_all
    moreover have "sys_call lo hi p (p\<lparr>cpu := xnext (xset 10 v (cpu p))\<rparr>)" for lo hi
      using n False by (intro call_fstat_failed) (simp_all add: ready_regs [OF r, symmetric] RV_SYSCALL__FSTAT_def)
    ultimately show ?thesis
      using False by (intro call_answers) (simp_all add: call set_result_def)
  next
    case True
    have "\<exists>t. guest_write s (regs s ! 11) bs = Inr t \<and> good t ((cpu p)\<lparr>xmem := ?mm\<rparr>)
      \<and> xload (xmem (cpu p)) (regs s ! 11) (length bs) \<noteq> None"
    proof (cases "bs = []")
      case True
      with q g show ?thesis by (auto simp: guest_write_def good_def)
    next
      case False
      with acc f have a: "access_ok s (regs s ! 11) (length bs)"
        by (intro access_ok_shorter [OF acc]) (simp_all add: Suc_leI)
      obtain t where w: "guest_write s (regs s ! 11) bs = Inr t" using guest_write_total [OF ok a] by blast
      have "good t ((cpu p)\<lparr>xmem := ?mm\<rparr>)"
        using guest_write_xstore [OF ok a w] state_ok_guest_write [OF w ok(1)] guest_write_layout [OF w] g w
        by (auto simp: good_def m abs_machine_def guest_write_eq_Inr)
      moreover obtain cs where "guest_read s (regs s ! 11) (length bs) = Inr cs" using access_ok_read [OF ok a] by blast
      ultimately show ?thesis
        using w guest_read_xload [OF ok a] unfolding good_mem [OF g] by blast
    qed
    then obtain t where t: "guest_write s (regs s ! 11) bs = Inr t" "good t ((cpu p)\<lparr>xmem := ?mm\<rparr>)"
      "xload (xmem (cpu p)) (regs s ! 11) (length bs) \<noteq> None" by blast
    let ?p = "p\<lparr>cpu := xnext (xset 10 0 ((cpu p)\<lparr>xmem := ?mm\<rparr>))\<rparr>"
    have "represents (answered 0 t) (?p\<lparr>written := written p @ host_writes []\<rparr>)"
      using represents_answered [OF c t(2), of "[]"] t(1) by (auto simp: guest_write_eq_Inr)
    moreover have "sys_call lo hi p ?p" for lo hi
      using n t(3) unfolding ready_regs(2) [OF r]
      by (intro call_fstat) (simp_all add: ready_regs [OF r] RV_SYSCALL__FSTAT_def)
    ultimately show ?thesis
      using \<open>v = 0\<close> by (intro call_answers [where t = t and v = 0]) (simp_all add: call t(1) set_result_def)
  qed
qed

lemma refines_call:
  assumes "calling s p" and "covered_call env s"
  shows "call_refines s p (rvemu_dispatch_syscall env s)"
  using assms refines_read refines_write refines_fstat refines_exit refines_brk
  unfolding covered_call_def Let_def by blast

section \<open>Iterations of the main loop\<close>

lemma step_ecall:
  assumes "good st m" and "rvstate_fetch st = Inr 0x73"
  obtains s where "ready s m" "mem s = mem st" "fregs s = fregs st" "trace s = trace st @ [Disasm ''ECALL'']"
    "regs s = (regs st)[0 := 0]"
    "bkpt_ev_arr s = map (check_event (pc st) (insn_zero\<lparr>insn_ty := RV_INSN__ECALL\<rparr>)) (bkpt_ev_arr st)"
    "rvemu_step env st
      = rbind (rvemu_dispatch_syscall env s) (\<lambda>s'. Inr (True, s'\<lparr>pc := pc s' + 4\<rparr>))"
proof -
  let ?i = "insn_zero\<lparr>insn_ty := RV_INSN__ECALL\<rparr>" and ?z = "set_reg 0 0 st"
  let ?s = "rvbkpt_check_insn ?i (emit (Disasm ''ECALL'') ?z)"
  have f: "rvstate_fetch ?z = Inr 0x73"
    using assms(2) rvstate_fetch_cong [of ?z st] by (simp add: set_reg_def)
  have "\<not> suspended st" using assms(1) by (simp add: good_def)
  then have "rvemu_step env st
      = rbind (rvemu_dispatch_syscall env ?s) (\<lambda>s'. Inr (True, s'\<lparr>pc := pc s' + 4\<rparr>))"
    by (simp add: rvemu_step_def f decode_ecall rvemu_dispatch_def dispatch_switch_def exec_arith_def
        exec_mem_def exec_branch_def exec_upper_def exec_env_def fall_def RISCV_INSNLEN_def rbind_assoc)
  moreover have "mem ?s = mem st" "fregs ?s = fregs st" "trace ?s = trace st @ [Disasm ''ECALL'']" "regs ?s = (regs st)[0 := 0]"
    "bkpt_ev_arr ?s = map (check_event (pc st) ?i) (bkpt_ev_arr st)"
    by (simp_all add: rvbkpt_check_insn_def emit_def set_reg_def)
  ultimately show ?thesis using ready_before_dispatch [OF assms(1)] by (intro that)
qed

text \<open>
  The next step is covered: the word at the program counter lies in one region and encodes an integer
  or float instruction with covered operands, or is \<open>ecall\<close> with a covered call.
\<close>

definition step_covered :: "host_env \<Rightarrow> rvstate \<Rightarrow> bool" where
  "step_covered env st \<longleftrightarrow> access_ok st (pc st) 4
     \<and> ((\<exists>i. rvstate_fetch st = Inr (encode i) \<and> operands_covered st i)
        \<or> (\<exists>f. rvstate_fetch st = Inr (fencode f) \<and> fcovered st f)
        \<or> rvstate_fetch st = Inr 0x73 \<and> covered_call env (emit (Disasm ''ECALL'') st))"

lemma step_covered_instr:
  "access_ok st (pc st) 4 \<Longrightarrow> rvstate_fetch st = Inr (encode i) \<Longrightarrow> operands_covered st i \<Longrightarrow> step_covered env st"
  by (auto simp: step_covered_def)

lemma step_covered_exit:
  "access_ok st (pc st) 4 \<Longrightarrow> rvstate_fetch st = Inr 0x73 \<Longrightarrow> regs st ! 17 = RV_SYSCALL__EXIT \<Longrightarrow> step_covered env st"
  by (simp add: step_covered_def covered_call_def Let_def) (simp add: emit_def)

lemma syscall_break_bounds:
  assumes "rvemu_dispatch_syscall env s = Inr s'" and "brk_inv s"
  shows "brk_lo s' = brk_lo s \<and> brk_hi s' = brk_hi s"
  using assms(1)
proof (cases rule: dispatch_syscallE)
  case (break x v s1)
  with rvsysc_brk_step [OF assms(2) break(1)] brk_cong [of s' s1] show ?thesis by simp
qed (use brk_cong [of s' s] in \<open>simp_all add: emit_def\<close>)

lemma step_process:
  assumes rep: "represents st p" and cov: "step_covered env st" and run: "exited p = None"
  shows "\<exists>st' p'. rvemu_step env st = Inr (True, st') \<and> process_step (brk_lo st) (brk_hi st) p p'
    \<and> represents st' p' \<and> brk_lo st' = brk_lo st \<and> brk_hi st' = brk_hi st"
proof -
  have g: "good st (cpu p)" using represents_is_good [OF rep run] .
  then have m: "cpu p = abs_machine st" by (simp add: good_def)
  have fetch: "xfetch (cpu p) = Some w" if "rvstate_fetch st = Inr w" for w
    using fetch_refines [of st w] g cov that by (simp add: m step_covered_def)
  from cov consider (instr) i where "rvstate_fetch st = Inr (encode i)" "operands_covered st i"
    | (float) f where "rvstate_fetch st = Inr (fencode f)" "fcovered st f"
    | (call) "rvstate_fetch st = Inr 0x73" "covered_call env (emit (Disasm ''ECALL'') st)"
    by (auto simp: step_covered_def)
  then show ?thesis
  proof cases
    case instr
    obtain st' where s: "rvemu_step env st = Inr (True, st')" "isa_exec i (cpu p) = Some (abs_machine st')"
      "good st' (abs_machine st')" using step_refines [OF _ instr, of env] g unfolding m by blast
    obtain line where fr: "mem st' = mem st" "fregs st' = fregs st" "trace st' = trace st @ [Disasm line]"
      using step_frame [OF _ instr(1) s(1) covered_computes [OF instr(2)]] g unfolding m by blast
    have "represents st' (p\<lparr>cpu := abs_machine st'\<rparr>)"
      using represents_good [OF rep run s(3) fr] by simp
    with s(1) step_instr [OF run fetch [OF instr(1)] s(2)] brk_cong [OF fr(1)] show ?thesis by blast
  next
    case float
    obtain st' where s: "rvemu_step env st = Inr (True, st')" "fexec f (abs_fmachine st) = Some (abs_fmachine st')"
      "good st' (abs_machine st')" using fstep_refines [OF _ float, of env] g unfolding m by blast
    obtain line where fr: "mem st' = mem st" "trace st' = trace st @ [Disasm line]"
      using fstep_frame [OF _ float(1) s(1)] g unfolding m by blast
    have x: "fexec f (cpu p, fpu p) = Some (abs_machine st', float_view st')"
      using s(2) rep by (simp add: abs_fmachine_def represents_def)
    have "represents st' (p\<lparr>cpu := abs_machine st', fpu := float_view st'\<rparr>)"
      using rep run s(3) fr(2) brk_cong [OF fr(1)] by (simp add: represents_def good_def)
    with s(1) step_float [OF run fetch [OF float(1)] x] brk_cong [OF fr(1)] show ?thesis by blast
  next
    case call
    obtain s where s: "ready s (cpu p)" "mem s = mem st" "fregs s = fregs st" "trace s = trace st @ [Disasm ''ECALL'']"
      "regs s = (regs st)[0 := 0]" "rvemu_step env st
        = rbind (rvemu_dispatch_syscall env s) (\<lambda>s'. Inr (True, s'\<lparr>pc := pc s' + 4\<rparr>))"
      using step_ecall [OF g call(1), of env] by blast
    have "good s (cpu p)" using s(1) by (simp add: ready_def)
    from represents_good [OF rep run this s(2-4)] s(1) run have "calling s p" by (simp add: calling_def)
    moreover have "covered_call env s"
      using call(2) by (simp add: covered_call_def s(2,4,5) access_ok_def) (simp add: emit_def)
    ultimately obtain s' p' where s': "rvemu_dispatch_syscall env s = Inr s'"
      "sys_call (brk_lo s) (brk_hi s) p p'" "represents (s'\<lparr>pc := pc s' + 4\<rparr>) p'"
      using refines_call [of s p env] unfolding call_refines_def by blast
    have "brk_inv s" using rep brk_cong [OF s(2)] by (simp add: represents_def)
    from syscall_break_bounds [OF s'(1) this] brk_cong [OF s(2)] brk_cong [of "s'\<lparr>pc := pc s' + 4\<rparr>" s']
    have b: "brk_lo (s'\<lparr>pc := pc s' + 4\<rparr>) = brk_lo st" "brk_hi (s'\<lparr>pc := pc s' + 4\<rparr>) = brk_hi st"
      by simp_all
    have "process_step (brk_lo st) (brk_hi st) p p'"
      using step_call [OF run fetch [OF call(1)]] s'(2) brk_cong [OF s(2)] by simp
    moreover have "rvemu_step env st = Inr (True, s'\<lparr>pc := pc s' + 4\<rparr>)" by (simp add: s(6) s'(1))
    ultimately show ?thesis using s'(3) b by blast
  qed
qed

text \<open>Covered iterations of the main loop, with no breakpoint due after any of them.\<close>

inductive emu_steps :: "host_env \<Rightarrow> rvstate \<Rightarrow> nat \<Rightarrow> rvstate \<Rightarrow> bool" for env where
  steps_stop: "emu_steps env st 0 st"
| steps_go: "\<not> suspended st \<Longrightarrow> step_covered env st \<Longrightarrow> rvemu_step env st = Inr (True, st1) \<Longrightarrow>
    rvbkpt_poll st1 = (None, st2) \<Longrightarrow> emu_steps env st2 n st' \<Longrightarrow> emu_steps env st (Suc n) st'"

lemma poll_represents:
  assumes "rvbkpt_poll st = (ev, st')" and "represents st p"
  shows "represents st' p \<and> brk_lo st' = brk_lo st \<and> brk_hi st' = brk_hi st"
proof -
  have fr: "mem st' = mem st" "host st' = host st" "regs st' = regs st" "pc st' = pc st"
    "suspended st' = suspended st" "fregs st' = fregs st" "trace st' = trace st"
    using assms(1) by (auto simp: rvbkpt_poll_def split: prod.splits)
  have "state_ok st'" using run_state_ok.keeps_poll [of st] assms by (simp add: represents_def)
  with fr brk_cong [OF fr(1)] guest_byte_cong [OF fr(1,2)] float_view_cong [OF fr(6)] assms(2) show ?thesis
    by (simp add: represents_def layout_ok_def abs_machine_def)
qed

lemma loop_body_next:
  "rvemu_step env st = Inr (True, st1) \<Longrightarrow> rvbkpt_poll st1 = (None, st2) \<Longrightarrow>
     loop_body env input st = Inr (True, input, st2)"
  by (simp add: loop_body_def)

text \<open>The iterations are a run of the process, and leave what remains of the main loop.\<close>

lemma steps_refine:
  "emu_steps env st k st' \<Longrightarrow> represents st p \<Longrightarrow>
     (\<exists>p'. process_run (brk_lo st) (brk_hi st) p k p' \<and> represents st' p')
       \<and> main_loop (k + n) env input st = main_loop n env input st'"
proof (induction arbitrary: p rule: emu_steps.induct)
  case (steps_stop st)
  then show ?case by auto
next
  case (steps_go st st1 st2 k st')
  have "exited p = None" using steps_go.hyps(1) steps_go.prems by (simp add: represents_def)
  from step_process [OF steps_go.prems steps_go.hyps(2) this] steps_go.hyps(3) obtain p1 where
    p1: "process_step (brk_lo st) (brk_hi st) p p1" "represents st1 p1" "brk_lo st1 = brk_lo st" "brk_hi st1 = brk_hi st"
    by auto
  from poll_represents [OF steps_go.hyps(4) p1(2)] p1(3,4) have
    p2: "represents st2 p1" "brk_lo st2 = brk_lo st" "brk_hi st2 = brk_hi st" by simp_all
  have "loop_body env input st = Inr (True, input, st2)"
    using loop_body_next [OF steps_go.hyps(3,4)] .
  with steps_go.IH [OF p2(1)] p1(1) p2(2,3) show ?case by (auto simp: process_run_Suc)
qed

end
