(* ===== verification/DemoRun.thy ===== *)
theory DemoRun
  imports Process
begin

text \<open>
  The emulator on one whole program, from the bytes of its file to its exit code: the main program
  loads it, executes its three instructions and stops, for any host and any input of the user.
\<close>

section \<open>Loading an immediate\<close>

text \<open>
  A running state with the breakpoint of the main program only, in which that breakpoint is not due.
\<close>

definition quiet :: "rvstate \<Rightarrow> bool" where
  "quiet st \<longleftrightarrow> \<not> suspended st \<and> length (regs st) = 32 \<and> pc st \<noteq> 0x10954
     \<and> bkpt_ev_arr st = entry_bkpt # replicate 15 bkpt_zero"

lemma quiet_check: "quiet st \<Longrightarrow> map (check_event (pc st) i) (bkpt_ev_arr st) = bkpt_ev_arr st"
  by (simp add: quiet_def check_entry_bkpt check_event_idle) (simp add: entry_bkpt_def bkpt_zero_def)

lemma quiet_poll:
  "bkpt_ev_arr st = entry_bkpt # replicate 15 bkpt_zero \<Longrightarrow> rvbkpt_poll st = (None, st)"
  by (simp add: rvbkpt_poll_def poll_loop_idle) (simp add: entry_bkpt_def bkpt_zero_def)

lemma step_li:
  assumes q: "quiet st" and f: "rvstate_fetch st = Inr (encode (OpI ADDI d 0 im))"
  obtains line st' where "st' = st\<lparr>regs := (regs st)[0 := 0, unat d := scast im], pc := pc st + 4,
    trace := trace st @ [Disasm line]\<rparr>" "rvemu_step env st = Inr (True, st')" "rvbkpt_poll st' = (None, st')"
proof -
  let ?zeroed = "set_reg 0 0 st" and ?i = "decoded (OpI ADDI d 0 im)"
  have f0: "rvstate_fetch ?zeroed = Inr (encode (OpI ADDI d 0 im))"
    using f rvstate_fetch_cong [of ?zeroed st] by (simp add: set_reg_def)
  obtain line where dec: "rvdec_insn ?zeroed (encode (OpI ADDI d 0 im)) = Inr (?i, emit (Disasm line) ?zeroed)"
    using decodes_encode [of "OpI ADDI d 0 im" ?zeroed] by (auto simp: decodes_to_def)
  have chk: "rvbkpt_check_insn ?i (emit (Disasm line) ?zeroed) = emit (Disasm line) ?zeroed"
    using quiet_check [OF q, of ?i] by (simp add: rvbkpt_check_insn_def emit_def set_reg_def)
  let ?st = "st\<lparr>regs := (regs st)[0 := 0, unat d := scast im], pc := pc st + 4, trace := trace st @ [Disasm line]\<rparr>"
  have "regs ?zeroed ! 0 = 0" using q by (simp add: set_reg_def quiet_def)
  then have "rvmem_reg (emit (Disasm line) ?zeroed) 0 = 0" by (simp add: rvmem_reg_def emit_def)
  then have "rvemu_dispatch env ?i (emit (Disasm line) ?zeroed) = Inr ?st"
    unfolding rvemu_dispatch_def chk
    by (simp add: dispatch_switch_def exec_arith_def assign_def fall_def Let_def insn_zero_def
        RISCV_INSNLEN_def set_reg_def emit_def unat_regno)
  then have step: "rvemu_step env st = Inr (True, ?st)"
    using q f0 dec by (simp add: rvemu_step_def quiet_def insn_zero_def)
  have "rvbkpt_poll ?st = (None, ?st)" using q by (intro quiet_poll) (simp add: quiet_def)
  with step show ?thesis by (rule that [OF refl])
qed

lemma body_li:
  assumes "quiet st" and "rvstate_fetch st = Inr (encode (OpI ADDI d 0 im))"
  obtains line where "loop_body env input st = Inr (True, input, st\<lparr>regs := (regs st)[0 := 0, unat d := scast im],
    pc := pc st + 4, trace := trace st @ [Disasm line]\<rparr>)"
proof -
  obtain line st' where s: "st' = st\<lparr>regs := (regs st)[0 := 0, unat d := scast im], pc := pc st + 4,
      trace := trace st @ [Disasm line]\<rparr>" "rvemu_step env st = Inr (True, st')" "rvbkpt_poll st' = (None, st')"
    using step_li [OF assms] by blast
  from that loop_body_next [OF s(2,3)] show ?thesis unfolding s(1) by blast
qed

section \<open>The program in memory\<close>

text \<open>The three words of the example, at 0x1000 in the guest and in the block of its segment.\<close>

lemma demo_fetch:
  assumes m: "mem st = demo_space" and p: "pc st = 0x1000 + of_nat k" and k: "k + 4 \<le> 12"
    and c: "\<forall>j<12. cells (host st) (376 + j) = Some (demo_code ! j)"
  shows "rvstate_fetch st = Inr (le_word (take 4 (drop k demo_code)))"
proof -
  have len: "length demo_code = 12" by (simp add: demo_code_def)
  have uk: "unat (of_nat k :: u32) = k" using k by (simp add: unat_of_nat)
  have "unat (pc st) = 0x1000 + k"
    using k uk by (simp add: p unat_word_ariths)
  then have "in_region (hd (load_regions demo_space)) (pc st) 1"
    using k by (simp add: in_region_def demo_space_def)
  then have "elf_vma_to_mem (mem st) (pc st) = 376 + k"
    using uk by (simp add: m elf_vma_to_mem_def demo_space_def vma_outside_iff region_fits_def)
      (simp add: p)
  moreover have "hread (host st) (376 + k) 4 = Inr (take 4 (drop k demo_code))"
    using c k len by (simp add: hread_eq_Inr add.assoc)
  ultimately show ?thesis by (simp add: rvstate_fetch_def)
qed

lemma demo_words:
  "le_word (take 4 (drop 0 demo_code)) = encode (OpI ADDI 17 0 93)"
  "le_word (take 4 (drop 4 demo_code)) = encode (OpI ADDI 10 0 7)"
  "le_word (take 4 (drop 8 demo_code)) = (0x73 :: u32)"
  by (simp_all add: demo_code_def i_format_def)

lemma demo_start:
  obtains st where "main_init (\<lambda>_. Some demo_elf) opens demo_args demo_host = Inr st" "quiet st"
    "mem st = demo_space" "pc st = 0x1000" "trace st = []"
    "\<forall>j<12. cells (host st) (376 + j) = Some (demo_code ! j)"
proof -
  obtain st where st: "main_init (\<lambda>_. Some demo_elf) opens demo_args demo_host = Inr st" "mem st = demo_space"
    using demo_main_init by blast
  from st(1) demo_host_ok show ?thesis
  proof (cases rule: main_initE)
    case (1 bytes h1 ctx h2 d h3)
    then have bytes: "bytes = demo_elf" by (simp add: demo_args_def)
    have ctx: "ctx = demo_space" using 1(6) st(2) by simp
    let ?r = "hd (load_regions demo_space)"
    have "?r \<in> set (load_regions ctx)" "tag ?r = Some ''LOAD''" by (simp_all add: ctx demo_space_def)
    from elf_init_loads [OF 1(3,2) this] have "segment_image demo_elf 52 ?r h2"
      by (simp add: bytes demo_ehdr_of)
    then have img: "\<forall>j<16. cells h2 (376 + j) = Some (if j < 12 then demo_elf ! (172 + j) else 0)"
      unfolding segment_image_def by (simp add: demo_phdr_fields demo_space_def)
    from elf_init_stack [OF 1(3,2,4)] have ok: "heap_ok h2" by blast
    have "cells h3 (376 + j) = Some (demo_code ! j)" if "j < 12" for j
    proof -
      have c: "cells h2 (376 + j) = Some (demo_elf ! (172 + j))" using img that by simp
      then have "376 + j < next_addr h2" using ok by (auto simp: heap_ok_def live_def)
      then have "cells h3 (376 + j) = cells h2 (376 + j)"
        using 1(5) [OF ok] by (simp add: later_heap_def)
      moreover have "demo_elf ! (172 + j) = demo_code ! j"
        using that by (simp add: demo_elf_def demo_ehdr_def demo_phdr_def demo_shdrs_def nth_append)
      ultimately show ?thesis using c by simp
    qed
    then show ?thesis
      using st(1) by (intro that [of st]) (simp_all add: 1(6) ctx quiet_def, simp_all add: demo_space_def)
  qed
qed

text \<open>
  C11: the example program runs to its end.  From the bytes of the ELF file, with enough memory and
  whatever the host answers and the user types, four iterations of the main loop are enough: the
  emulator prints the two \<open>li\<close> and the \<open>ecall\<close>, the exit code 7 the program loaded into \<open>a0\<close>, and
  then the core dump of a suspended machine.
\<close>
theorem demo_run:
  "\<exists>st' l1 l2 es. main (Suc (Suc (Suc (Suc n)))) env (\<lambda>_. Some demo_elf) opens input demo_args demo_host
      = Some (Inr st') \<and> suspended st'
    \<and> trace st' = [Disasm l1, Disasm l2, Disasm ''ECALL'', ExitNotice 7] @ es"
proof -
  obtain s0 where s0: "main_init (\<lambda>_. Some demo_elf) opens demo_args demo_host = Inr s0" "quiet s0"
    "mem s0 = demo_space" "pc s0 = 0x1000" "trace s0 = []"
    "\<forall>j<12. cells (host s0) (376 + j) = Some (demo_code ! j)"
    using demo_start by blast
  have f0: "rvstate_fetch s0 = Inr (encode (OpI ADDI 17 0 93))"
    using demo_fetch [OF s0(3) _ _ s0(6), of 0] s0(4) demo_words(1) by simp
  obtain l1 s1 where b1: "loop_body env input s0 = Inr (True, input, s1)"
    and s1: "s1 = s0\<lparr>regs := (regs s0)[0 := 0, unat (17 :: regno) := scast (93 :: 12 word)], pc := pc s0 + 4,
      trace := trace s0 @ [Disasm l1]\<rparr>"
    using body_li [OF s0(2) f0] by metis
  have q1: "quiet s1" using s0(2,4) by (simp add: s1 quiet_def)
  have f1: "rvstate_fetch s1 = Inr (encode (OpI ADDI 10 0 7))"
    using demo_fetch [of s1 4] s0(3,4,6) demo_words(2) by (simp add: s1)
  obtain l2 s2 where b2: "loop_body env input s1 = Inr (True, input, s2)"
    and s2: "s2 = s1\<lparr>regs := (regs s1)[0 := 0, unat (10 :: regno) := scast (7 :: 12 word)], pc := pc s1 + 4,
      trace := trace s1 @ [Disasm l2]\<rparr>"
    using body_li [OF q1 f1] by metis
  have f2: "rvstate_fetch s2 = Inr 0x73"
    using demo_fetch [of s2 8] s0(3,4,6) demo_words(3) by (simp add: s1 s2)
  have r: "regs s2 ! 17 = RV_SYSCALL__EXIT" "regs s2 ! 10 = 7" "\<not> suspended s2"
    using s0(2) by (simp_all add: s1 s2 quiet_def RV_SYSCALL__EXIT_def)
  obtain s3 es where s3: "main_loop (Suc (Suc n)) env input s2 = Some (Inr s3)" "suspended s3"
    "trace s3 = trace s2 @ [Disasm ''ECALL'', ExitNotice 7] @ es"
    using exit_stops [OF r(3) f2 r(1)] r(2) by metis
  have "main_loop (Suc (Suc (Suc (Suc n)))) env input s0 = Some (Inr s3)"
    using b1 b2 s3(1) by simp
  then have "main (Suc (Suc (Suc (Suc n)))) env (\<lambda>_. Some demo_elf) opens input demo_args demo_host
      = Some (Inr (rvtrbk_print_dump s3))"
    by (simp add: main_def s0(1))
  moreover have "suspended (rvtrbk_print_dump s3)" using s3(2) by (simp add: rvtrbk_print_dump_def)
  moreover have "trace (rvtrbk_print_dump s3) = [Disasm l1, Disasm l2, Disasm ''ECALL'', ExitNotice 7] @ es
      @ drop (length (trace s3)) (trace (rvtrbk_print_dump s3))"
    using s3(3) s0(5) by (simp add: rvtrbk_print_dump_def s1 s2)
  ultimately show ?thesis by blast
qed

end
