(* ===== verification/ProgramRun.thy ===== *)
theory ProgramRun
  imports DemoRun
begin

text \<open>
  Whole programs on the machine of the manual: the main program starts the emulator in a state that
  represents the image of the ELF file, and as long as no breakpoint interrupts them the iterations of
  the main loop are steps of the manual's machine from there.
\<close>

section \<open>The initial machine\<close>

text \<open>The guest bytes of the segment whose program header stands at offset \<open>p\<close> of the file.\<close>

definition segment_bytes :: "u8 list \<Rightarrow> nat \<Rightarrow> (u32 \<Rightarrow> u8 option) \<Rightarrow> bool" where
  "segment_bytes bytes p mm = (case (p_vaddr bytes p, p_memsz bytes p, p_offset bytes p, p_filesz bytes p) of
     (Inr vaddr, Inr memsz, Inr offs, Inr filesz) \<Rightarrow>
       \<forall>k<unat memsz. mm (vaddr + of_nat k) = Some (if k < unat filesz then bytes ! (unat offs + k) else 0)
   | _ \<Rightarrow> False)"

text \<open>A machine about to execute the program of a file: at its entry point, with its image in memory.\<close>

definition initial_machine :: "u8 list \<Rightarrow> machine \<Rightarrow> bool" where
  "initial_machine bytes m \<longleftrightarrow> xpc m = e_entry (ehdr_of bytes)
     \<and> (\<forall>r. r \<noteq> 2 \<longrightarrow> xget m r = 0)
     \<and> (\<forall>i<unat (e_phnum (ehdr_of bytes)).
          let p = unat (e_phoff (ehdr_of bytes)) + i * unat (e_phentsize (ehdr_of bytes))
          in loadable bytes p \<longrightarrow> segment_bytes bytes p (xmem m))"

text \<open>A byte of a region is the byte of its block.\<close>

lemma guest_byte_region:
  assumes "state_ok st" and "layout_ok st" and "r \<in> set (load_regions (mem st))"
    and "k < unat (sz_reserved r)"
  shows "guest_byte st (vma_base r + of_nat k) = cells (host st) (mem_base r + k)"
proof -
  let ?a = "vma_base r + of_nat k"
  have fits: "region_fits r" using assms(2,3) by (auto simp: layout_ok_def intro: guest_layout_fits)
  then have a: "unat ?a = unat (vma_base r) + k"
    using assms(4) by (simp add: region_fits_def unat_word_ariths unat_of_nat)
  then have ir: "in_region r ?a 1" using assms(4) by (simp add: in_region_def)
  then have p: "elf_vma_to_mem (mem st) ?a = mem_base r + k"
    unfolding elf_vma_to_mem_def using assms(2,3) a
    by (subst vma_to_mem_loop_in_region [where r = r]) (simp_all add: layout_ok_def)
  have "access_ok st ?a 1" using assms(3) ir by (auto simp: access_ok_def list_ex_iff)
  then obtain bs where bs: "guest_read st ?a 1 = Inr bs" using access_ok_read [OF assms(1,2)] by blast
  then obtain b where b: "bs = [b]"
    by (auto simp del: hread.simps simp: guest_read_eq_Inr hread_eq_Inr length_Suc_conv)
  with bs p have "cells (host st) (mem_base r + k) = Some b"
    by (simp del: hread.simps add: guest_read_eq_Inr hread_eq_Inr)
  with bs b show ?thesis by (simp add: guest_byte_Some)
qed

lemma main_init_initial:
  assumes "main_init files opens args h = Inr st" and "heap_ok h" and "state_ok st" and "layout_ok st"
  obtains bytes where "Option.bind (input_file args) files = Some bytes"
    "initial_machine bytes (abs_machine st)"
  using assms(1,2)
proof (cases rule: main_initE)
  case (1 bytes h1 ctx h2 d h3)
  from elf_init_stack [OF 1(3,2,4)] obtain rs stack where "load_regions ctx = rs @ [stack]"
    and e: "entry_point ctx = e_entry (ehdr_of bytes)" "heap_ok h2" by metis
  then have ne: "load_regions ctx \<noteq> []" by simp
  have "segment_bytes bytes (unat (e_phoff (ehdr_of bytes)) + i * unat (e_phentsize (ehdr_of bytes))) (guest_byte st)"
    if i: "i < unat (e_phnum (ehdr_of bytes))"
      "loadable bytes (unat (e_phoff (ehdr_of bytes)) + i * unat (e_phentsize (ehdr_of bytes)))" for i
  proof -
    let ?p = "unat (e_phoff (ehdr_of bytes)) + i * unat (e_phentsize (ehdr_of bytes))"
    obtain r where r: "r \<in> set (load_regions ctx)" "segment_image bytes ?p r h2"
      using elf_init_complete [OF 1(3,2) ne i] by blast
    have live: "cells h3 a = cells h2 a" if "live h2 a" for a
      using that e(2) 1(5) [OF e(2)] by (auto simp: later_heap_def heap_ok_def)
    from segment_image_frame [OF r(2) live] have "segment_image bytes ?p r (host st)" by (simp add: 1(6))
    moreover have "guest_byte st (vma_base r + of_nat k) = cells (host st) (mem_base r + k)"
      if "k < unat (sz_reserved r)" for k
      using guest_byte_region [OF assms(3,4)] r(1) that by (simp add: 1(6))
    ultimately show ?thesis by (auto simp: segment_image_def segment_bytes_def)
  qed
  moreover have "xget (abs_machine st) r = 0" if "r \<noteq> 2" for r
  proof -
    have "unat r \<noteq> 2" "unat r < 32" using that unsigned_less [of r] by (auto simp: word_unat_eq_iff)
    then show ?thesis by (simp add: 1(6) xget_def abs_machine_def reg_view_def nth_list_update)
  qed
  ultimately show ?thesis using e(1) by (intro that [OF 1(1)])
      (simp add: initial_machine_def Let_def abs_machine_def 1(6))
qed

section \<open>Whole programs\<close>

text \<open>The process a program starts as; \<open>b\<close> is its program break, the end of \<^verbatim>\<open>.bss\<close>.\<close>

definition initial_process :: "machine \<Rightarrow> nat \<Rightarrow> process" where
  "initial_process m b = \<lparr>cpu = m, fpu = (\<lambda>_. 0), brk_at = b, written = [], exited = None\<rparr>"

lemma main_init_break:
  assumes "main_init files opens args h = Inr st" and "heap_ok h" and "layout_ok st"
  shows "brk_inv st \<and> brk_pos st = brk_lo st \<and> brk_hi st = brk_lo st + 0x100000 \<and> trace st = [] \<and> float_view st = (\<lambda>_. 0)
    \<and> xget (abs_machine st) 2 = of_nat (brk_lo st + 0x1FFFFF)
    \<and> (\<exists>bytes a n. Option.bind (input_file args) files = Some bytes \<and> last_bss bytes a n \<and> brk_lo st = unat (a + n))"
  using assms(1,2)
proof (cases rule: main_initE)
  case (1 bytes h1 ctx h2 d h3)
  from elf_init_heap_stack [OF 1(3,2,4)] obtain rs heap stack where
    e: "load_regions ctx = rs @ [heap, stack]" "elf_get_heap_region ctx = Some (length rs)"
    "sz_alloc heap = 0" "sz_reserved heap = 0x100000" "sp ctx = vma_base heap + 0x100000 + 0xFFFFF"
    "\<exists>a n. last_bss bytes a n \<and> vma_base heap = a + n" by force
  then have hr: "heap_region st = heap" by (simp add: heap_region_def 1(6))
  have "region_fits heap"
    using assms(3) e(1) by (intro guest_layout_fits [of "load_regions (mem st)"]) (simp_all add: layout_ok_def 1(6))
  moreover have "float_view st = (\<lambda>_. 0)"
  proof
    fix r :: regno
    have "unat r < 32" using unsigned_less [of r] by simp
    then show "float_view st r = 0" by (simp add: float_view_def 1(6))
  qed
  moreover have "xget (abs_machine st) 2 = sp ctx"
    by (simp add: 1(6) xget_def abs_machine_def reg_view_def)
  moreover have "\<exists>bytes a n. Option.bind (input_file args) files = Some bytes \<and> last_bss bytes a n \<and> brk_lo st = unat (a + n)"
    using e(6) 1(1) unfolding brk_lo_def hr by metis
  ultimately show ?thesis
    using e(2-5) by (simp add: brk_inv_def brk_pos_def brk_lo_def brk_hi_def hr) (simp add: 1(6))
qed

lemma main_init_process:
  assumes "main_init files opens args h = Inr st" and "heap_ok h"
    and "\<forall>r\<in>set (load_regions (mem st)). sz_reserved r \<noteq> 0 \<longrightarrow> mem_base r \<noteq> 0" and "layout_ok st"
  obtains bytes m b a n where "Option.bind (input_file args) files = Some bytes" "initial_machine bytes m"
    "xget m 2 = of_nat (b + 0x1FFFFF)" "represents st (initial_process m b)" "brk_lo st = b" "brk_hi st = b + 0x100000"
    "last_bss bytes a n" "b = unat (a + n)"
proof -
  have ok: "state_ok st" "\<not> suspended st" using main_init_state_ok [OF assms(1-3)] by blast+
  from main_init_break [OF assms(1,2,4)] have br: "brk_inv st" "brk_pos st = brk_lo st"
    "brk_hi st = brk_lo st + 0x100000" "trace st = []" "float_view st = (\<lambda>_. 0)"
    "xget (abs_machine st) 2 = of_nat (brk_lo st + 0x1FFFFF)" by blast+
  obtain bytes where bytes: "Option.bind (input_file args) files = Some bytes"
    "initial_machine bytes (abs_machine st)" using main_init_initial [OF assms(1,2) ok(1) assms(4)] .
  with main_init_break [OF assms(1,2,4)] obtain a n where "last_bss bytes a n" "brk_lo st = unat (a + n)" by auto
  moreover note bytes
  moreover have "represents st (initial_process (abs_machine st) (brk_lo st))"
    using ok br assms(4) by (simp add: represents_def initial_process_def)
  ultimately show ?thesis using br(3,6) by (intro that [OF _ _ _ _ refl]) simp_all
qed

text \<open>
  C1: the emulator runs programs, as far as they are covered.  When the allocations succeed and the
  file's regions do not overlap, the state the main program starts with represents a process with
  the file's segments in memory, its entry point in the program counter, every register but the stack
  pointer zero, and a megabyte for its program break, which starts at the end of the file's last
  \<^verbatim>\<open>.bss\<close> section, with a megabyte of stack above it.  \<open>k\<close> iterations of the main loop that
  no breakpoint interrupts and that are covered are \<open>k\<close> steps of that process on the manual's machine,
  system calls included.  (An iteration is covered when its word, its memory operand or its buffer lies
  in one region and it is one of: an RV32IM instruction but \<^verbatim>\<open>FENCE\<close> and \<^verbatim>\<open>EBREAK\<close>, with no
  zero or overflowing division, no negative operand of \<open>MULH\<close> and no negative first operand of
  \<open>MULHSU\<close>; a load, store, move or format conversion of floats; or one of the five system calls.)
  The state after them has the process's registers, its memory and its program break, the host was
  handed what the process wrote, byte for byte and in order, and the emulator stops exactly when the
  process exits, having reported its exit code.
\<close>
theorem program_refines:
  assumes "main_init files opens args h = Inr st" and "heap_ok h"
    and "\<forall>r\<in>set (load_regions (mem st)). sz_reserved r \<noteq> 0 \<longrightarrow> mem_base r \<noteq> 0" and "layout_ok st"
    and "emu_steps env st k st'"
  shows "\<exists>bytes m a l b p. Option.bind (input_file args) files = Some bytes \<and> initial_machine bytes m
    \<and> last_bss bytes a l \<and> b = unat (a + l) \<and> xget m 2 = of_nat (b + 0x1FFFFF)
    \<and> process_run b (b + 0x100000) (initial_process m b) k p \<and> represents st' p
    \<and> main_loop (k + Suc n) env input st = (if exited p = None then main_loop (Suc n) env input st' else Some (Inr st'))"
proof -
  obtain bytes m b a u where i: "Option.bind (input_file args) files = Some bytes" "initial_machine bytes m"
    "xget m 2 = of_nat (b + 0x1FFFFF)" "represents st (initial_process m b)" "brk_lo st = b" "brk_hi st = b + 0x100000"
    "last_bss bytes a u" "b = unat (a + u)"
    using main_init_process [OF assms(1-4)] .
  from steps_refine [OF assms(5) i(4)] obtain p where
    p: "process_run b (b + 0x100000) (initial_process m b) k p"
      "represents st' p" "main_loop (k + Suc n) env input st = main_loop (Suc n) env input st'"
    unfolding i(5,6) by metis
  have "main_loop (Suc n) env input st' = Some (Inr st')" if "exited p \<noteq> None"
    using p(2) that by (intro main_loop_suspended) (simp add: represents_def)
  with p i(1-3,7,8) show ?thesis
    by (intro exI [of _ bytes] exI [of _ m] exI [of _ a] exI [of _ u] exI [of _ b] exI [of _ p])
      (simp del: main_loop.simps)
qed

text \<open>The example program: two \<^verbatim>\<open>li\<close> and an \<^verbatim>\<open>ecall\<close> that exits with 7.\<close>

lemma demo_covered:
  assumes "mem st = demo_space" and "pc st = 0x1000 + of_nat k" and "k + 4 \<le> 12"
  shows "access_ok st (pc st) 4"
proof -
  have "unat (pc st) = 0x1000 + k"
    using assms(2,3) by (simp add: unat_word_ariths unat_of_nat)
  then show ?thesis using assms(1,3) by (simp add: access_ok_def demo_space_def in_region_def)
qed

lemma demo_steps:
  obtains st st' where "main_init (\<lambda>_. Some demo_elf) opens demo_args demo_host = Inr st" "mem st = demo_space"
    "layout_ok st" "emu_steps env st 3 st'" "exit_codes (trace st') = [7]"
proof -
  obtain s0 where s0: "main_init (\<lambda>_. Some demo_elf) opens demo_args demo_host = Inr s0" "quiet s0"
    "mem s0 = demo_space" "pc s0 = 0x1000" "trace s0 = []"
    "\<forall>j<12. cells (host s0) (376 + j) = Some (demo_code ! j)"
    using demo_start by blast
  have lay: "layout_ok s0"
    by (simp add: layout_ok_def s0(3) demo_space_def guest_layout_def region_fits_def vmas_apart_def ranges_apart_def)
  have "state_ok s0" using main_init_state_ok [OF s0(1) demo_host_ok] demo_space_mapped s0(3) by simp
  then have g0: "good s0 (abs_machine s0)" using lay s0(2) by (simp add: good_def quiet_def)
  have f0: "rvstate_fetch s0 = Inr (encode (OpI ADDI 17 0 93))"
    using demo_fetch [OF s0(3) _ _ s0(6), of 0] s0(4) demo_words(1) by simp
  obtain l1 s1 where s1: "s1 = s0\<lparr>regs := (regs s0)[0 := 0, unat (17 :: regno) := scast (93 :: 12 word)],
      pc := pc s0 + 4, trace := trace s0 @ [Disasm l1]\<rparr>"
    "rvemu_step env s0 = Inr (True, s1)" "rvbkpt_poll s1 = (None, s1)"
    using step_li [OF s0(2) f0, of env] by metis
  have c0: "step_covered env s0"
    using step_covered_instr [OF _ f0] demo_covered [OF s0(3), of 0] s0(4) by simp
  have g1: "good s1 (abs_machine s1)" using step_refines [OF g0 f0, of env] s1(2) by auto
  have q1: "quiet s1" using s0(2,4) by (simp add: s1(1) quiet_def)
  have f1: "rvstate_fetch s1 = Inr (encode (OpI ADDI 10 0 7))"
    using demo_fetch [of s1 4] s0(3,4,6) demo_words(2) by (simp add: s1(1))
  obtain l2 s2 where s2: "s2 = s1\<lparr>regs := (regs s1)[0 := 0, unat (10 :: regno) := scast (7 :: 12 word)],
      pc := pc s1 + 4, trace := trace s1 @ [Disasm l2]\<rparr>"
    "rvemu_step env s1 = Inr (True, s2)" "rvbkpt_poll s2 = (None, s2)"
    using step_li [OF q1 f1, of env] by metis
  have c1: "step_covered env s1"
    using step_covered_instr [OF _ f1] demo_covered [of s1 4] s0(3,4) by (simp add: s1(1))
  have g2: "good s2 (abs_machine s2)" using step_refines [OF g1 f1, of env] s2(2) by auto
  have q2: "quiet s2" using q1 s0(4) by (simp add: s1(1) s2(1) quiet_def)
  have f2: "rvstate_fetch s2 = Inr 0x73"
    using demo_fetch [of s2 8] s0(3,4,6) demo_words(3) by (simp add: s1(1) s2(1))
  have r2: "regs s2 ! 17 = RV_SYSCALL__EXIT" "regs s2 ! 10 = 7" "length (regs s2) = 32"
    using s0(2) by (simp_all add: s1(1) s2(1) quiet_def RV_SYSCALL__EXIT_def)
  have c2: "step_covered env s2"
    using step_covered_exit [OF _ f2 r2(1)] demo_covered [of s2 8] s0(3,4) by (simp add: s1(1) s2(1))
  obtain s where s: "trace s = trace s2 @ [Disasm ''ECALL'']" "regs s = (regs s2)[0 := 0]"
    "bkpt_ev_arr s = map (check_event (pc s2) (insn_zero\<lparr>insn_ty := RV_INSN__ECALL\<rparr>)) (bkpt_ev_arr s2)"
    "rvemu_step env s2 = rbind (rvemu_dispatch_syscall env s) (\<lambda>s'. Inr (True, s'\<lparr>pc := pc s' + 4\<rparr>))"
    by (rule step_ecall [OF g2 f2, of env]) blast
  define s3 where "s3 = (emit (ExitNotice 7) s)\<lparr>suspended := True, pc := pc s + 4\<rparr>"
  have "rvemu_dispatch_syscall env s = Inr ((emit (ExitNotice 7) s)\<lparr>suspended := True\<rparr>)"
    using r2 by (simp add: call_defs rvsysc_exit_def s(2))
  then have st3: "rvemu_step env s2 = Inr (True, s3)" by (simp add: s(4) s3_def) (simp add: emit_def)
  have "bkpt_ev_arr s3 = bkpt_ev_arr s2"
    using quiet_check [OF q2] s(3) by (simp add: s3_def emit_def)
  then have p3: "rvbkpt_poll s3 = (None, s3)" using q2 by (intro quiet_poll) (simp add: quiet_def)
  have "\<not> suspended s0" "\<not> suspended s1" "\<not> suspended s2" using s0(2) q1 q2 by (simp_all add: quiet_def)
  then have "emu_steps env s0 (Suc (Suc (Suc 0))) s3"
    using c0 c1 c2 s1(2,3) s2(2,3) st3 p3 by (blast intro: steps_go steps_stop)
  moreover have "exit_codes (trace s3) = [7]"
    using s(1) s0(5) by (simp add: s3_def emit_def s1(1) s2(1))
  ultimately show ?thesis using s0(1,3) lay by (intro that) (simp_all add: numeral_3_eq_3)
qed

theorem program_refines_witness:
  "\<exists>st st' m b p. main_init (\<lambda>_. Some demo_elf) (\<lambda>_. True) demo_args demo_host = Inr st
    \<and> initial_machine demo_elf m \<and> process_run b (b + 0x100000) (initial_process m b) 3 p
    \<and> exited p = Some 7 \<and> represents st' p \<and> main_loop 4 demo_env ''s'' st = Some (Inr st')"
proof -
  obtain st st' where s: "main_init (\<lambda>_. Some demo_elf) (\<lambda>_. True) demo_args demo_host = Inr st"
    "mem st = demo_space" "layout_ok st" "emu_steps demo_env st 3 st'" "exit_codes (trace st') = [7]"
    using demo_steps by blast
  have "\<forall>r\<in>set (load_regions (mem st)). sz_reserved r \<noteq> 0 \<longrightarrow> mem_base r \<noteq> 0"
    using demo_space_mapped s(2) by simp
  from program_refines [OF s(1) demo_host_ok this s(3,4), of 0 "''s''"] obtain m b p where
    p: "initial_machine demo_elf m" "process_run b (b + 0x100000) (initial_process m b) 3 p" "represents st' p"
      "main_loop 4 demo_env ''s'' st
        = (if exited p = None then main_loop 1 demo_env ''s'' st' else Some (Inr st'))"
    by (auto simp: demo_args_def simp del: main_loop.simps)
  have "exited p = Some 7" using p(3) s(5) by (auto simp: represents_def split: option.splits)
  with p s(1) show ?thesis by auto
qed

end
