(* ===== verification/Debugging.thy ===== *)
theory Debugging
  imports ProgramRun
begin

text \<open>
  Runs with breakpoints and a user at the prompt: whatever is typed, a session executes the program
  as the process does, and ends only when the process exits.
\<close>

section \<open>What a session keeps\<close>

text \<open>
  A property of states, and of the number of instructions executed so far, that a step establishes
  again for one instruction more, without fault, and that the debugger keeps, which only prints and
  polls.
\<close>

locale session_property =
  fixes env :: host_env and Q :: "nat \<Rightarrow> rvstate \<Rightarrow> bool"
  assumes steps: "Q k st \<Longrightarrow> \<not> suspended st \<Longrightarrow> \<exists>st'. rvemu_step env st = Inr (True, st') \<and> Q (Suc k) st'"
    and prints: "Q k st \<Longrightarrow> Q k (emit (Stdout x) st)"
    and dumps: "Q k st \<Longrightarrow> Q k (rvtrbk_print_dump st)"
    and polls: "Q k st \<Longrightarrow> Q k (snd (rvbkpt_poll st))"
begin

lemma any_step:
  "Q k st \<Longrightarrow> \<exists>k' st'. rvemu_step env st = Inr (\<not> suspended st, st') \<and> Q k' st' \<and> k \<le> k' \<and> (suspended st \<longrightarrow> st' = st)"
proof (cases "suspended st")
  case True
  then show "Q k st \<Longrightarrow> ?thesis" by (auto simp: rvemu_step_def)
next
  case False
  then show "Q k st \<Longrightarrow> ?thesis" using steps [of k st] le_Suc_eq by auto
qed

lemma prompt: "Q k st \<Longrightarrow> \<exists>rest k' st'. bkpt_prompt env input st = Inr (rest, st') \<and> Q k' st' \<and> k \<le> k'"
proof (induction "length input" arbitrary: input k st rule: less_induct)
  case less
  let ?st = "emit (Stdout ''> '') st"
  have q: "Q k ?st" using less.prems by (rule prints)
  show ?case
  proof (cases "input = []")
    case True
    with q show ?thesis by (subst bkpt_prompt.simps) auto
  next
    case False
    obtain cmd more where c: "read_cmd input = (cmd, more)" by fastforce
    then have len: "length more < length input" using read_cmd_shorter [OF False] by simp
    obtain go k1 st1 where s: "rvemu_step env ?st = Inr (go, st1)" "Q k1 st1" "k \<le> k1"
      using any_step [OF q] by blast
    from less.hyps [OF len s(2)] s(3)
    have step: "\<exists>rest k' st'. bkpt_prompt env more st1 = Inr (rest, st') \<and> Q k' st' \<and> k \<le> k'"
      using order.trans by blast
    have go: "\<exists>rest k' st'. Inr (more, ?st) = (Inr (rest, st') :: (string \<times> rvstate) res) \<and> Q k' st' \<and> k \<le> k'"
      using q by blast
    from go step less.hyps [OF len dumps [OF q]] less.hyps [OF len prints [OF q]] show ?thesis
      unfolding bkpt_prompt.simps [of env input st] Let_def c prod.case s(1) rbind_simps by (simp only: False if_False split: if_split) blast
  qed
qed

lemma body:
  assumes "Q k st"
  shows "\<exists>rest k' st'. loop_body env input st = Inr (\<not> suspended st, rest, st') \<and> Q k' st'
    \<and> (if suspended st then st' = st else k < k')"
proof (cases "suspended st")
  case True
  with assms show ?thesis by (auto simp: loop_body_suspended)
next
  case False
  obtain st1 where s: "rvemu_step env st = Inr (True, st1)" "Q (Suc k) st1" using steps [OF assms False] by blast
  obtain ev st2 where poll: "rvbkpt_poll st1 = (ev, st2)" by fastforce
  then have q: "Q (Suc k) st2" using polls [OF s(2)] by simp
  show ?thesis
  proof (cases ev)
    case None
    with s(1) poll q False show ?thesis by (auto simp: loop_body_def)
  next
    case (Some e)
    obtain rest k' st' where "bkpt_user_loop env e input st2 = Inr (rest, st')" "Q k' st'" "Suc k \<le> k'"
      using prompt [OF prints [OF q]] unfolding bkpt_user_loop_def by blast
    with s(1) poll Some False show ?thesis by (auto simp: loop_body_def)
  qed
qed

lemma loop:
  "Q k st \<Longrightarrow> main_loop fuel env input st = Some r \<Longrightarrow> \<exists>k' st'. r = Inr st' \<and> Q k' st' \<and> suspended st'"
proof (induction fuel arbitrary: input k st)
  case 0
  then show ?case by simp
next
  case (Suc fuel)
  obtain rest k' st' where b: "loop_body env input st = Inr (\<not> suspended st, rest, st')" "Q k' st'"
    "if suspended st then st' = st else k < k'"
    using body [OF Suc.prems(1)] by blast
  show ?case
  proof (cases "suspended st")
    case True
    with b Suc.prems show ?thesis by auto
  next
    case False
    with b(1) Suc.prems(2) have "main_loop fuel env rest st' = Some r" by simp
    with Suc.IH [OF b(2)] show ?thesis by blast
  qed
qed

lemma loop_progress:
  "Q k st \<Longrightarrow> main_loop fuel env input st = None \<Longrightarrow> \<exists>k' st'. Q k' st' \<and> k + fuel \<le> k'"
proof (induction fuel arbitrary: input k st)
  case 0
  then show ?case by auto
next
  case (Suc fuel)
  obtain rest k' st' where b: "loop_body env input st = Inr (\<not> suspended st, rest, st')" "Q k' st'"
    "if suspended st then st' = st else k < k'"
    using body [OF Suc.prems(1)] by blast
  with Suc.prems(2) have "\<not> suspended st" "main_loop fuel env rest st' = None" by (auto split: if_splits)
  with Suc.IH [OF b(2)] b(3) show ?case by fastforce
qed

end

section \<open>Programs that stay covered\<close>

text \<open>
  From the state on, as long as the program runs its steps are covered, whatever is printed and
  polled in between.
\<close>

coinductive stays_covered :: "host_env \<Rightarrow> rvstate \<Rightarrow> bool" for env where
  stays: "(\<not> suspended st \<Longrightarrow> step_covered env st) \<Longrightarrow>
    (\<And>st'. \<not> suspended st \<Longrightarrow> rvemu_step env st = Inr (True, st') \<Longrightarrow> stays_covered env st') \<Longrightarrow>
    (\<And>x. stays_covered env (emit (Stdout x) st)) \<Longrightarrow> stays_covered env (rvtrbk_print_dump st) \<Longrightarrow>
    stays_covered env (snd (rvbkpt_poll st)) \<Longrightarrow> stays_covered env st"

lemma stays_coveredD:
  assumes "stays_covered env st"
  shows "\<not> suspended st \<Longrightarrow> step_covered env st"
    and "\<not> suspended st \<Longrightarrow> rvemu_step env st = Inr (True, st') \<Longrightarrow> stays_covered env st'"
    and "stays_covered env (emit (Stdout x) st)" and "stays_covered env (rvtrbk_print_dump st)"
    and "stays_covered env (snd (rvbkpt_poll st))"
  using assms by (auto elim: stays_covered.cases)

text \<open>The state represents a process that \<open>k\<close> steps lead to from \<open>p0\<close>, and the program stays covered.\<close>

definition in_session :: "host_env \<Rightarrow> nat \<Rightarrow> nat \<Rightarrow> process \<Rightarrow> nat \<Rightarrow> rvstate \<Rightarrow> bool" where
  "in_session env lo hi p0 k st \<longleftrightarrow> stays_covered env st \<and> brk_lo st = lo \<and> brk_hi st = hi
     \<and> (\<exists>p. process_run lo hi p0 k p \<and> represents st p)"

lemma process_run_snoc:
  "process_run lo hi p k p' \<Longrightarrow> process_step lo hi p' p'' \<Longrightarrow> process_run lo hi p (Suc k) p''"
  by (induction rule: process_run.induct) (auto intro: process_run.intros)

lemma represents_trace:
  assumes "represents st p" and "host_writes es = []" and "exit_codes es = []"
  shows "represents (st\<lparr>trace := trace st @ es\<rparr>) p"
proof -
  let ?s = "st\<lparr>trace := trace st @ es\<rparr>"
  show ?thesis
    using assms brk_cong [of ?s st] guest_byte_cong [of ?s st] float_view_cong [of ?s st]
    by (simp add: represents_def abs_machine_def layout_ok_def state_ok_def regs_wf_def fregs_wf_def)
qed

lemma stdout_views: "(\<And>e. e \<in> set es \<Longrightarrow> \<exists>x. e = Stdout x) \<Longrightarrow> host_writes es = [] \<and> exit_codes es = []"
  by (induction es) fastforce+

lemma dump_trace:
  obtains es where "rvtrbk_print_dump st = st\<lparr>trace := trace st @ es\<rparr>" "host_writes es = []" "exit_codes es = []"
proof -
  have "\<exists>es. rvtrbk_print_dump st = st\<lparr>trace := trace st @ es\<rparr> \<and> (\<forall>e\<in>set es. \<exists>x. e = Stdout x)"
    unfolding rvtrbk_print_dump_def by (rule exI, rule conjI, rule refl) auto
  with stdout_views that show ?thesis by blast
qed

interpretation process_session: session_property env "in_session env lo hi p0" for env lo hi p0
proof
  fix k st assume q: "in_session env lo hi p0 k st"
  then obtain p where rep: "process_run lo hi p0 k p" "represents st p" by (auto simp: in_session_def)
  have cov: "stays_covered env st" and b: "brk_lo st = lo" "brk_hi st = hi" using q by (simp_all add: in_session_def)
  show "\<exists>st'. rvemu_step env st = Inr (True, st') \<and> in_session env lo hi p0 (Suc k) st'" if run: "\<not> suspended st"
  proof -
    have "exited p = None" using rep(2) run by (simp add: represents_def)
    from step_process [OF rep(2) stays_coveredD(1) [OF cov run] this] obtain st' p' where
      s: "rvemu_step env st = Inr (True, st')" "process_step lo hi p p'" "represents st' p'"
      "brk_lo st' = lo" "brk_hi st' = hi" by (auto simp: b)
    with process_run_snoc [OF rep(1) s(2)] stays_coveredD(2) [OF cov run s(1)] show ?thesis
      by (auto simp: in_session_def)
  qed
  have "represents (emit (Stdout x) st) p" for x
    unfolding emit_def by (rule represents_trace [OF rep(2)]) simp_all
  then show "in_session env lo hi p0 k (emit (Stdout x) st)" for x
    using rep(1) b stays_coveredD(3) [OF cov] brk_cong [of "emit (Stdout x) st" st]
    by (auto simp: in_session_def emit_def)
  obtain es where es: "rvtrbk_print_dump st = st\<lparr>trace := trace st @ es\<rparr>" "host_writes es = []" "exit_codes es = []"
    by (rule dump_trace)
  from represents_trace [OF rep(2) es(2,3)] show "in_session env lo hi p0 k (rvtrbk_print_dump st)"
    using rep(1) b stays_coveredD(4) [OF cov] brk_cong [of "rvtrbk_print_dump st" st]
    by (auto simp: in_session_def es(1))
  obtain ev s where poll: "rvbkpt_poll st = (ev, s)" by fastforce
  from poll_represents [OF this rep(2)] show "in_session env lo hi p0 k (snd (rvbkpt_poll st))"
    using rep(1) b stays_coveredD(5) [OF cov] by (auto simp: in_session_def poll)
qed

text \<open>The session starts with the process of the file, at the end of \<^verbatim>\<open>.bss\<close>.\<close>

lemma session_starts:
  assumes "main_init files opens args h = Inr st" and "heap_ok h"
    and "\<forall>r\<in>set (load_regions (mem st)). sz_reserved r \<noteq> 0 \<longrightarrow> mem_base r \<noteq> 0" and "layout_ok st"
    and "stays_covered env st"
  obtains bytes m b a l where "Option.bind (input_file args) files = Some bytes" "initial_machine bytes m"
    "last_bss bytes a l" "b = unat (a + l)" "in_session env b (b + 0x100000) (initial_process m b) 0 st"
proof -
  obtain bytes m b a l where i: "Option.bind (input_file args) files = Some bytes" "initial_machine bytes m"
    "represents st (initial_process m b)" "brk_lo st = b" "brk_hi st = b + 0x100000" "last_bss bytes a l" "b = unat (a + l)"
    using main_init_process [OF assms(1-4)] .
  moreover have "in_session env b (b + 0x100000) (initial_process m b) 0 st"
    unfolding in_session_def using assms(5) i(3-5) run_stop by blast
  ultimately show ?thesis by (intro that)
qed

text \<open>
  C2: the debugger does not disturb the program.  Take a program all of whose steps stay covered (in
  the sense of \<open>step_covered\<close>, and so on after it, whatever is printed and polled in between).  If the main
  loop ends, whatever the breakpoints and whatever the user types at the prompt, it ends without a
  fault, in a state that represents the exited process at the end of a run from the image of the file.
\<close>
theorem debugged_program:
  assumes "main_init files opens args h = Inr st" and "heap_ok h"
    and "\<forall>r\<in>set (load_regions (mem st)). sz_reserved r \<noteq> 0 \<longrightarrow> mem_base r \<noteq> 0" and "layout_ok st"
    and "stays_covered env st" and "main_loop fuel env input st = Some r"
  shows "\<exists>bytes m a l b k p st'. Option.bind (input_file args) files = Some bytes \<and> initial_machine bytes m
    \<and> last_bss bytes a l \<and> b = unat (a + l) \<and> process_run b (b + 0x100000) (initial_process m b) k p
    \<and> r = Inr st' \<and> represents st' p \<and> exited p \<noteq> None"
proof -
  obtain bytes m b a l where i: "Option.bind (input_file args) files = Some bytes" "initial_machine bytes m"
    "last_bss bytes a l" "b = unat (a + l)" "in_session env b (b + 0x100000) (initial_process m b) 0 st"
    using session_starts [OF assms(1-5)] .
  from process_session.loop [OF i(5) assms(6)] obtain k st' where
    st': "r = Inr st'" "in_session env b (b + 0x100000) (initial_process m b) k st'" "suspended st'" by blast
  then obtain p where p: "process_run b (b + 0x100000) (initial_process m b) k p" "represents st' p"
    by (auto simp: in_session_def)
  with st'(3) have "exited p \<noteq> None" by (simp add: represents_def)
  with i(1-4) p st'(1) show ?thesis by blast
qed

text \<open>
  C21: the main loop makes progress.  For a program whose steps stay covered, every iteration executes
  at least one instruction, at whatever breakpoints it stops and whatever the user types: when the loop
  has not returned within \<open>fuel\<close> iterations, the process has a run of at least \<open>fuel\<close> steps from the
  image of the file.  So the emulator returns from every program whose runs are bounded.
\<close>
theorem main_loop_progress:
  assumes "main_init files opens args h = Inr st" and "heap_ok h"
    and "\<forall>r\<in>set (load_regions (mem st)). sz_reserved r \<noteq> 0 \<longrightarrow> mem_base r \<noteq> 0" and "layout_ok st"
    and "stays_covered env st" and "main_loop fuel env input st = None"
  shows "\<exists>bytes m a l b k p. Option.bind (input_file args) files = Some bytes \<and> initial_machine bytes m
    \<and> last_bss bytes a l \<and> b = unat (a + l) \<and> fuel \<le> k
    \<and> process_run b (b + 0x100000) (initial_process m b) k p"
proof -
  obtain bytes m b a l where i: "Option.bind (input_file args) files = Some bytes" "initial_machine bytes m"
    "last_bss bytes a l" "b = unat (a + l)" "in_session env b (b + 0x100000) (initial_process m b) 0 st"
    using session_starts [OF assms(1-5)] .
  from process_session.loop_progress [OF i(5) assms(6)] obtain k p where
    "process_run b (b + 0x100000) (initial_process m b) k p" "fuel \<le> k" by (auto simp: in_session_def)
  with i(1-4) show ?thesis by blast
qed

section \<open>The example stays covered\<close>

lemma good_trace: "good st m \<Longrightarrow> good (st\<lparr>trace := t\<rparr>) m"
  using guest_byte_cong [of "st\<lparr>trace := t\<rparr>" st]
  by (simp add: good_def abs_machine_def layout_ok_def state_ok_def regs_wf_def fregs_wf_def)

lemma good_shown:
  assumes "good st m"
  shows "good (emit e st) m" "good (rvtrbk_print_dump st) m" "good (snd (rvbkpt_poll st)) m"
proof -
  show "good (emit e st) m" "good (rvtrbk_print_dump st) m"
    using good_trace [OF assms] by (simp_all add: emit_def rvtrbk_print_dump_def)
  obtain ev s where poll: "rvbkpt_poll st = (ev, s)" by fastforce
  then have fr: "mem s = mem st" "host s = host st" "regs s = regs st" "pc s = pc st" "suspended s = suspended st"
    by (auto simp: rvbkpt_poll_def split: prod.splits)
  have "state_ok s" using run_state_ok.keeps_poll [of st] poll assms by (simp add: good_def)
  with fr guest_byte_cong [OF fr(1,2)] assms show "good (snd (rvbkpt_poll st)) m"
    by (simp add: poll good_def layout_ok_def abs_machine_def)
qed

lemma shown_frame [simp]:
  "mem (emit e st) = mem st" "mem (rvtrbk_print_dump st) = mem st" "mem (snd (rvbkpt_poll st)) = mem st"
  "suspended (emit e st) = suspended st" "suspended (rvtrbk_print_dump st) = suspended st"
  "suspended (snd (rvbkpt_poll st)) = suspended st"
  by (simp_all add: emit_def rvtrbk_print_dump_def rvbkpt_poll_def split: prod.split)

text \<open>What the reference machine fetches in a region the emulator fetches too.\<close>

lemma fetch_complete:
  assumes "good st m" and "access_ok st (pc st) 4" and "xfetch m = Some w"
  shows "rvstate_fetch st = Inr w"
proof -
  have ok: "state_ok st" "layout_ok st" using assms(1) by (simp_all add: good_def)
  obtain bs where bs: "xload (guest_byte st) (pc st) 4 = Some bs" "w = le_word bs"
    using assms(3) by (auto simp: xfetch_def good_mem [OF assms(1)] good_pc [OF assms(1)])
  with guest_read_xload [OF ok assms(2)] have "guest_read st (pc st) 4 = Inr bs" by blast
  then show ?thesis by (simp add: rvstate_fetch_def guest_read_eq_Inr bs(2) Let_def)
qed

lemma demo_xfetch:
  assumes "good st (abs_machine st)" and "mem st = demo_space" and "\<forall>j<12. cells (host st) (376 + j) = Some (demo_code ! j)"
    and "xmem m = guest_byte st" and "xpc m = 0x1000 + of_nat k" and "k + 4 \<le> 12"
  shows "xfetch m = Some (le_word (take 4 (drop k demo_code)))"
proof -
  let ?s = "st\<lparr>pc := 0x1000 + of_nat k\<rparr>"
  have g: "good ?s (abs_machine ?s)" using good_pc_update [OF assms(1)] by (simp add: abs_machine_def)
  have "rvstate_fetch ?s = Inr (le_word (take 4 (drop k demo_code)))"
    using assms(2,3,6) by (intro demo_fetch) simp_all
  moreover have "access_ok ?s (pc ?s) 4" using assms(2,6) by (intro demo_covered) simp_all
  ultimately have "xfetch (abs_machine ?s) = Some (le_word (take 4 (drop k demo_code)))"
    using fetch_refines [OF g] by blast
  then show ?thesis using assms(4,5) by (simp add: xfetch_def abs_machine_def)
qed

text \<open>The three machines the example goes through.\<close>

lemma demo_machines:
  obtains st m1 m2 where "main_init (\<lambda>_. Some demo_elf) opens demo_args demo_host = Inr st" "mem st = demo_space"
    "good st (abs_machine st)" "xpc (abs_machine st) = 0x1000 + of_nat 0"
    "xfetch (abs_machine st) = Some (encode (OpI ADDI 17 0 93))"
    "isa_exec (OpI ADDI 17 0 93) (abs_machine st) = Some m1" "xpc m1 = 0x1000 + of_nat 4"
    "xfetch m1 = Some (encode (OpI ADDI 10 0 7))" "isa_exec (OpI ADDI 10 0 7) m1 = Some m2"
    "xpc m2 = 0x1000 + of_nat 8" "xfetch m2 = Some 0x73" "xget m2 17 = 93"
proof -
  obtain st where s: "main_init (\<lambda>_. Some demo_elf) opens demo_args demo_host = Inr st" "quiet st"
    "mem st = demo_space" "pc st = 0x1000" "\<forall>j<12. cells (host st) (376 + j) = Some (demo_code ! j)"
    using demo_start by blast
  have "layout_ok st"
    by (simp add: layout_ok_def s(3) demo_space_def guest_layout_def region_fits_def vmas_apart_def ranges_apart_def)
  moreover have "state_ok st" using main_init_state_ok [OF s(1) demo_host_ok] demo_space_mapped s(3) by simp
  ultimately have g: "good st (abs_machine st)" using s(2) by (simp add: good_def quiet_def)
  note x = demo_xfetch [OF g s(3,5)]
  let ?m = "abs_machine st"
  let ?m1 = "xnext (xset 17 93 ?m)" and ?m2 = "xnext (xset 10 7 (xnext (xset 17 93 ?m)))"
  have m: "xmem ?m = guest_byte st" "xpc ?m = 0x1000" using s(4) by (simp_all add: abs_machine_def)
  then have m1: "xmem ?m1 = guest_byte st" "xpc ?m1 = 0x1004" and m2: "xmem ?m2 = guest_byte st" "xpc ?m2 = 0x1008"
    by (simp_all add: xnext_def xset_def)
  have "xget ?m2 17 = 93" by (simp add: xget_def xnext_def xset_def)
  moreover have "isa_exec (OpI ADDI 17 0 93) ?m = Some ?m1" "isa_exec (OpI ADDI 10 0 7) ?m1 = Some ?m2"
    by (simp_all add: xget_def)
  ultimately show ?thesis
    using x [OF m(1), of 0] x [OF m1(1), of 4] x [OF m2(1), of 8] m m1 m2 demo_words s(1,3) g
    by (intro that [of st ?m1 ?m2]) simp_all
qed

lemma demo_instr:
  assumes "good s m" and "mem s = demo_space" and "xpc m = 0x1000 + of_nat k" and "k + 4 \<le> 12"
    and "xfetch m = Some (encode (OpI ADDI d s1 im))" and "isa_exec (OpI ADDI d s1 im) m = Some m'"
  shows "step_covered env s"
    and "rvemu_step env s = Inr (True, s') \<Longrightarrow> mem s' = demo_space \<and> good s' m'"
proof -
  have m: "m = abs_machine s" and pc: "pc s = 0x1000 + of_nat k"
    using assms(1,3) good_pc [OF assms(1)] by (simp_all add: good_def)
  note g = assms(1) [unfolded m]
  have acc: "access_ok s (pc s) 4" using demo_covered [OF assms(2) pc assms(4)] .
  have f: "rvstate_fetch s = Inr (encode (OpI ADDI d s1 im))" using fetch_complete [OF assms(1) acc assms(5)] .
  show "step_covered env s" by (rule step_covered_instr [OF acc f]) simp
  show "mem s' = demo_space \<and> good s' m'" if r: "rvemu_step env s = Inr (True, s')"
    using step_refines [OF g f, of env] step_frame [OF g f r] assms(2,6) r unfolding m by auto
qed

lemma demo_ecall:
  assumes "good s m" and "mem s = demo_space" and "xpc m = 0x1000 + of_nat k" and "k + 4 \<le> 12"
    and "xfetch m = Some 0x73" and "xget m 17 = 93"
  shows "step_covered env s" and "rvemu_step env s = Inr (True, s') \<Longrightarrow> suspended s'"
proof -
  have m: "m = abs_machine s" and run: "\<not> suspended s" and pc: "pc s = 0x1000 + of_nat k"
    using assms(1,3) good_pc [OF assms(1)] by (simp_all add: good_def)
  have acc: "access_ok s (pc s) 4" using demo_covered [OF assms(2) pc assms(4)] .
  have f: "rvstate_fetch s = Inr 0x73" using fetch_complete [OF assms(1) acc assms(5)] .
  have r: "regs s ! 17 = RV_SYSCALL__EXIT"
    using assms(6) by (simp add: m xget_def abs_machine_def reg_view_def RV_SYSCALL__EXIT_def)
  show "step_covered env s" by (rule step_covered_exit [OF acc f r])
  show "suspended s'" if "rvemu_step env s = Inr (True, s')"
    using step_ecall_exit [OF run f r, of env] that by auto
qed

lemma demo_stays_covered:
  obtains st where "main_init (\<lambda>_. Some demo_elf) opens demo_args demo_host = Inr st" "mem st = demo_space"
    "layout_ok st" "stays_covered env st"
proof -
  obtain st m1 m2 where d: "main_init (\<lambda>_. Some demo_elf) opens demo_args demo_host = Inr st" "mem st = demo_space"
    "good st (abs_machine st)" "xpc (abs_machine st) = 0x1000 + of_nat 0"
    "xfetch (abs_machine st) = Some (encode (OpI ADDI 17 0 93))"
    "isa_exec (OpI ADDI 17 0 93) (abs_machine st) = Some m1" "xpc m1 = 0x1000 + of_nat 4"
    "xfetch m1 = Some (encode (OpI ADDI 10 0 7))" "isa_exec (OpI ADDI 10 0 7) m1 = Some m2"
    "xpc m2 = 0x1000 + of_nat 8" "xfetch m2 = Some 0x73" "xget m2 17 = 93"
    by (rule demo_machines)
  define X where "X s \<longleftrightarrow> suspended s
    \<or> mem s = demo_space \<and> (good s (abs_machine st) \<or> good s m1 \<or> good s m2)" for s
  have shown: "X s \<Longrightarrow> X (emit e s) \<and> X (rvtrbk_print_dump s) \<and> X (snd (rvbkpt_poll s))" for s e
    by (auto simp: X_def good_shown)
  have steps: "step_covered env s \<and> (\<forall>s'. rvemu_step env s = Inr (True, s') \<longrightarrow> X s')"
    if x: "X s" and run: "\<not> suspended s" for s
  proof -
    have m: "mem s = demo_space" using x run by (simp add: X_def)
    from x run consider "good s (abs_machine st)" | "good s m1" | "good s m2" by (auto simp: X_def)
    then show ?thesis
    proof cases
      case 1
      from demo_instr [OF 1 m d(4) _ d(5,6)] show ?thesis by (auto simp: X_def)
    next
      case 2
      from demo_instr [OF 2 m d(7) _ d(8,9)] show ?thesis by (auto simp: X_def)
    next
      case 3
      from demo_ecall [OF 3 m d(10) _ d(11,12)] show ?thesis by (auto simp: X_def)
    qed
  qed
  have "X st" using d(2,3) by (simp add: X_def)
  then have "stays_covered env st"
    by (coinduction arbitrary: st rule: stays_covered.coinduct) (use steps shown in blast)
  moreover have "layout_ok st" using d(3) by (simp add: good_def)
  ultimately show ?thesis using d(1,2) by (intro that)
qed

lemma demo_ends:
  assumes "main_init (\<lambda>_. Some demo_elf) opens demo_args demo_host = Inr st"
  shows "\<exists>r. main_loop 4 env input st = Some r" and "main_loop 3 env input st = None"
proof -
  obtain s s' where s: "main_init (\<lambda>_. Some demo_elf) opens demo_args demo_host = Inr s" "mem s = demo_space"
    "layout_ok s" "emu_steps env s 3 s'" "exit_codes (trace s') = [7]" by (rule demo_steps)
  with assms have st: "st = s" by simp
  have mapped: "\<forall>r\<in>set (load_regions (mem s)). sz_reserved r \<noteq> 0 \<longrightarrow> mem_base r \<noteq> 0"
    unfolding s(2) by (rule demo_space_mapped)
  obtain m b where rep: "represents s (initial_process m b)"
    by (rule main_init_process [OF s(1) demo_host_ok mapped s(3)]) blast
  from steps_refine [OF s(4) rep, of 1 input] obtain p where
    p: "represents s' p" "main_loop (3 + 1) env input s = main_loop 1 env input s'" by blast
  then have "suspended s'" using s(5) by (auto simp: represents_def split: option.splits)
  from main_loop_suspended [OF this, of 0] p(2) show "\<exists>r. main_loop 4 env input st = Some r" by (simp add: st)
  from steps_refine [OF s(4) rep, of 0 input] show "main_loop 3 env input st = None"
    unfolding st by (simp del: main_loop.simps(2))
qed

lemma demo_session:
  obtains st where "main_init (\<lambda>_. Some demo_elf) (\<lambda>_. True) demo_args demo_host = Inr st"
    "\<forall>r\<in>set (load_regions (mem st)). sz_reserved r \<noteq> 0 \<longrightarrow> mem_base r \<noteq> 0" "layout_ok st"
    "stays_covered demo_env st" "Option.bind (input_file demo_args) (\<lambda>_. Some demo_elf) = Some demo_elf"
proof -
  obtain st where s: "main_init (\<lambda>_. Some demo_elf) (\<lambda>_. True) demo_args demo_host = Inr st"
    "mem st = demo_space" "layout_ok st" "stays_covered demo_env st"
    by (rule demo_stays_covered)
  moreover have "Option.bind (input_file demo_args) (\<lambda>_. Some demo_elf) = Some demo_elf" by (simp add: demo_args_def)
  moreover have "\<forall>r\<in>set (load_regions (mem st)). sz_reserved r \<noteq> 0 \<longrightarrow> mem_base r \<noteq> 0"
    unfolding s(2) by (rule demo_space_mapped)
  ultimately show ?thesis by (intro that)
qed

theorem debugged_program_witness:
  "\<exists>st r m b k p st'. main_init (\<lambda>_. Some demo_elf) (\<lambda>_. True) demo_args demo_host = Inr st
    \<and> main_loop 4 demo_env ''s'' st = Some r \<and> r = Inr st' \<and> initial_machine demo_elf m
    \<and> process_run b (b + 0x100000) (initial_process m b) k p \<and> represents st' p \<and> exited p \<noteq> None"
proof -
  obtain st where s: "main_init (\<lambda>_. Some demo_elf) (\<lambda>_. True) demo_args demo_host = Inr st"
    "\<forall>r\<in>set (load_regions (mem st)). sz_reserved r \<noteq> 0 \<longrightarrow> mem_base r \<noteq> 0" "layout_ok st"
    "stays_covered demo_env st" "Option.bind (input_file demo_args) (\<lambda>_. Some demo_elf) = Some demo_elf"
    by (rule demo_session)
  obtain r where r: "main_loop 4 demo_env ''s'' st = Some r"
    using demo_ends(1) [OF s(1)] by blast
  from debugged_program [OF s(1) demo_host_ok s(2-4) r] obtain m b k p st' where
    "initial_machine demo_elf m" "process_run b (b + 0x100000) (initial_process m b) k p"
    "r = Inr st'" "represents st' p" "exited p \<noteq> None" unfolding s(5) by auto
  with s(1) r show ?thesis
    by (intro exI [of _ st] exI [of _ r] exI [of _ m] exI [of _ b] exI [of _ k] exI [of _ p] exI [of _ st'] conjI)
qed

theorem main_loop_progress_witness:
  "\<exists>st m b k p. main_init (\<lambda>_. Some demo_elf) (\<lambda>_. True) demo_args demo_host = Inr st
    \<and> main_loop 3 demo_env ''s'' st = None \<and> initial_machine demo_elf m
    \<and> 3 \<le> k \<and> process_run b (b + 0x100000) (initial_process m b) k p"
proof -
  obtain st where s: "main_init (\<lambda>_. Some demo_elf) (\<lambda>_. True) demo_args demo_host = Inr st"
    "\<forall>r\<in>set (load_regions (mem st)). sz_reserved r \<noteq> 0 \<longrightarrow> mem_base r \<noteq> 0" "layout_ok st"
    "stays_covered demo_env st" "Option.bind (input_file demo_args) (\<lambda>_. Some demo_elf) = Some demo_elf"
    by (rule demo_session)
  note r = demo_ends(2) [OF s(1), of demo_env "''s''"]
  from main_loop_progress [OF s(1) demo_host_ok s(2-4) r] obtain m b k p where
    "initial_machine demo_elf m" "3 \<le> k" "process_run b (b + 0x100000) (initial_process m b) k p"
    unfolding s(5) by auto
  with s(1) r show ?thesis
    by (intro exI [of _ st] exI [of _ m] exI [of _ b] exI [of _ k] exI [of _ p] conjI)
qed

end
