(* ===== verification/Divergence.thy ===== *)
theory Divergence
  imports Refinement
begin

text \<open>
  Where the emulator departs from the RISC-V manual, as theorems: the high products, division by
  zero, the floating-point instructions whose rounding-mode field is taken for the operand format,
  and the decoder and disassembler entries that name the wrong instruction or register.
\<close>

section \<open>Multiplication and division\<close>

lemma uint_sint_cases: "uint (a :: u32) = (if 0 \<le> sint a then sint a else sint a + 2 ^ 32)"
proof -
  have m: "uint a = sint a mod 2 ^ 32" using uint_sint [of a] by (simp add: take_bit_eq_mod)
  have b: "sint a < 2 ^ 31" "- (2 ^ 31) \<le> sint a"
    using sint_lt [of a] sint_ge [of a] by simp_all
  show ?thesis
  proof (cases "0 \<le> sint a")
    case True
    with b m show ?thesis by simp
  next
    case False
    have "sint a mod 2 ^ 32 = (sint a + 2 ^ 32) mod 2 ^ 32" by simp
    also have "\<dots> = sint a + 2 ^ 32" using b False by (intro mod_pos_pos_trivial) simp_all
    finally show ?thesis using m False by simp
  qed
qed

text \<open>For a negative first operand the two high products differ by the second operand.\<close>

lemma mulhsu_mulhu:
  assumes "sint a < 0"
  shows "alu MULHU a b = alu MULHSU a b + b"
proof -
  have "uint a * uint b div 2 ^ 32 = (sint a * uint b + uint b * 2 ^ 32) div 2 ^ 32"
    using assms by (simp add: uint_sint_cases [of a] algebra_simps)
  also have "\<dots> = sint a * uint b div 2 ^ 32 + uint b" by simp
  finally have "uint a * uint b div 2 ^ 32 = sint a * uint b div 2 ^ 32 + uint b" .
  then show ?thesis by simp
qed

lemma mulhsu_mulhu_iff: "alu MULHSU a b \<noteq> alu MULHU a b \<longleftrightarrow> sint a < 0 \<and> b \<noteq> 0"
proof (cases "sint a < 0")
  case True
  then show ?thesis using mulhsu_mulhu [OF True, of b] by (simp del: alu.simps)
next
  case False
  then show ?thesis using sint_nonneg [of a] by simp
qed

text \<open>Two results leave the same machine exactly if they are equal or go to \<open>x0\<close>.\<close>

lemma xnext_xset_eq_iff: "xnext (xset d v m) = xnext (xset d w m) \<longleftrightarrow> d = 0 \<or> v = w"
proof
  assume "xnext (xset d v m) = xnext (xset d w m)"
  then have "xregs (xnext (xset d v m)) d = xregs (xnext (xset d w m)) d" by simp
  then show "d = 0 \<or> v = w" by (simp add: xnext_def xset_def split: if_splits)
qed (auto simp: xset_def)

lemma mulh_executes_mulhu:
  assumes "ready s m" and "f = MULHSU \<or> f = MULH \<and> 0 \<le> sint (xget m s2)"
  shows "dispatch_switch env (decoded (OpR f d s1 s2)) s = dispatch_switch env (decoded (OpR MULHU d s1 s2)) s"
proof (cases "f = MULHSU")
  case False
  with assms(2) have f: "f = MULH" and b: "0 \<le> sint (xget m s2)" by auto
  have "uint (xget m s1) * uint (xget m s2) < 2 ^ 32 * 2 ^ 31"
    using sint_nonneg [OF b] uint_lt2p [of "xget m s1"] by (intro mult_strict_mono') simp_all
  then have "mul_i64 (uint (xget m s1)) (uint (xget m s2)) = Inr (uint (xget m s1) * uint (xget m s2))"
    by (simp add: mul_i64_def order.trans [of _ 0])
  then show ?thesis
    by (simp add: f exec_defs insn_zero_def ready_reg [OF assms(1)] mulhu_value Let_def drop_bit_eq_div)
qed (simp add: exec_defs insn_zero_def)

text \<open>
  C38: \<open>MULHSU\<close> computes the unsigned high product, and so does \<open>MULH\<close> when its second operand is not
  negative.  The step on such a word is always the step the manual prescribes for \<open>MULHU\<close>, and it is
  wrong for the instruction itself exactly if the first operand is negative, the second operand is
  not zero and the destination is not \<open>x0\<close>.
\<close>
theorem mulhsu_is_mulhu:
  assumes "state_ok st" and "layout_ok st" and "\<not> suspended st"
    and "rvstate_fetch st = Inr (encode (OpR f d s1 s2))"
    and "f = MULHSU \<or> f = MULH \<and> 0 \<le> sint (xget (abs_machine st) s2)"
  shows "\<exists>st'. rvemu_step env st = Inr (True, st')
    \<and> isa_exec (OpR MULHU d s1 s2) (abs_machine st) = Some (abs_machine st')
    \<and> (isa_exec (OpR f d s1 s2) (abs_machine st) \<noteq> Some (abs_machine st')
       \<longleftrightarrow> sint (xget (abs_machine st) s1) < 0 \<and> xget (abs_machine st) s2 \<noteq> 0 \<and> d \<noteq> 0)"
proof -
  let ?m = "abs_machine st"
  have "good st ?m" using assms(1-3) by (simp add: good_def)
  then obtain s where s: "ready s ?m"
    "rvemu_step env st = rbind (dispatch_switch env (decoded (OpR f d s1 s2)) s) (\<lambda>fl. Inr (True, flow_end fl))"
    using step_of_encoding [OF _ assms(4) computes_OpR] by metis
  from refines_OpR [OF s(1), of MULHU s1 s2 d env] obtain fl where
    fl: "dispatch_switch env (decoded (OpR MULHU d s1 s2)) s = Inr fl"
      "abs_machine (flow_end fl) = xnext (xset d (alu MULHU (xget ?m s1) (xget ?m s2)) ?m)"
    by (auto simp: exec_refines_def good_def)
  have "alu f (xget ?m s1) (xget ?m s2) = alu MULHSU (xget ?m s1) (xget ?m s2)"
    using assms(5) sint_nonneg by auto
  then have "alu f (xget ?m s1) (xget ?m s2) \<noteq> alu MULHU (xget ?m s1) (xget ?m s2)
      \<longleftrightarrow> sint (xget ?m s1) < 0 \<and> xget ?m s2 \<noteq> 0"
    using mulhsu_mulhu_iff by simp
  then have "xnext (xset d (alu f (xget ?m s1) (xget ?m s2)) ?m) \<noteq> abs_machine (flow_end fl)
      \<longleftrightarrow> sint (xget ?m s1) < 0 \<and> xget ?m s2 \<noteq> 0 \<and> d \<noteq> 0"
    unfolding fl(2) xnext_xset_eq_iff by blast
  moreover have "rvemu_step env st = Inr (True, flow_end fl)"
    by (simp only: s(2) mulh_executes_mulhu [OF s(1) assms(5)] fl(1) rbind_simps)
  ultimately show ?thesis
    by (intro exI [of _ "flow_end fl"]) (simp only: isa_exec.simps fl(2) option.inject simp_thms)
qed

text \<open>The small machine with one word at its program counter, minus one in \<open>a0\<close> and two in \<open>a1\<close>.\<close>

definition word_state :: "u32 \<Rightarrow> rvstate" where
  "word_state w = small_state\<lparr>regs := (replicate 32 0)[10 := - 1, 11 := 2],
     host := (host small_state)\<lparr>cells := (\<lambda>a. if 16 \<le> a \<and> a < 20 then Some (le_bytes 4 w ! (a - 16))
       else if 16 \<le> a \<and> a < 80 then Some 0 else None)\<rparr>\<rparr>"

lemma word_state_ok: "state_ok (word_state w)" "layout_ok (word_state w)" "\<not> suspended (word_state w)"
  by (simp_all add: word_state_def small_state_def blank_state_def state_ok_def layout_ok_def regs_wf_def
      fregs_wf_def RISCV_REGCOUNT_def context_zero_def heap_ok_def live_def regions_backed_def
      region_backed_def guest_layout_def region_fits_def)

lemma word_state_fetch: "rvstate_fetch (word_state w) = Inr w"
proof -
  have "hread (host (word_state w)) 16 4 = Inr (le_bytes 4 w)"
    by (simp add: hread_eq_Inr word_state_def small_state_def)
  moreover have "elf_vma_to_mem (mem (word_state w)) (pc (word_state w)) = 16"
    by (simp add: word_state_def small_state_def context_zero_def elf_vma_to_mem_def vma_outside_def)
  ultimately show ?thesis by (simp add: rvstate_fetch_def le_word_le_bytes_full)
qed

lemma word_state_regs:
  "xget (abs_machine (word_state w)) 10 = - 1" "xget (abs_machine (word_state w)) 11 = 2"
  "xget (abs_machine (word_state w)) 12 = 0"
  by (simp_all add: xget_def abs_machine_def reg_view_def word_state_def)

theorem mulhsu_is_mulhu_witness:
  "\<exists>st'. rvemu_step demo_env (word_state (encode (OpR MULHSU 5 10 11))) = Inr (True, st')
    \<and> isa_exec (OpR MULHSU 5 10 11) (abs_machine (word_state (encode (OpR MULHSU 5 10 11))))
      \<noteq> Some (abs_machine st')"
proof -
  have "sint (xget (abs_machine (word_state w)) 10) < 0" "xget (abs_machine (word_state w)) 11 \<noteq> 0" for w
    by (simp_all add: word_state_regs)
  with mulhsu_is_mulhu [OF word_state_ok word_state_fetch, of MULHSU 5 10 11 demo_env]
  show ?thesis by (simp del: encode.simps isa_exec.simps) blast
qed

text \<open>
  C37: a division instruction with a zero divisor is undefined behaviour of the C program, where the
  manual defines a quotient of all ones and the dividend as remainder; so is the signed division of
  the most negative number by minus one, of which the manual defines the result as well.
\<close>
theorem division_undefined:
  assumes "state_ok st" and "layout_ok st" and "\<not> suspended st"
    and "rvstate_fetch st = Inr (encode (OpR f d s1 s2))" and "f \<in> {DIV, DIVU, REM, REMU}"
    and "xget (abs_machine st) s2 = 0
      \<or> f \<in> {DIV, REM} \<and> sint (xget (abs_machine st) s1) = - (2 ^ 31) \<and> xget (abs_machine st) s2 = - 1"
  shows "\<exists>msg m'. rvemu_step env st = Inl (Undefined msg)
    \<and> isa_exec (OpR f d s1 s2) (abs_machine st) = Some m'"
proof -
  have "good st (abs_machine st)" using assms(1-3) by (simp add: good_def)
  then obtain s where s: "ready s (abs_machine st)"
    "rvemu_step env st = rbind (dispatch_switch env (decoded (OpR f d s1 s2)) s) (\<lambda>fl. Inr (True, flow_end fl))"
    using step_of_encoding [OF _ assms(4) computes_OpR] by metis
  have "\<exists>msg. dispatch_switch env (decoded (OpR f d s1 s2)) s = Inl (Undefined msg)"
    using assms(5,6) by (auto simp: exec_defs insn_zero_def ready_reg [OF s(1)] div_i32_def div_u32_def)
  then show ?thesis by (auto simp: s(2))
qed

theorem division_undefined_witness:
  "\<exists>msg m'. rvemu_step demo_env (word_state (encode (OpR DIVU 5 10 12))) = Inl (Undefined msg)
    \<and> isa_exec (OpR DIVU 5 10 12) (abs_machine (word_state (encode (OpR DIVU 5 10 12)))) = Some m'"
  by (rule division_undefined [OF word_state_ok word_state_fetch]) (simp_all add: word_state_regs)

section \<open>Floating-point formats\<close>

text \<open>The function fields can be read back from the switch values of the source.\<close>

lemma drop_funct7:
  "drop_bit 5 (push_bit 5 (f_funct7 w) OR f_rs2 w) = f_funct7 w"
  by (rule bit_word_eqI) (auto simp: field_defs bit_simps)

lemma drop_funct7_masked:
  assumes "drop_bit 6 m = 0"
  shows "drop_bit 6 ((push_bit 5 (f_funct7 w) OR f_rs2 w) AND NOT m) = drop_bit 1 (f_funct7 w)"
proof (rule bit_word_eqI)
  fix n assume n: "n < LENGTH(32)"
  have "bit (drop_bit 6 m) n = False" using assms by simp
  then have m: "\<not> bit m (6 + n)" by (simp add: bit_drop_bit_eq)
  show "bit (drop_bit 6 ((push_bit 5 (f_funct7 w) OR f_rs2 w) AND NOT m)) n
      = bit (drop_bit 1 (f_funct7 w)) n"
    using m n by (auto simp: field_defs bit_simps)
qed

lemma funct_of_funct7:
  assumes "f_funct7 w \<noteq> 0"
  shows "(ucast (push_bit 3 (f_funct7 w) OR f_funct3 w) :: u16) \<noteq> 2
    \<and> (ucast (push_bit 3 (f_funct7 w) OR f_funct3 w) :: u16) \<noteq> 3"
proof -
  let ?f = "ucast (push_bit 3 (f_funct7 w) OR f_funct3 w) :: u16"
  have "drop_bit 3 ?f = ucast (f_funct7 w)"
    by (rule bit_word_eqI) (auto simp: field_defs bit_simps)
  moreover have "(ucast (f_funct7 w) :: u16) \<noteq> 0"
  proof
    assume z: "(ucast (f_funct7 w) :: u16) = 0"
    have "\<not> bit (f_funct7 w) n" for n
    proof (cases "n < 7")
      case True
      then have "bit (ucast (f_funct7 w) :: u16) n = bit (f_funct7 w) n" by (simp add: bit_simps)
      with z show ?thesis by simp
    qed (simp add: f_funct7_def bit_bits)
    then have "f_funct7 w = 0" by (intro bit_word_eqI) simp
    with assms show False ..
  qed
  ultimately have "drop_bit 3 ?f \<noteq> 0" by simp
  moreover have "drop_bit 3 (2 :: u16) = 0" "drop_bit 3 (3 :: u16) = 0" by simp_all
  ultimately show ?thesis by metis
qed

text \<open>
  A float register instruction with function bits \<open>f7\<close> that belongs to no conversion reaches the
  third switch of its decoder.
\<close>

lemma rvdec_Rty__2_binary:
  assumes "drop_bit 1 (f_funct7 w) \<notin> {0b110000, 0b110100, 0b111000, 0b111100, 0b010110, 0b010000}"
  shows "rvdec_Rty__2 st w =
    switch (f_funct7 w AND NOT 0b1)
       [(0b0000000, make_insn (EXT_FD RV_INSN__FADDx) RV_ARGSPEC__Fx_Fx_Fx st),
        (0b0000100, make_insn (EXT_FD RV_INSN__FSUBx) RV_ARGSPEC__Fx_Fx_Fx st),
        (0b0001000, make_insn (EXT_FD RV_INSN__FMULx) RV_ARGSPEC__Fx_Fx_Fx st),
        (0b0001100, make_insn (EXT_FD RV_INSN__FDIVx) RV_ARGSPEC__Fx_Fx_Fx st),
        (0b0010000, switch (f_funct3 w)
          [(0b000, make_insn (EXT_FD RV_INSN__FSGNJx) RV_ARGSPEC__Fx_Fx_Fx st),
           (0b001, make_insn (EXT_FD RV_INSN__FSGNJNx) RV_ARGSPEC__Fx_Fx_Fx st),
           (0b010, make_insn (EXT_FD RV_INSN__FSGNJXx) RV_ARGSPEC__Fx_Fx_Fx st)]
          (diagn_invalid ''invalid floating point encoding '' st)),
        (0b0010100, switch (f_funct3 w)
          [(0b000, make_insn (EXT_FD RV_INSN__FMINx) RV_ARGSPEC__Fx_Fx_Fx st),
           (0b001, make_insn (EXT_FD RV_INSN__FMAXx) RV_ARGSPEC__Fx_Fx_Fx st)]
          (diagn_invalid (''invalid min/max funct3 bit specifier'' @ [CHR 0x0A]) st)),
        (0b1010000, switch (f_funct3 w)
          [(0b010, make_insn (EXT_FD RV_INSN__FEQx) RV_ARGSPEC__Fx_Fx_Fx st),
           (0b001, make_insn (EXT_FD RV_INSN__FLTx) RV_ARGSPEC__Fx_Fx_Fx st),
           (0b000, make_insn (EXT_FD RV_INSN__FLEx) RV_ARGSPEC__Fx_Fx_Fx st)]
          (diagn_invalid ''invalid floating point encoding '' st))]
       (diagn_invalid ''invalid floating point encoding '' st)"
proof -
  let ?f = "push_bit 5 (f_funct7 w) OR f_rs2 w"
  have d1: "?f \<noteq> c" if "drop_bit 1 (f_funct7 w) \<noteq> drop_bit 6 c" for c
  proof
    assume "?f = c"
    then have "drop_bit 1 (f_funct7 w) = drop_bit 1 (drop_bit 5 c)" using drop_funct7 [of w] by simp
    also have "\<dots> = drop_bit 6 c" by (simp only: drop_bit_drop_bit) simp
    finally show False using that by simp
  qed
  have d2: "?f AND NOT 0b000000100000 \<noteq> c" if "drop_bit 1 (f_funct7 w) \<noteq> drop_bit 6 c" for c
    using drop_funct7_masked [of "0b000000100000"] that by auto
  have n1: "?f \<noteq> 0b0010000000001" "?f \<noteq> 0b010000100000"
    by (rule d1, use assms in simp)+
  have n2: "?f AND NOT 0b000000100000 \<noteq> 0b110000000000"
    "?f AND NOT 0b000000100000 \<noteq> 0b110000000001"
    "?f AND NOT 0b000000100000 \<noteq> 0b110100000000"
    "?f AND NOT 0b000000100000 \<noteq> 0b110100000001"
    "?f AND NOT 0b000000100000 \<noteq> 0b111000000000"
    "?f AND NOT 0b000000100000 \<noteq> 0b111100000000"
    "?f AND NOT 0b000000100000 \<noteq> 0b010110000000"
    by (rule d2, use assms in simp)+
  show ?thesis
    unfolding rvdec_Rty__2_def Let_def switch_Cons switch_Nil
    by (simp only: n1 n2 if_False)
qed

text \<open>
  Decoding a float register instruction: the name comes from one of the switches and
  \<open>funct\<close> keeps all ten function bits, so it is not the operand format when \<open>funct7\<close> is not zero.
\<close>

lemma rvdec_insn_binary:
  assumes op: "f_opcode w = 0b1010011"
    and grp: "rvdec_Rty__2 st w = make_insn (EXT_FD f) a st" and "f_funct7 w \<noteq> 0" and "\<not> csr_argspec a"
  obtains i line where "rvdec_insn st w = Inr (i, emit (Disasm line) st)" "insn_ty i = EXT_FD f"
    "funct i \<noteq> 2" "funct i \<noteq> 3"
proof -
  let ?ops = "insn_zero\<lparr>rd := ucast (f_rd w), rs1 := ucast (f_rs1 w), rs2 := ucast (f_rs2 w),
      funct := ucast (push_bit 3 (f_funct7 w) OR f_funct3 w)\<rparr>"
  have "rvdec_insn st w = rvdec_finish ?ops (make_insn (EXT_FD f) a st)"
    by (simp add: rvdec_insn_def Let_def op OPCOND__R_def rvdec_Rty_def grp)
  moreover obtain line where "rvasm_emit (?ops\<lparr>insn_ty := EXT_FD f\<rparr>) a st
      = Inr (emit (Disasm line) st)"
    using rvasm_emit_ok [OF assms(4)] by blast
  ultimately have "rvdec_insn st w = Inr (?ops\<lparr>insn_ty := EXT_FD f\<rparr>, emit (Disasm line) st)"
    by (simp add: rvdec_finish_def make_insn_def)
  moreover have "funct (?ops\<lparr>insn_ty := EXT_FD f\<rparr>) = ucast (push_bit 3 (f_funct7 w) OR f_funct3 w)"
    "insn_ty (?ops\<lparr>insn_ty := EXT_FD f\<rparr>) = EXT_FD f" by simp_all
  ultimately show ?thesis using funct_of_funct7 [OF \<open>f_funct7 w \<noteq> 0\<close>] that by metis
qed

lemma fmt_switch_other: "funct i \<noteq> 2 \<Longrightarrow> funct i \<noteq> 3 \<Longrightarrow> fmt_switch i a b d = d"
  by (simp add: fmt_switch_def RISCV_FLTFUNC_SINGLE_def RISCV_FLTFUNC_DOUBLE_def)

lemma dispatch_fd:
  "insn_ty i = EXT_FD f \<Longrightarrow> rvemu_dispatch env i st =
     rbind (exec_fd env f i (rvbkpt_check_insn i st)) (\<lambda>fl. Inr (flow_end fl))"
  by (simp add: rvemu_dispatch_def dispatch_switch_def exec_arith_def exec_mem_def exec_branch_def
      exec_upper_def exec_env_def)

definition needs_format :: "rv32fd_insn \<Rightarrow> bool" where
  "needs_format f \<longleftrightarrow> f \<in> {RV_INSN__FADDx, RV_INSN__FSUBx, RV_INSN__FMULx, RV_INSN__FDIVx, RV_INSN__FSGNJx,
     RV_INSN__FSGNJNx, RV_INSN__FSGNJXx, RV_INSN__FSQRTx, RV_INSN__FCVT_x_W, RV_INSN__FCVT_W_x, RV_INSN__FCVT_WU_x}"

lemma exec_fd_other:
  assumes "needs_format f" "funct i \<noteq> 2" "funct i \<noteq> 3"
  shows "exec_fd env f i st = unreachable"
  using assms by (auto simp: needs_format_def exec_fd_def fd_defs fmt_switch_other Let_def)

lemma exec_fd_compare_other:
  assumes "f \<in> {RV_INSN__FMINx, RV_INSN__FMAXx, RV_INSN__FEQx, RV_INSN__FLTx, RV_INSN__FLEx}"
    "funct i \<noteq> 2" "funct i \<noteq> 3"
  shows "exec_fd env f i st = fall st"
  using assms by (auto simp: exec_fd_def fd_defs fmt_switch_other Let_def)

lemma funct7_even:
  fixes w :: u32
  assumes "f_funct7 w AND NOT 1 = c"
  shows "drop_bit 1 (f_funct7 w) = drop_bit 1 c"
proof -
  have "drop_bit 1 (f_funct7 w AND NOT m) = drop_bit 1 (f_funct7 w)" if "drop_bit 1 m = 0" for m
  proof (rule bit_word_eqI)
    fix n assume n: "n < LENGTH(32)"
    have "bit (drop_bit 1 m) n = False" using that by simp
    with n show "bit (drop_bit 1 (f_funct7 w AND NOT m)) n = bit (drop_bit 1 (f_funct7 w)) n"
      by (auto simp: bit_drop_bit_eq bit_and_iff bit_not_iff f_funct7_def bit_bits)
  qed
  from this [of 1] have "drop_bit 1 (f_funct7 w AND NOT 1) = drop_bit 1 (f_funct7 w)" by simp
  with assms show ?thesis by simp
qed

lemma funct7_even_set:
  "f_funct7 w AND NOT 1 \<in> S \<Longrightarrow> drop_bit 1 (f_funct7 w) \<in> drop_bit 1 ` S"
  using funct7_even [OF refl] by (metis imageI)

text \<open>The word is \<open>FCVT.W\<close>, \<open>FCVT.WU\<close>, or a conversion back, or \<open>FSQRT\<close>, of either precision.\<close>

lemma rvdec_Rty__2_unary:
  assumes "f_funct7 w AND NOT 1 \<in> {0b1100000, 0b1101000} \<and> f_rs2 w \<in> {0, 1}
    \<or> f_funct7 w AND NOT 1 = 0b0101100 \<and> f_rs2 w = 0"
  shows "\<exists>f a. needs_format f \<and> \<not> csr_argspec a \<and> rvdec_Rty__2 st w = make_insn (EXT_FD f) a st"
proof -
  have "x = c \<or> x = c OR 1" if "x AND NOT 1 = c" for x c :: u32
  proof (cases "bit x 0")
    case True
    have "x = (x AND NOT 1) OR 1" by (rule bit_word_eqI) (use True in \<open>auto simp: bit_simps\<close>)
    with that show ?thesis by simp
  next
    case False
    have "x = (x AND NOT 1)" by (rule bit_word_eqI) (use False in \<open>auto simp: bit_simps intro: gr0I\<close>)
    with that show ?thesis by simp
  qed
  note even = this [of "f_funct7 w"]
  have "f_funct7 w \<in> {0b1100000, 0b1100001, 0b1101000, 0b1101001} \<and> f_rs2 w \<in> {0, 1}
    \<or> f_funct7 w \<in> {0b0101100, 0b0101101} \<and> f_rs2 w = 0"
    using assms even [of "0b1100000"] even [of "0b1101000"] even [of "0b0101100"] by auto
  then show ?thesis
    by (elim disjE conjE insertE emptyE)
      (simp_all add: rvdec_Rty__2_def Let_def needs_format_def csr_argspec_def make_insn_def)
qed

text \<open>
  C33: the decoder stores \<open>funct7\<close> and \<open>funct3\<close> together in \<open>funct\<close>, which the dispatcher compares
  with the two operand formats.  So every encoding of \<open>FADD.D\<close>, and of \<open>FSUB\<close>, \<open>FMUL\<close>, \<open>FDIV\<close>, \<open>FSQRT\<close>,
  the sign injections and the conversions from and to integers of either precision, with any rounding
  mode, decodes and then runs into \<open>__builtin_unreachable\<close>.
\<close>
theorem float_arithmetic_unreachable:
  assumes "f_opcode w = 0b1010011" and "f_funct7 w \<noteq> 0"
    and "f_funct7 w AND NOT 1 \<in> {0b0000000, 0b0000100, 0b0001000, 0b0001100}
      \<or> f_funct7 w AND NOT 1 = 0b0010000 \<and> f_funct3 w \<in> {0, 1, 2}
      \<or> f_funct7 w AND NOT 1 \<in> {0b1100000, 0b1101000} \<and> f_rs2 w \<in> {0, 1}
      \<or> f_funct7 w AND NOT 1 = 0b0101100 \<and> f_rs2 w = 0"
  shows "rbind (rvdec_insn st w) (\<lambda>(i, st). rvemu_dispatch env i st)
    = Inl (Undefined ''__builtin_unreachable'')"
proof -
  let ?binary = "f_funct7 w AND NOT 1 \<in> {0b0000000, 0b0000100, 0b0001000, 0b0001100}
    \<or> f_funct7 w AND NOT 1 = 0b0010000 \<and> f_funct3 w \<in> {0, 1, 2}"
  have "\<exists>f a. needs_format f \<and> \<not> csr_argspec a \<and> rvdec_Rty__2 st w = make_insn (EXT_FD f) a st"
  proof (cases ?binary)
    case True
    then have "f_funct7 w AND NOT 1 \<in> {0b0000000, 0b0000100, 0b0001000, 0b0001100, 0b0010000}" by blast
    from funct7_even_set [OF this] have "drop_bit 1 (f_funct7 w) \<in> {0, 0b10, 0b100, 0b110, 0b1000}" by simp
    then have "drop_bit 1 (f_funct7 w) \<notin> {0b110000, 0b110100, 0b111000, 0b111100, 0b010110, 0b010000}"
      by auto
    note sw = rvdec_Rty__2_binary [OF this]
    have "\<exists>f. needs_format f \<and> rvdec_Rty__2 st w = make_insn (EXT_FD f) RV_ARGSPEC__Fx_Fx_Fx st"
      using True by (elim disjE conjE insertE emptyE) (simp_all add: sw needs_format_def make_insn_def)
    moreover have "\<not> csr_argspec RV_ARGSPEC__Fx_Fx_Fx" by (simp add: csr_argspec_def)
    ultimately show ?thesis by blast
  next
    case False
    with assms(3) show ?thesis by (intro rvdec_Rty__2_unary) blast
  qed
  then obtain f a where f: "needs_format f" "\<not> csr_argspec a"
    and "rvdec_Rty__2 st w = make_insn (EXT_FD f) a st" by blast
  from rvdec_insn_binary [OF assms(1) this(3) assms(2) f(2)] obtain i line
    where "rvdec_insn st w = Inr (i, emit (Disasm line) st)" "insn_ty i = EXT_FD f"
      "funct i \<noteq> 2" "funct i \<noteq> 3" .
  with f(1) show ?thesis by (simp add: dispatch_fd exec_fd_other unreachable_def)
qed

theorem float_arithmetic_unreachable_witness:
  "rbind (rvdec_insn small_state 0x10208053) (\<lambda>(i, st). rvemu_dispatch demo_env i st)
    = Inl (Undefined ''__builtin_unreachable'')"
  by (rule float_arithmetic_unreachable) (simp_all add: field_defs bits_def)

text \<open>
  C35: \<open>FADD.S\<close> takes its rounding mode for the precision: mode 2 adds singles, mode 3 adds the whole
  64-bit registers as doubles, and every other mode, the default among them, is undefined behaviour.
\<close>
theorem fadd_format_is_rounding_mode:
  assumes "f_opcode w = 0b1010011" and "f_funct7 w = 0"
  shows "\<exists>i line. rbind (rvdec_insn st w) (\<lambda>(i, st). rvemu_dispatch env i st) =
    (let st1 = rvbkpt_check_insn i (emit (Disasm line) st);
         d = ucast (f_rd w); s1 = ucast (f_rs1 w); s2 = ucast (f_rs2 w)
     in if f_funct3 w = 2 then Inr ((rvfloat_write_f32 d
          (op32 fadd env (rvfloat_read_f32 st1 s1) (rvfloat_read_f32 st1 s2)) st1)\<lparr>pc := pc st + 4\<rparr>)
        else if f_funct3 w = 3 then Inr ((rvfloat_write_f64 d
          (op64 fadd env (rvfloat_read_f64 st1 s1) (rvfloat_read_f64 st1 s2)) st1)\<lparr>pc := pc st + 4\<rparr>)
        else Inl (Undefined ''__builtin_unreachable''))"
proof -
  let ?i = "insn_zero\<lparr>rd := ucast (f_rd w), rs1 := ucast (f_rs1 w), rs2 := ucast (f_rs2 w),
      funct := ucast (f_funct3 w), insn_ty := EXT_FD RV_INSN__FADDx\<rparr>"
  have "rvdec_Rty__2 st w = make_insn (EXT_FD RV_INSN__FADDx) RV_ARGSPEC__Fx_Fx_Fx st"
    using assms(2) rvdec_Rty__2_binary [of w st] by simp
  then have "rvdec_insn st w = rvdec_finish (insn_zero\<lparr>rd := ucast (f_rd w), rs1 := ucast (f_rs1 w),
      rs2 := ucast (f_rs2 w), funct := ucast (f_funct3 w)\<rparr>) (make_insn (EXT_FD RV_INSN__FADDx) RV_ARGSPEC__Fx_Fx_Fx st)"
    using assms by (simp add: rvdec_insn_def Let_def OPCOND__R_def rvdec_Rty_def)
  moreover obtain line where "rvasm_emit ?i RV_ARGSPEC__Fx_Fx_Fx st = Inr (emit (Disasm line) st)"
    using rvasm_emit_ok [of RV_ARGSPEC__Fx_Fx_Fx] by (auto simp: csr_argspec_def)
  ultimately have d: "rvdec_insn st w = Inr (?i, emit (Disasm line) st)"
    by (simp add: rvdec_finish_def make_insn_def)
  have again: "(ucast (ucast (f_funct3 w) :: u16) :: u32) = f_funct3 w"
    by (rule bit_word_eqI) (auto simp: field_defs bit_simps)
  have f3: "(ucast (f_funct3 w) :: u16) = 2 \<longleftrightarrow> f_funct3 w = 2"
    "(ucast (f_funct3 w) :: u16) = 3 \<longleftrightarrow> f_funct3 w = 3"
    using again by auto
  show ?thesis
    by (intro exI [of _ ?i] exI [of _ line])
      (simp add: d dispatch_fd exec_fd_def exec_fd_mem_def exec_fd_arith_def fmt_switch_def f3
        RISCV_FLTFUNC_SINGLE_def RISCV_FLTFUNC_DOUBLE_def assign_f32_def assign_f64_def fall_def
        RISCV_INSNLEN_def unreachable_def rvbkpt_check_insn_def emit_def rvfloat_write_f32_def
        rvfloat_write_f64_def set_freg_def Let_def)
qed

theorem fadd_format_is_rounding_mode_witness:
  "rbind (rvdec_insn small_state 0x0020F053) (\<lambda>(i, st). rvemu_dispatch demo_env i st) =
    Inl (Undefined ''__builtin_unreachable'')"
  using fadd_format_is_rounding_mode [of "0x0020F053" small_state demo_env]
  by (simp add: field_defs bits_def)

text \<open>
  C34: for the same reason \<open>FMIN\<close>, \<open>FMAX\<close>, \<open>FEQ\<close>, \<open>FLT\<close> and \<open>FLE\<close> of either precision change no
  register: only the disassembly line, the breakpoint checks and the program counter advance.
\<close>
theorem float_compare_ignored:
  assumes "f_opcode w = 0b1010011"
    and "f_funct7 w AND NOT 1 = 0b0010100 \<and> f_funct3 w \<in> {0, 1}
      \<or> f_funct7 w AND NOT 1 = 0b1010000 \<and> f_funct3 w \<in> {0, 1, 2}"
  shows "\<exists>i line. rbind (rvdec_insn st w) (\<lambda>(i, st). rvemu_dispatch env i st)
    = Inr ((rvbkpt_check_insn i (emit (Disasm line) st))\<lparr>pc := pc st + 4\<rparr>)"
proof -
  let ?S = "{RV_INSN__FMINx, RV_INSN__FMAXx, RV_INSN__FEQx, RV_INSN__FLTx, RV_INSN__FLEx}"
  have nz: "f_funct7 w \<noteq> 0" using assms(2) by auto
  have "f_funct7 w AND NOT 1 \<in> {0b0010100, 0b1010000}" using assms(2) by blast
  from funct7_even_set [OF this] have "drop_bit 1 (f_funct7 w) \<in> {0b1010, 0b101000}" by simp
  then have "drop_bit 1 (f_funct7 w) \<notin> {0b110000, 0b110100, 0b111000, 0b111100, 0b010110, 0b010000}"
    by auto
  note sw = rvdec_Rty__2_binary [OF this]
  have "\<exists>f \<in> ?S. rvdec_Rty__2 st w = make_insn (EXT_FD f) RV_ARGSPEC__Fx_Fx_Fx st"
    using assms(2) by (auto simp: sw)
  then obtain f where f: "f \<in> ?S"
    and dec: "rvdec_Rty__2 st w = make_insn (EXT_FD f) RV_ARGSPEC__Fx_Fx_Fx st" by blast
  have "\<not> csr_argspec RV_ARGSPEC__Fx_Fx_Fx" by (simp add: csr_argspec_def)
  from rvdec_insn_binary [OF assms(1) dec nz this] obtain i line
    where "rvdec_insn st w = Inr (i, emit (Disasm line) st)" "insn_ty i = EXT_FD f"
      "funct i \<noteq> 2" "funct i \<noteq> 3" .
  with exec_fd_compare_other [OF f]
  have "rbind (rvdec_insn st w) (\<lambda>(i, st). rvemu_dispatch env i st)
    = Inr ((rvbkpt_check_insn i (emit (Disasm line) st))\<lparr>pc := pc st + 4\<rparr>)"
    by (simp add: dispatch_fd fall_def RISCV_INSNLEN_def rvbkpt_check_insn_def emit_def)
  then show ?thesis by blast
qed

theorem float_compare_ignored_witness:
  "\<exists>i line. rbind (rvdec_insn small_state 0xA0002053) (\<lambda>(i, st). rvemu_dispatch demo_env i st)
    = Inr ((rvbkpt_check_insn i (emit (Disasm line) small_state))\<lparr>pc := pc small_state + 4\<rparr>)"
  by (rule float_compare_ignored) (simp_all add: field_defs bits_def)

text \<open>\<open>never f r\<close>: a decoding result \<open>r\<close> does not name the instruction \<open>f\<close>.\<close>

definition never :: "e_insn \<Rightarrow> (insn_ty_argspec_pair \<times> rvstate) res \<Rightarrow> bool" where
  "never f r \<longleftrightarrow> (\<forall>a st. r \<noteq> Inr ((f, a), st))"

lemma never_basic:
  "never f (make_insn i a st) \<longleftrightarrow> i \<noteq> f" "never f (diagn_invalid m st) \<longleftrightarrow> f \<noteq> RV_INSN__INVALID"
  "never f unreachable" "never f (no_case st) \<longleftrightarrow> f \<noteq> RV_INSN__INVALID"
  "never f (Inr ((i, a), st)) \<longleftrightarrow> i \<noteq> f"
  by (auto simp: never_def make_insn_def diagn_invalid_def INVALID_INSN_def unreachable_def no_case_def
      zero_e_insn_def)

lemma never_switch: "list_all (\<lambda>(c, r). never f r) cs \<Longrightarrow> never f d \<Longrightarrow> never f (switch v cs d)"
  by (rule switch_property) (auto simp: list_all_iff)

lemma never_finish:
  "never f grp \<Longrightarrow> rvdec_finish ops grp = Inr (i, st') \<Longrightarrow> insn_ty i \<noteq> f"
  by (erule rvdec_finish_Inr) (auto simp: never_def)

lemma never_formats:
  "rvdec_Ity st w = Inr (i, st') \<Longrightarrow> insn_ty i \<noteq> EXT_FD RV_INSN__FCVT_x_WU"
  "rvdec_Rty st w = Inr (i, st') \<Longrightarrow> insn_ty i \<noteq> EXT_FD RV_INSN__FCVT_x_WU"
  "rvdec_Sty st w = Inr (i, st') \<Longrightarrow> insn_ty i \<noteq> EXT_FD RV_INSN__FCVT_x_WU"
  "rvdec_Bty st w = Inr (i, st') \<Longrightarrow> insn_ty i \<noteq> EXT_FD RV_INSN__FCVT_x_WU"
  "rvdec_Uty st w = Inr (i, st') \<Longrightarrow> insn_ty i \<noteq> EXT_FD RV_INSN__FCVT_x_WU"
  "rvdec_Jty st w = Inr (i, st') \<Longrightarrow> insn_ty i \<noteq> EXT_FD RV_INSN__FCVT_x_WU"
  unfolding format_defs Let_def
  by (erule never_finish [rotated],
      simp del: switch_Cons add: group_defs never_basic never_switch INVALID_INSN_def Let_def)+

lemma never_R4: "rvdec_R4ty st w = Inr (i, st') \<Longrightarrow> insn_ty i \<noteq> EXT_FD RV_INSN__FCVT_x_WU"
  by (auto simp: rvdec_R4ty_def Let_def zero_e_insn_def split: if_splits)

text \<open>
  C39: no instruction word decodes to \<open>FCVT_x_WU\<close>: the encodings of the unsigned conversion are
  decoded as the signed one, and its case in the dispatcher is dead.
\<close>
theorem unsigned_conversion_never:
  assumes "rvdec_insn st w = Inr (i, st')"
  shows "insn_ty i \<noteq> EXT_FD RV_INSN__FCVT_x_WU"
proof -
  consider "rvdec_Rty st w = Inr (i, st')" | "rvdec_Ity st w = Inr (i, st')"
    | "rvdec_Sty st w = Inr (i, st')" | "rvdec_Uty st w = Inr (i, st')"
    | "rvdec_Jty st w = Inr (i, st')" | "rvdec_Bty st w = Inr (i, st')"
    | "rvdec_R4ty st w = Inr (i, st')" | "insn_ty i = RV_INSN__INVALID"
    using assms by (auto simp: rvdec_insn_def Let_def split: if_splits)
  then show ?thesis
    by cases (auto dest: never_formats never_R4)
qed

theorem unsigned_conversion_never_witness:
  "\<exists>i st'. rvdec_insn small_state 0xD0100053 = Inr (i, st') \<and> insn_ty i \<noteq> EXT_FD RV_INSN__FCVT_x_WU"
proof -
  have "\<exists>i st'. rvdec_insn small_state 0xD0100053 = Inr (i, st')"
    by (simp add: rvdec_insn_def Let_def OPCOND__R_def rvdec_Rty_def rvdec_Rty__2_def field_defs bits_def
        make_insn_def rvdec_finish_def rvasm_emit_def rvasm_line_def)
  then show ?thesis using unsigned_conversion_never by blast
qed

section \<open>Disassembly\<close>

text \<open>
  C40: the disassembly of a store names the register \<open>zero\<close> as the one stored, whatever the source
  register is: the emitter prints \<open>rd\<close>, which a store does not have.
\<close>
theorem store_disassembly:
  "\<exists>i. rvdec_insn st (encode (OpStore f s1 s2 im)) = Inr (i, emit (Disasm (repr_insn_map (storeop_ty f)
      @ '' '' @ dec_i32 (scast im) @ ''('' @ REG (ucast s1)
      @ (case f of SB \<Rightarrow> '').b, '' | SH \<Rightarrow> '').hw, '' | SW \<Rightarrow> ''), '') @ ''zero'')) st) \<and> rs2 i = ucast s2"
  by (cases f) (simp_all add: decode_defs signext_simps rvasm_emit_def rvasm_line_def INSN_def REG_def
      insn_zero_def repr_reg_abi_map_def)

end
