(* ===== verification/Spec2Isabelle.thy ===== *)
theory Spec2Isabelle
  imports Debugging Divergence
begin

text \<open>
  A verification development for urv86t, a user-mode emulator of 32-bit RISC-V (RV32I with the M, F
  and D extensions) written in C.

  \<^bold>\<open>The program.\<close>  \<^verbatim>\<open>main\<close> (\<^verbatim>\<open>src/main.c\<close>) reads an ELF file,
  \<^verbatim>\<open>elf_init\<close> (\<^verbatim>\<open>src/elf.c\<close>) loads its segments into host memory and adds a
  heap and a stack, \<^verbatim>\<open>rvstate_init\<close> (\<^verbatim>\<open>src/emu.c\<close>) makes the emulator's state,
  and the main loop calls \<^verbatim>\<open>rvemu_step\<close> until it returns false.  A step fetches a word
  through the address translation, decodes it (\<^verbatim>\<open>src/decoder.c\<close>,
  \<^verbatim>\<open>src/insn/*.c\<close>) with a disassembly line (\<^verbatim>\<open>src/asm/context.c\<close>,
  \<^verbatim>\<open>src/repr.c\<close>), checks the breakpoints (\<^verbatim>\<open>src/bkpt.c\<close>) and executes it
  (\<^verbatim>\<open>src/dispatch.c\<close>, \<^verbatim>\<open>src/ext/rv32fd.c\<close>); an
  \<^verbatim>\<open>ecall\<close> selects one of five system calls (\<^verbatim>\<open>src/syscall.c\<close>).  A
  breakpoint that was hit opens a prompt on standard input.

  \<^bold>\<open>Model.\<close>  The C structs are records, its enumerations datatypes, its integers words of
  their width.  A function takes the state and returns it updated.  What stops the process is a value
  of \<open>fault\<close>: \<open>Fatal\<close> is \<^verbatim>\<open>rvtrbk_fatal\<close> and \<open>Undefined\<close> is behaviour that C leaves
  undefined, among it every access outside an allocated block; no theorem relies on how a host behaves
  there.  The host heap is explicit, with \<^verbatim>\<open>calloc\<close> that can fail.  Everything the process
  prints is a list of events in the state.  The configuration is the default one: all of
  \<^verbatim>\<open>RV32_FEATURE_*\<close> on, \<^verbatim>\<open>DEBUG\<close> off; the lines of the disassembler, printed
  under \<^verbatim>\<open>VERBOSE\<close>, are kept as events.

  \<^bold>\<open>Theories, in the order of the imports.\<close>
  \<^item> \<open>Prelude\<close>: integer types, results, the C switch, bit-fields, little-endian bytes.
  \<^item> \<open>HostMem\<close>: the host heap; locales \<open>allocator\<close> and \<open>byte_store\<close>, met by it.
  \<^item> \<open>Insn\<close>: instruction enumerations, \<^verbatim>\<open>insn_t\<close>, the fields of \<^verbatim>\<open>union
    insn_base\<close>, opcode classes (\<^verbatim>\<open>include/platform.h\<close>, \<^verbatim>\<open>include/ext/*.h\<close>).
  \<^item> \<open>Elf\<close>, \<open>ElfInit\<close>: regions, translation in both directions, the loader (\<^verbatim>\<open>src/elf.c\<close>).
  \<^item> \<open>Machine\<close>: \<^verbatim>\<open>struct rvstate\<close>, registers, guest memory, diagnostics
    (\<^verbatim>\<open>src/emu.c\<close>, \<^verbatim>\<open>src/traceback.c\<close>); locale \<open>register_file\<close>, met by both
    register files; guest memory meets \<open>byte_store\<close>.
  \<^item> \<open>Breakpoints\<close>, \<open>Repr\<close>, \<open>AsmEmit\<close>, \<open>Decoder\<close>: the files named alike.
  \<^item> \<open>Ieee\<close>, \<open>Floats\<close>: binary32 and binary64 arithmetic on bit patterns, rounding to nearest even;
    the float registers and conversions of \<^verbatim>\<open>src/ext/rv32fd.c\<close>.
  \<^item> \<open>Syscalls\<close>: the system calls; locale \<open>program_break\<close>, met by \<^verbatim>\<open>rvsysc_brk\<close>.
  \<^item> \<open>Dispatch\<close>: every case of \<^verbatim>\<open>rvemu_dispatch\<close>; locale \<open>state_invariant\<close>, what an
    invariant of execution has to respect, with three instances.
  \<^item> \<open>Emulator\<close>: the step, core dump, prompt, main loop and main program; locale \<open>run_invariant\<close>.
  \<^item> \<open>IsaSpec\<close>, \<open>DecodeCorrect\<close>, \<open>GuestMemory\<close>, \<open>Refinement\<close>, \<open>FloatRefinement\<close>: the instruction set as
    the manual defines it, written independently of the emulator, and the refinement.
  \<^item> \<open>Divergence\<close>: where the emulator departs from the manual.
  \<^item> \<open>Program\<close>, \<open>DemoRun\<close>: whole runs, and one program from its file to its exit code.
  \<^item> \<open>Process\<close>: a user-mode process as the abstract specification of the whole emulator: the manual's
    machine with float registers, the program break, the bytes written and the exit code, with the
    system calls as steps; and that iterations of the main loop refine it.
  \<^item> \<open>ProgramRun\<close>: the start state as the process with the image of the file in memory.
  \<^item> \<open>Debugging\<close>: runs with breakpoints and a user; locale \<open>session_property\<close>, met by the refinement.

  \<^bold>\<open>What the lemmas show.\<close>  The decoder inverts the manual's encoding of RV32IM, but for the fences
  that are not \<^verbatim>\<open>fence iorw, iorw\<close>, which it rejects; it never selects a register that does
  not exist, and stops the process on exactly the words listed.  One step, and any run, of covered
  RV32IM instructions (without \<^verbatim>\<open>FENCE\<close>, which suspends the emulator, and the environment's
  \<^verbatim>\<open>ECALL\<close> and \<^verbatim>\<open>EBREAK\<close>) is a step of the manual's machine in every register, the program
  counter and every byte of memory, and so is a step of the float loads, stores, moves and
  conversions; covered excludes accesses that leave a region and the operands on which the C
  arithmetic is undefined or wrong, and those are the subject of \<open>Divergence\<close>.  The loader refuses
  exactly the headers listed and places exactly the loadable segments, with their bytes, each region
  in a block of its own, and the heap at the end of the last section named \<^verbatim>\<open>.bss\<close>.  These compose:
  from the ELF file to the exit code, iterations of the main loop are steps of the process that starts
  from the image of the file, system calls included (\<open>program_refines\<close>), and neither breakpoints nor
  the user's commands disturb it (\<open>debugged_program\<close>); both assume that the steps are covered, and the
  example program shows that they can be.  Execution keeps the state well formed and the address map
  fixed.  The program break refines an abstract pointer, breakpoints fire
  and are polled as specified, the prompt returns for every finite input, and \<^verbatim>\<open>exit\<close> ends
  the run.

  \<^bold>\<open>Fuel.\<close>  \<open>main_loop\<close> takes the number of iterations it may make, because a guest program may
  loop forever; \<open>None\<close> is running out.  A result does not depend on the fuel
  (\<open>main_loop_more_fuel\<close>), every iteration of a covered program makes progress, so that the fuel only
  runs out on a process with that many steps (\<open>main_loop_progress\<close>), two iterations are enough from an
  \<^verbatim>\<open>exit\<close> on (\<open>exit_ends_run\<close>), and four for the example (\<open>demo_run\<close>).  All other
  functions are total without fuel.

  \<^bold>\<open>Parameters.\<close>  \<open>host_env\<close> holds what the host decides: the results of
  \<^verbatim>\<open>write\<close> and \<^verbatim>\<open>fstat\<close>, the NaN an operation returns, the zero
  \<^verbatim>\<open>fmin\<close> and \<^verbatim>\<open>fmax\<close> prefer.  The file system is two functions, standard input
  a string.  The theorems hold for all of them.

  \<^bold>\<open>Not modelled.\<close>  \<^verbatim>\<open>elf_free\<close>, \<^verbatim>\<open>rvstate_free\<close> and
  \<^verbatim>\<open>rvasm_free\<close>, which release memory when the process ends; the argument parser of the C
  library beyond the callback \<^verbatim>\<open>parse_opt\<close>; short reads of the input file; the 16-bit views of
  compressed instructions, which no code reads; debug prints; the build files.  Two points that C
  leaves undefined are modelled as on the hosts the program is built for: a misaligned access to host
  memory (\<^verbatim>\<open>*(i32 *)p\<close> in \<^verbatim>\<open>src/dispatch.c\<close>) reads and writes the bytes in order, as
  on x86-64, and \<^verbatim>\<open>tolower\<close> of a negative character at the prompt is the character, as in
  glibc.
\<close>

end
